(* ===== verification/Prelude.thy ===== *)
theory Prelude
  imports Main "HOL-Library.Sublist" "HOL-Library.List_Lexorder" "HOL-Library.Char_ord"
begin

text \<open>
  Shared vocabulary of the development: Go's \<open>error\<close> values, results that are either an
  error or a value, labelled runs of a step relation with the interface an invariant has to
  satisfy, and list lemmas used by several components.
\<close>

section \<open>Lemma collections\<close>

named_theorems str_simps \<open>rewriting of the strings package\<close>
named_theorems path_simps \<open>rewriting of the path package on clean names\<close>
named_theorems match_defs \<open>definitions of username matching and routing\<close>
named_theorems fs_defs \<open>definitions of the writable file system\<close>

section \<open>Error values\<close>

text \<open>
  A message is a list of fragments: literal text and \<open>%s\<close> arguments (\<open>T\<close>), \<open>%q\<close> arguments
  (\<open>Q\<close>, quoted by \<open>strconv.Quote\<close>) and \<open>%d\<close> arguments (\<open>D\<close>). An error is a leaf with a message
  (\<open>errors.New\<close>, \<open>fmt.Errorf\<close> without \<open>%w\<close>), an error value a library returned, a process or
  SSH exit error with its status, or a wrapped error (\<open>fmt.Errorf\<close> whose last verb is \<open>%w\<close>).
\<close>

datatype frag = T string | Q string | D int

datatype error =
    Errorf "frag list"
  | External string
  | ExecExitError int
  | GosshExitError int
  | Wrapf "frag list" error

type_synonym 'a result = "error + 'a"

text \<open>\<open>errors.As(err, &target)\<close> walks the chain of wrapped errors outside in.\<close>

fun as_exec_exit :: "error \<Rightarrow> int option" where
  "as_exec_exit (ExecExitError c) = Some c"
| "as_exec_exit (Wrapf _ e) = as_exec_exit e"
| "as_exec_exit _ = None"

fun as_gossh_exit :: "error \<Rightarrow> int option" where
  "as_gossh_exit (GosshExitError c) = Some c"
| "as_gossh_exit (Wrapf _ e) = as_gossh_exit e"
| "as_gossh_exit _ = None"

text \<open>The error at the bottom of the chain, and the fact that a chain ends in one leaf only.\<close>

fun root_cause :: "error \<Rightarrow> error" where
  "root_cause (Wrapf _ e) = root_cause e"
| "root_cause e = e"

lemma as_exec_exit_root: "as_exec_exit e = Some c \<longleftrightarrow> root_cause e = ExecExitError c"
  by (induction e) auto

lemma as_gossh_exit_root: "as_gossh_exit e = Some c \<longleftrightarrow> root_cause e = GosshExitError c"
  by (induction e) auto

lemma as_exit_exclusive: "as_exec_exit e \<noteq> None \<Longrightarrow> as_gossh_exit e = None"
  by (induction e) auto

section \<open>Runs of a step relation\<close>

inductive run :: "('s \<Rightarrow> 'l \<Rightarrow> 's \<Rightarrow> bool) \<Rightarrow> 's \<Rightarrow> 'l list \<Rightarrow> 's \<Rightarrow> bool"
  for step :: "'s \<Rightarrow> 'l \<Rightarrow> 's \<Rightarrow> bool" where
  run_nil: "run step s [] s"
| run_cons: "step s l t \<Longrightarrow> run step t ls u \<Longrightarrow> run step s (l # ls) u"

inductive_simps run_nil_simp [simp]: "run step s [] u"
inductive_simps run_cons_simp: "run step s (l # ls) u"

lemma run_append: "run step s (ks @ ls) u \<longleftrightarrow> (\<exists>t. run step s ks t \<and> run step t ls u)"
  by (induction ks arbitrary: s) (auto simp: run_cons_simp)

text \<open>
  The interface of an invariant: a start predicate, a step relation and a property that holds
  at the start and is kept by every step. Every state of every run then has the property.
\<close>

locale invariant_of =
  fixes start :: "'s \<Rightarrow> bool"
    and step :: "'s \<Rightarrow> 'l \<Rightarrow> 's \<Rightarrow> bool"
    and good :: "'s \<Rightarrow> bool"
  assumes start_good: "start s \<Longrightarrow> good s"
    and step_good: "good s \<Longrightarrow> step s l t \<Longrightarrow> good t"
begin

lemma run_keeps: "run step s ls t \<Longrightarrow> good s \<Longrightarrow> good t"
  by (induction rule: run.induct) (auto intro: step_good)

lemma run_good: "start s \<Longrightarrow> run step s ls t \<Longrightarrow> good t"
  by (blast intro: run_keeps start_good)

end

section \<open>Lists\<close>

lemma find_Some_first:
  "find P xs = Some x \<longleftrightarrow> (\<exists>ys zs. xs = ys @ x # zs \<and> P x \<and> (\<forall>y \<in> set ys. \<not> P y))"
    (is "?f xs \<longleftrightarrow> ?g xs")
proof
  show "?f xs \<Longrightarrow> ?g xs"
  proof (induction xs)
    case Nil
    then show ?case by simp
  next
    case (Cons a xs)
    show ?case
    proof (cases "P a")
      case True
      with Cons.prems show ?thesis by (intro exI [of _ "[]"] exI [of _ xs]) auto
    next
      case False
      with Cons obtain ys zs where "xs = ys @ x # zs" "P x" "\<forall>y \<in> set ys. \<not> P y" by auto
      with False show ?thesis by (intro exI [of _ "a # ys"] exI [of _ zs]) auto
    qed
  qed
next
  assume "?g xs"
  then obtain ys zs where "xs = ys @ x # zs" "P x" "\<forall>y \<in> set ys. \<not> P y" by blast
  then show "?f xs" by (induction ys arbitrary: xs) auto
qed

lemma first_split_unique:
  "x \<notin> set ys \<Longrightarrow> x \<notin> set ys' \<Longrightarrow> ys @ x # zs = ys' @ x # zs' \<longleftrightarrow> ys = ys' \<and> zs = zs'"
proof (induction ys arbitrary: ys')
  case Nil
  then show ?case by (cases ys') auto
next
  case (Cons a ys)
  then show ?case by (cases ys') auto
qed

lemma append_eq_longer:
  "xs @ ys = zs @ ts \<Longrightarrow> length xs \<le> length zs \<Longrightarrow> \<exists>us. zs = xs @ us \<and> ys = us @ ts"
  by (metis append_eq_append_conv_if append_take_drop_id)

lemma find_None_all: "find P xs = None \<longleftrightarrow> (\<forall>x \<in> set xs. \<not> P x)"
  by (auto simp: find_None_iff)

end
