(* ===== verification/GoStrings.thy ===== *)
theory GoStrings
  imports Prelude
begin

text \<open>
  The functions of Go's \<open>strings\<close>, \<open>sort\<close> and \<open>cmp\<close> packages that the program calls. A Go
  string is a sequence of bytes, here a \<^typ>\<open>char list\<close>; argument orders are Go's.
\<close>

section \<open>Prefixes, suffixes, substrings\<close>

definition HasPrefix :: "string \<Rightarrow> string \<Rightarrow> bool" where
  "HasPrefix s p \<longleftrightarrow> take (length p) s = p"

definition HasSuffix :: "string \<Rightarrow> string \<Rightarrow> bool" where
  "HasSuffix s p \<longleftrightarrow> HasPrefix (rev s) (rev p)"

definition TrimPrefix :: "string \<Rightarrow> string \<Rightarrow> string" where
  "TrimPrefix s p = (if HasPrefix s p then drop (length p) s else s)"

definition TrimSuffix :: "string \<Rightarrow> string \<Rightarrow> string" where
  "TrimSuffix s p = (if HasSuffix s p then take (length s - length p) s else s)"

fun Contains :: "string \<Rightarrow> string \<Rightarrow> bool" where
  "Contains [] sub \<longleftrightarrow> sub = []"
| "Contains (c # s) sub \<longleftrightarrow> HasPrefix (c # s) sub \<or> Contains s sub"

text \<open>\<open>strings.TrimRight(s, "\n")\<close>: every trailing byte of the cutset goes.\<close>

definition TrimRight :: "string \<Rightarrow> char \<Rightarrow> string" where
  "TrimRight s c = rev (dropWhile (\<lambda>x. x = c) (rev s))"

lemma HasPrefix_iff: "HasPrefix s p \<longleftrightarrow> (\<exists>t. s = p @ t)"
  unfolding HasPrefix_def by (metis append_eq_conv_conj append_take_drop_id)

lemma HasPrefix_append [simp]: "HasPrefix (p @ t) p"
  by (auto simp: HasPrefix_iff)

lemma HasPrefix_Nil [simp]: "HasPrefix s []"
  by (simp add: HasPrefix_def)

lemma HasPrefix_Cons [simp]: "HasPrefix (c # s) (d # p) \<longleftrightarrow> c = d \<and> HasPrefix s p"
  by (auto simp: HasPrefix_def)

lemma HasPrefix_empty [simp]: "HasPrefix [] p \<longleftrightarrow> p = []"
  by (auto simp: HasPrefix_def)

lemma HasSuffix_iff: "HasSuffix s p \<longleftrightarrow> (\<exists>t. s = t @ p)"
  unfolding HasSuffix_def HasPrefix_iff by (metis rev_append rev_rev_ident)

lemma HasSuffix_append [simp]: "HasSuffix (t @ p) p"
  by (auto simp: HasSuffix_iff)

lemma TrimPrefix_append [str_simps]: "TrimPrefix (p @ t) p = t"
  by (simp add: TrimPrefix_def)

lemma TrimSuffix_append [str_simps]: "TrimSuffix (t @ p) p = t"
  by (simp add: TrimSuffix_def)

lemma Contains_iff: "Contains s sub \<longleftrightarrow> (\<exists>a b. s = a @ sub @ b)"
proof (induction s)
  case Nil
  then show ?case by auto
next
  case (Cons c s)
  show ?case
    by (auto simp: Cons HasPrefix_iff Cons_eq_append_conv)
qed

lemma Contains_mono: "Contains s sub \<Longrightarrow> Contains (a @ s @ b) sub"
  unfolding Contains_iff by (metis append.assoc)

section \<open>Splitting and joining\<close>

text \<open>\<open>strings.Split(s, sep)\<close> for a one-byte separator: \<open>Split("", sep)\<close> is \<open>[""]\<close>.\<close>

fun Split :: "string \<Rightarrow> char \<Rightarrow> string list" where
  "Split [] sep = [[]]"
| "Split (c # s) sep =
     (if c = sep then [] # Split s sep
      else (case Split s sep of [] \<Rightarrow> [[c]] | w # ws \<Rightarrow> (c # w) # ws))"

fun Join :: "string list \<Rightarrow> string \<Rightarrow> string" where
  "Join [] sep = []"
| "Join [w] sep = w"
| "Join (w # v # ws) sep = w @ sep @ Join (v # ws) sep"

text \<open>\<open>strings.Cut(s, sep)\<close> for a one-byte separator: around the first occurrence.\<close>

definition Cut :: "string \<Rightarrow> char \<Rightarrow> string \<times> string \<times> bool" where
  "Cut s sep =
     (let before = takeWhile (\<lambda>c. c \<noteq> sep) s; rest = dropWhile (\<lambda>c. c \<noteq> sep) s
      in case rest of [] \<Rightarrow> (s, [], False) | _ # after \<Rightarrow> (before, after, True))"

lemma Split_not_Nil [simp]: "Split s sep \<noteq> []"
  by (induction s) (auto split: list.splits)

lemma Split_no_sep: "w \<in> set (Split s sep) \<Longrightarrow> sep \<notin> set w"
  by (induction s arbitrary: w) (auto split: if_splits list.splits)

lemma Split_clean [str_simps]: "sep \<notin> set w \<Longrightarrow> Split w sep = [w]"
  by (induction w) auto

lemma Split_append_sep [str_simps]:
  "sep \<notin> set w \<Longrightarrow> Split (w @ sep # s) sep = w # Split s sep"
  by (induction w) auto

lemma Join_Cons: "Join (w # ws) sep = (if ws = [] then w else w @ sep @ Join ws sep)"
  by (cases ws) auto

lemma Join_Split: "Join (Split s sep) [sep] = s"
  by (induction s) (auto split: list.splits simp: Join_Cons)

lemma Split_Join:
  "ws \<noteq> [] \<Longrightarrow> \<forall>w \<in> set ws. sep \<notin> set w \<Longrightarrow> Split (Join ws [sep]) sep = ws"
proof (induction ws)
  case Nil
  then show ?case by simp
next
  case (Cons w ws)
  then show ?case
    by (cases "ws = []") (simp_all add: Join_Cons Split_clean Split_append_sep)
qed

lemma Join_inj:
  assumes "ws \<noteq> []" "vs \<noteq> []" "\<forall>w \<in> set ws. sep \<notin> set w" "\<forall>w \<in> set vs. sep \<notin> set w"
    and "Join ws [sep] = Join vs [sep]"
  shows "ws = vs"
  by (metis assms Split_Join)

lemma Join_snoc: "ws \<noteq> [] \<Longrightarrow> Join (ws @ [w]) sep = Join ws sep @ sep @ w"
proof (induction ws)
  case (Cons v ws)
  then show ?case by (cases "ws = []") (simp_all add: Join_Cons)
qed simp

lemma Cut_found: "Cut s sep = (k, v, True) \<longleftrightarrow> s = k @ sep # v \<and> sep \<notin> set k"
proof (cases "sep \<in> set s")
  case True
  then obtain k' v' where s: "s = k' @ sep # v'" and k': "sep \<notin> set k'"
    by (meson split_list_first)
  then have "Cut s sep = (k', v', True)"
    by (simp add: Cut_def dropWhile_append)
  moreover have "s = k @ sep # v \<and> sep \<notin> set k \<longleftrightarrow> k = k' \<and> v = v'"
    using s k' first_split_unique [of sep k k' v v'] by metis
  ultimately show ?thesis by auto
next
  case False
  then have "dropWhile (\<lambda>c. c \<noteq> sep) s = []" by (auto simp: dropWhile_eq_Nil_conv)
  then have "\<not> snd (snd (Cut s sep))" by (simp add: Cut_def del: dropWhile_eq_Nil_conv)
  with False show ?thesis by auto
qed

section \<open>White space\<close>

text \<open>
  \<open>strings.TrimSpace\<close> removes leading and trailing runes for which \<open>unicode.IsSpace\<close> holds.
  The list has their UTF-8 encodings: the six ASCII ones, U+0085, U+00A0, U+1680, U+2000 to
  U+200A, U+2028, U+2029, U+202F, U+205F and U+3000. Reading a prefix (or a suffix) of the
  byte string against the list is what decoding one rune from that end does, since no encoding
  is a proper prefix or suffix of another.
\<close>

definition space_runes :: "string list" where
  "space_runes =
     [[CHR 0x09], [CHR 0x0A], [CHR 0x0B], [CHR 0x0C], [CHR 0x0D], [CHR 0x20],
      [CHR 0xC2, CHR 0x85], [CHR 0xC2, CHR 0xA0], [CHR 0xE1, CHR 0x9A, CHR 0x80],
      [CHR 0xE2, CHR 0x80, CHR 0x80], [CHR 0xE2, CHR 0x80, CHR 0x81],
      [CHR 0xE2, CHR 0x80, CHR 0x82], [CHR 0xE2, CHR 0x80, CHR 0x83],
      [CHR 0xE2, CHR 0x80, CHR 0x84], [CHR 0xE2, CHR 0x80, CHR 0x85],
      [CHR 0xE2, CHR 0x80, CHR 0x86], [CHR 0xE2, CHR 0x80, CHR 0x87],
      [CHR 0xE2, CHR 0x80, CHR 0x88], [CHR 0xE2, CHR 0x80, CHR 0x89],
      [CHR 0xE2, CHR 0x80, CHR 0x8A], [CHR 0xE2, CHR 0x80, CHR 0xA8],
      [CHR 0xE2, CHR 0x80, CHR 0xA9], [CHR 0xE2, CHR 0x80, CHR 0xAF],
      [CHR 0xE2, CHR 0x81, CHR 0x9F], [CHR 0xE3, CHR 0x80, CHR 0x80]]"

function trim_runes :: "string list \<Rightarrow> string \<Rightarrow> string" where
  "trim_runes rs s =
     (case find (\<lambda>r. r \<noteq> [] \<and> HasPrefix s r) rs of
        None \<Rightarrow> s
      | Some r \<Rightarrow> trim_runes rs (drop (length r) s))"
  by pat_completeness auto
termination
proof (relation "measure (\<lambda>(rs, s). length s)", simp, goal_cases)
  case (1 rs s r)
  then have "r \<noteq> []" "HasPrefix s r" by (auto simp: find_Some_first)
  then show ?case by (auto simp: HasPrefix_iff)
qed

declare trim_runes.simps [simp del]

definition TrimSpace :: "string \<Rightarrow> string" where
  "TrimSpace s = rev (trim_runes (map rev space_runes) (rev (trim_runes space_runes s)))"

lemma trim_runes_stop: "\<forall>r \<in> set rs. r = [] \<or> \<not> HasPrefix s r \<Longrightarrow> trim_runes rs s = s"
  by (subst trim_runes.simps) (auto split: option.splits simp: find_Some_first)

lemma trim_runes_suffix: "\<exists>p. s = p @ trim_runes rs s"
proof (induction rs s rule: trim_runes.induct)
  case (1 rs s)
  show ?case
  proof (cases "find (\<lambda>r. r \<noteq> [] \<and> HasPrefix s r) rs")
    case None
    then show ?thesis by (simp add: trim_runes.simps [of rs s])
  next
    case (Some r)
    then have pre: "HasPrefix s r" by (auto simp: find_Some_first)
    from 1 [OF Some] obtain p where "drop (length r) s = p @ trim_runes rs (drop (length r) s)"
      by blast
    with pre Some have "s = (r @ p) @ trim_runes rs s"
      by (auto simp: trim_runes.simps [of rs s] HasPrefix_iff)
    then show ?thesis by blast
  qed
qed

lemma trim_runes_done: "find (\<lambda>r. r \<noteq> [] \<and> HasPrefix (trim_runes rs s) r) rs = None"
proof (induction rs s rule: trim_runes.induct)
  case (1 rs s)
  then show ?case
    by (cases "find (\<lambda>r. r \<noteq> [] \<and> HasPrefix s r) rs") (simp_all add: trim_runes.simps [of rs s])
qed

text \<open>A string that starts and ends with visible ASCII is its own trim.\<close>

definition visible :: "char \<Rightarrow> bool" where
  "visible c \<longleftrightarrow> 33 \<le> (of_char c :: nat) \<and> (of_char c :: nat) \<le> 126"

lemma trim_runes_visible:
  assumes "\<forall>r \<in> set rs. r \<noteq> [] \<longrightarrow> \<not> visible (hd r)" and "s = [] \<or> visible (hd s)"
  shows "trim_runes rs s = s"
proof (rule trim_runes_stop, intro ballI)
  fix r assume r: "r \<in> set rs"
  show "r = [] \<or> \<not> HasPrefix s r"
    using assms r by (cases r; cases s) auto
qed

lemma space_runes_hidden:
  "\<forall>r \<in> set space_runes. r \<noteq> [] \<longrightarrow> \<not> visible (hd r)"
  "\<forall>r \<in> set (map rev space_runes). r \<noteq> [] \<longrightarrow> \<not> visible (hd r)"
  by (simp_all add: space_runes_def visible_def)

lemma TrimSpace_visible:
  "s \<noteq> [] \<Longrightarrow> visible (hd s) \<Longrightarrow> visible (last s) \<Longrightarrow> TrimSpace s = s"
  unfolding TrimSpace_def
  by (simp add: trim_runes_visible [OF space_runes_hidden(1)]
      trim_runes_visible [OF space_runes_hidden(2)] hd_rev)

lemma TrimSpace_Nil [simp]: "TrimSpace [] = []"
  unfolding TrimSpace_def
  by (simp add: trim_runes_visible [OF space_runes_hidden(1)]
      trim_runes_visible [OF space_runes_hidden(2)])

lemma TrimSpace_infix: "\<exists>a b. s = a @ TrimSpace s @ b"
proof -
  obtain a where a: "s = a @ trim_runes space_runes s"
    using trim_runes_suffix by blast
  let ?t = "trim_runes space_runes s"
  obtain b where b: "rev ?t = b @ trim_runes (map rev space_runes) (rev ?t)"
    using trim_runes_suffix by blast
  then have "?t = TrimSpace s @ rev b"
    unfolding TrimSpace_def by (metis rev_append rev_rev_ident)
  with a show ?thesis by metis
qed

section \<open>cmp.Or and sort.Strings\<close>

text \<open>\<open>cmp.Or\<close> on strings: the first argument that is not empty, else the empty string.\<close>

fun cmp_Or :: "string list \<Rightarrow> string" where
  "cmp_Or [] = []"
| "cmp_Or (x # xs) = (if x \<noteq> [] then x else cmp_Or xs)"

lemma cmp_Or_last [simp]: "d \<noteq> [] \<Longrightarrow> cmp_Or (xs @ [d]) \<noteq> []"
  by (induction xs) auto

text \<open>\<open>sort.Strings\<close>: bytewise lexicographic order.\<close>

definition sort_Strings :: "string list \<Rightarrow> string list" where
  "sort_Strings xs = sort xs"

lemma sort_Strings_sorted: "sorted (sort_Strings xs)"
  by (simp add: sort_Strings_def)

lemma sort_Strings_set [simp]: "set (sort_Strings xs) = set xs"
  by (simp add: sort_Strings_def)

end
