(* ===== verification/GoGlob.thy ===== *)
theory GoGlob
  imports GoStrings
begin

text \<open>
  UTF-8 decoding (\<open>unicode/utf8\<close>) and \<open>path.Match\<close>, the glob matcher behind username
  patterns. \<open>path.Match\<close> cuts the pattern into chunks at unescaped stars and matches chunk by
  chunk, taking the leftmost position at which a chunk matches and never backtracking over it.
  The reference definition \<open>wild\<close> is the backtracking one; the two agree on patterns made of
  plain bytes and stars.
\<close>

section \<open>UTF-8\<close>

abbreviation byte :: "char \<Rightarrow> nat" where
  "byte c \<equiv> of_char c"

definition RuneError :: nat where
  "RuneError = 0xFFFD"

definition in_range :: "nat \<Rightarrow> nat \<Rightarrow> char \<Rightarrow> bool" where
  "in_range lo hi c \<longleftrightarrow> lo \<le> byte c \<and> byte c \<le> hi"

abbreviation cont_byte :: "char \<Rightarrow> bool" where
  "cont_byte c \<equiv> in_range 0x80 0xBF c"

text \<open>The range of the second byte, by the first byte, for sequences of three and four.\<close>

definition second3 :: "nat \<Rightarrow> char \<Rightarrow> bool" where
  "second3 b0 c =
     (if b0 = 0xE0 then in_range 0xA0 0xBF c
      else if b0 = 0xED then in_range 0x80 0x9F c else cont_byte c)"

definition second4 :: "nat \<Rightarrow> char \<Rightarrow> bool" where
  "second4 b0 c =
     (if b0 = 0xF0 then in_range 0x90 0xBF c
      else if b0 = 0xF4 then in_range 0x80 0x8F c else cont_byte c)"

text \<open>
  \<open>utf8.DecodeRuneInString\<close>: the rune and its width; \<open>(RuneError, 0)\<close> for the empty string
  and \<open>(RuneError, 1)\<close> for an invalid encoding.
\<close>

definition DecodeRune :: "string \<Rightarrow> nat \<times> nat" where
  "DecodeRune s =
     (case s of
        [] \<Rightarrow> (RuneError, 0)
      | c0 # t \<Rightarrow>
          let b0 = byte c0 in
          if b0 < 0x80 then (b0, 1)
          else if 0xC2 \<le> b0 \<and> b0 \<le> 0xDF then
            (case t of
               c1 # _ \<Rightarrow> if cont_byte c1 then ((b0 - 0xC0) * 64 + (byte c1 - 0x80), 2)
                        else (RuneError, 1)
             | [] \<Rightarrow> (RuneError, 1))
          else if 0xE0 \<le> b0 \<and> b0 \<le> 0xEF then
            (case t of
               c1 # c2 # _ \<Rightarrow>
                 if second3 b0 c1 \<and> cont_byte c2
                 then (((b0 - 0xE0) * 64 + (byte c1 - 0x80)) * 64 + (byte c2 - 0x80), 3)
                 else (RuneError, 1)
             | _ \<Rightarrow> (RuneError, 1))
          else if 0xF0 \<le> b0 \<and> b0 \<le> 0xF4 then
            (case t of
               c1 # c2 # c3 # _ \<Rightarrow>
                 if second4 b0 c1 \<and> cont_byte c2 \<and> cont_byte c3
                 then ((((b0 - 0xF0) * 64 + (byte c1 - 0x80)) * 64 + (byte c2 - 0x80)) * 64
                         + (byte c3 - 0x80), 4)
                 else (RuneError, 1)
             | _ \<Rightarrow> (RuneError, 1))
          else (RuneError, 1))"

lemma DecodeRune_width: "s \<noteq> [] \<Longrightarrow> 1 \<le> snd (DecodeRune s)"
  by (cases s) (auto simp: DecodeRune_def Let_def split: list.splits)

text \<open>\<open>utf8.ValidString\<close>.\<close>

function ValidString :: "string \<Rightarrow> bool" where
  "ValidString s =
     (if s = [] then True
      else if DecodeRune s = (RuneError, 1) then False
      else ValidString (drop (snd (DecodeRune s)) s))"
  by pat_completeness auto
termination
proof (relation "measure length", simp, goal_cases)
  case (1 s)
  then show ?case using DecodeRune_width [of s] by (auto simp: neq_Nil_conv)
qed

declare ValidString.simps [simp del]

lemma ValidString_Nil [simp]: "ValidString []"
  by (simp add: ValidString.simps)

lemma ValidString_ascii_Cons [simp]:
  "byte c < 128 \<Longrightarrow> ValidString (c # s) \<longleftrightarrow> ValidString s"
  by (subst ValidString.simps) (simp add: DecodeRune_def RuneError_def)

lemma ValidString_code [code]:
  "ValidString [] = True"
  "ValidString (c # s) =
     (if byte c < 128 then ValidString s
      else case DecodeRune (c # s) of (r, width) \<Rightarrow>
        if r = RuneError \<and> width = 1 then False else ValidString (drop width (c # s)))"
  by (simp, cases "byte c < 128", simp, subst ValidString.simps, auto split: prod.splits)

lemma ValidString_ascii: "\<forall>c \<in> set s. byte c < 128 \<Longrightarrow> ValidString s"
  by (induction s) auto

section \<open>path.Match\<close>

datatype chunk_result = BadPattern | NoMatch | Rest string

text \<open>\<open>scanChunk\<close>: the leading stars, then the bytes up to the next star outside brackets.\<close>

fun scan_plain :: "bool \<Rightarrow> string \<Rightarrow> string \<times> string" where
  "scan_plain inrange [] = ([], [])"
| "scan_plain inrange (c # p) =
     (if c = CHR 0x5C then
        (case p of
           [] \<Rightarrow> ([c], [])
         | d # q \<Rightarrow> (let (chunk, rest) = scan_plain inrange q in (c # d # chunk, rest)))
      else if c = CHR ''*'' \<and> \<not> inrange then ([], c # p)
      else
        (let inrange' = (if c = CHR ''['' then True else if c = CHR '']'' then False else inrange);
             (chunk, rest) = scan_plain inrange' p
         in (c # chunk, rest)))"

definition scanChunk :: "string \<Rightarrow> bool \<times> string \<times> string" where
  "scanChunk pattern =
     (let q = dropWhile (\<lambda>c. c = CHR ''*'') pattern; (chunk, rest) = scan_plain False q
      in (q \<noteq> pattern, chunk, rest))"

text \<open>\<open>getEsc\<close>: one possibly escaped rune of a class; \<open>None\<close> is \<open>ErrBadPattern\<close>.\<close>

definition getEsc :: "string \<Rightarrow> (nat \<times> string) option" where
  "getEsc chunk =
     (if chunk = [] \<or> hd chunk = CHR ''-'' \<or> hd chunk = CHR '']'' then None
      else
        let chunk' = (if hd chunk = CHR 0x5C then tl chunk else chunk) in
        if chunk' = [] then None
        else
          let (r, n) = DecodeRune chunk'; nchunk = drop n chunk' in
          if (r = RuneError \<and> n = 1) \<or> nchunk = [] then None else Some (r, nchunk))"

lemma getEsc_shorter:
  assumes "getEsc chunk = Some (r, nchunk)"
  shows "length nchunk < length chunk \<and> nchunk \<noteq> []"
proof -
  define chunk' where "chunk' = (if hd chunk = CHR 0x5C then tl chunk else chunk)"
  from assms have ne: "chunk \<noteq> []" "chunk' \<noteq> []"
    by (auto simp: getEsc_def chunk'_def Let_def split: if_splits)
  with assms have n: "nchunk = drop (snd (DecodeRune chunk')) chunk'" "nchunk \<noteq> []"
    by (auto simp: getEsc_def chunk'_def [symmetric] Let_def split: if_splits prod.splits)
  have "length chunk' \<le> length chunk" by (simp add: chunk'_def)
  with n ne DecodeRune_width [of chunk'] show ?thesis by (auto simp: neq_Nil_conv)
qed

text \<open>The ranges of a class, up to the closing bracket; \<open>None\<close> is \<open>ErrBadPattern\<close>.\<close>

function class_ranges :: "nat \<Rightarrow> string \<Rightarrow> nat \<Rightarrow> bool \<Rightarrow> (bool \<times> string) option" where
  "class_ranges r chunk nrange matched =
     (if chunk \<noteq> [] \<and> hd chunk = CHR '']'' \<and> 0 < nrange then Some (matched, tl chunk)
      else
        case getEsc chunk of
          None \<Rightarrow> None
        | Some (lo, chunk1) \<Rightarrow>
            if hd chunk1 = CHR ''-'' then
              (case getEsc (tl chunk1) of
                 None \<Rightarrow> None
               | Some (hi, chunk2) \<Rightarrow>
                   class_ranges r chunk2 (Suc nrange) (matched \<or> lo \<le> r \<and> r \<le> hi))
            else class_ranges r chunk1 (Suc nrange) (matched \<or> r = lo))"
  by pat_completeness auto
termination
proof (relation "measure (\<lambda>(r, chunk, nrange, matched). length chunk)", simp, goal_cases)
  case (1 r chunk nrange matched p lo chunk1 p' hi chunk2)
  then show ?case
    using getEsc_shorter [of chunk lo chunk1] getEsc_shorter [of "tl chunk1" hi chunk2] by auto
next
  case (2 r chunk nrange matched p lo chunk1)
  then show ?case using getEsc_shorter [of chunk lo chunk1] by auto
qed

declare class_ranges.simps [simp del]

lemma class_ranges_shorter:
  "class_ranges r chunk nrange matched = Some (m, rest) \<Longrightarrow> length rest < length chunk"
proof (induction r chunk nrange matched arbitrary: m rest rule: class_ranges.induct)
  case (1 r chunk nrange matched)
  show ?case
  proof (cases "chunk \<noteq> [] \<and> hd chunk = CHR '']'' \<and> 0 < nrange")
    case True
    with "1.prems" show ?thesis by (auto simp: class_ranges.simps [of r chunk])
  next
    case False
    with "1.prems" obtain lo chunk1 where lo: "getEsc chunk = Some (lo, chunk1)"
      by (auto simp: class_ranges.simps [of r chunk] split: option.splits)
    note s1 = getEsc_shorter [OF lo]
    show ?thesis
    proof (cases "hd chunk1 = CHR ''-''")
      case True
      with False lo "1.prems" obtain hi chunk2 where hi: "getEsc (tl chunk1) = Some (hi, chunk2)"
        by (auto simp: class_ranges.simps [of r chunk] split: option.splits)
      note s2 = getEsc_shorter [OF hi]
      have "length rest < length chunk2"
        using "1.IH"(1) [OF False lo refl True hi refl] "1.prems" False lo True hi
        by (auto simp: class_ranges.simps [of r chunk])
      with s1 s2 show ?thesis by auto
    next
      case nodash: False
      have "length rest < length chunk1"
        using "1.IH"(2) [OF False lo refl nodash] "1.prems" False lo nodash
        by (auto simp: class_ranges.simps [of r chunk])
      with s1 show ?thesis by simp
    qed
  qed
qed

text \<open>
  \<open>matchChunk\<close>. After a mismatch (\<open>failed\<close>) the loop only checks that the rest of the chunk is
  well formed. Go reads \<open>s[0]\<close> only when \<open>failed\<close> is false, hence \<open>s\<close> not empty.
\<close>

function match_chunk :: "bool \<Rightarrow> string \<Rightarrow> string \<Rightarrow> chunk_result" where
  "match_chunk failed0 chunk s =
     (if chunk = [] then (if failed0 then NoMatch else Rest s)
      else
        let failed = (failed0 \<or> s = []); c = hd chunk in
        if c = CHR ''['' then
          let (r, n) = (if failed then (0, 0) else DecodeRune s);
              chunk1 = tl chunk;
              negated = (chunk1 \<noteq> [] \<and> hd chunk1 = CHR ''^'');
              chunk2 = (if negated then tl chunk1 else chunk1)
          in (case class_ranges r chunk2 0 False of
                None \<Rightarrow> BadPattern
              | Some (m, chunk3) \<Rightarrow> match_chunk (failed \<or> m = negated) chunk3 (drop n s))
        else if c = CHR ''?'' then
          (if failed then match_chunk True (tl chunk) s
           else match_chunk (hd s = CHR ''/'') (tl chunk) (drop (snd (DecodeRune s)) s))
        else
          let chunk1 = (if c = CHR 0x5C then tl chunk else chunk) in
          if chunk1 = [] then BadPattern
          else if failed then match_chunk True (tl chunk1) s
          else match_chunk (hd chunk1 \<noteq> hd s) (tl chunk1) (tl s))"
  by pat_completeness auto
termination
proof (relation "measure (\<lambda>(f, chunk, s). length chunk)", simp, goal_cases)
  case (1 failed0 chunk s failed c p r n chunk1 negated chunk2 q m chunk3)
  then show ?case
    using class_ranges_shorter [of r chunk2 0 False m chunk3]
    by (cases chunk) (auto split: if_splits)
next
  case (2 failed0 chunk s failed c)
  then show ?case by (cases chunk) auto
next
  case (3 failed0 chunk s failed c)
  then show ?case by (cases chunk) auto
next
  case (4 failed0 chunk s failed c chunk1)
  then show ?case by (cases chunk) (auto split: if_splits)
next
  case (5 failed0 chunk s failed c chunk1)
  then show ?case by (cases chunk) (auto split: if_splits)
qed

declare match_chunk.simps [simp del]

abbreviation matchChunk :: "string \<Rightarrow> string \<Rightarrow> chunk_result" where
  "matchChunk \<equiv> match_chunk False"

text \<open>The inner loop of \<open>Match\<close>: after a star, skip bytes other than the slash.\<close>

fun star_skip :: "string \<Rightarrow> bool \<Rightarrow> string \<Rightarrow> chunk_result" where
  "star_skip chunk final [] = NoMatch"
| "star_skip chunk final (c # name) =
     (if c = CHR ''/'' then NoMatch
      else
        (case matchChunk chunk name of
           BadPattern \<Rightarrow> BadPattern
         | NoMatch \<Rightarrow> star_skip chunk final name
         | Rest t \<Rightarrow> if final \<and> t \<noteq> [] then star_skip chunk final name else Rest t))"

lemma scan_plain_append: "fst (scan_plain inr p) @ snd (scan_plain inr p) = p"
proof (induction p arbitrary: inr rule: length_induct)
  case (1 p)
  then have IH: "length q < length p \<Longrightarrow> fst (scan_plain i q) @ snd (scan_plain i q) = q" for q i
    by blast
  show ?case
  proof (cases p)
    case (Cons c q)
    then show ?thesis
      by (simp add: scan_plain.simps(2) [of inr c q] Let_def split_beta IH split: list.split
          del: scan_plain.simps)
  qed simp
qed

lemma scan_plain_nonempty:
  "scan_plain False (c # p) = (chunk, rest) \<Longrightarrow> c \<noteq> CHR ''*'' \<Longrightarrow> chunk \<noteq> []"
  by (auto split: if_splits list.splits prod.splits simp: Let_def)

lemma scanChunk_shorter:
  assumes "pattern \<noteq> []" "(star, chunk, rest) = scanChunk pattern"
  shows "length rest < length pattern"
proof -
  let ?q = "dropWhile (\<lambda>c. c = CHR ''*'') pattern"
  have sp: "scan_plain False ?q = (chunk, rest)"
    using assms(2) by (auto simp: scanChunk_def Let_def split: prod.splits)
  then have q: "?q = chunk @ rest"
    using scan_plain_append [of False ?q] by simp
  obtain c p where p: "pattern = c # p" using assms(1) by (cases pattern) auto
  show ?thesis
  proof (cases "c = CHR ''*''")
    case True
    then have "length ?q \<le> length p" by (simp add: p length_dropWhile_le)
    with q p show ?thesis by simp
  next
    case False
    with sp p have "chunk \<noteq> []" by (intro scan_plain_nonempty [of c p chunk rest]) auto
    moreover from False p have "?q = pattern" by simp
    ultimately show ?thesis using q by (metis length_append length_greater_0_conv less_add_same_cancel2)
  qed
qed

text \<open>Before a plain \<open>false\<close> the remaining chunks are checked: \<open>True\<close> when well formed.\<close>

function rest_valid :: "string \<Rightarrow> bool" where
  "rest_valid pattern =
     (if pattern = [] then True
      else
        let (star, chunk, rest) = scanChunk pattern in
        if matchChunk chunk [] = BadPattern then False else rest_valid rest)"
  by pat_completeness auto
termination
  by (relation "measure length") (auto dest: scanChunk_shorter)

declare rest_valid.simps [simp del]

text \<open>
  One chunk of the outer loop: match it here, or after a star at the leftmost later position.
  The last chunk has to exhaust the name.
\<close>

definition chunk_step :: "bool \<Rightarrow> string \<Rightarrow> bool \<Rightarrow> string \<Rightarrow> chunk_result" where
  "chunk_step star chunk final name =
     (let skip = (if star then star_skip chunk final name else NoMatch) in
      case matchChunk chunk name of
        BadPattern \<Rightarrow> BadPattern
      | Rest t \<Rightarrow> if t = [] \<or> \<not> final then Rest t else skip
      | NoMatch \<Rightarrow> skip)"

text \<open>\<open>path.Match\<close>: \<open>None\<close> is \<open>ErrBadPattern\<close>.\<close>

function path_Match :: "string \<Rightarrow> string \<Rightarrow> bool option" where
  "path_Match pattern name =
     (if pattern = [] then Some (name = [])
      else
        let (star, chunk, rest) = scanChunk pattern in
        if star \<and> chunk = [] then Some (CHR ''/'' \<notin> set name)
        else
          (case chunk_step star chunk (rest = []) name of
             BadPattern \<Rightarrow> None
           | Rest t \<Rightarrow> path_Match rest t
           | NoMatch \<Rightarrow> if rest_valid rest then Some False else None))"
  by pat_completeness auto
termination
  by (relation "measure (\<lambda>(pattern, name). length pattern)") (auto dest: scanChunk_shorter)

declare path_Match.simps [simp del]

section \<open>Plain bytes and stars: the reference matcher\<close>

definition plain :: "char \<Rightarrow> bool" where
  "plain c \<longleftrightarrow> c \<noteq> CHR ''*'' \<and> c \<noteq> CHR ''?'' \<and> c \<noteq> CHR ''['' \<and> c \<noteq> CHR 0x5C"

fun wild :: "string \<Rightarrow> string \<Rightarrow> bool" where
  "wild [] s \<longleftrightarrow> s = []"
| "wild (c # p) [] \<longleftrightarrow> c = CHR ''*'' \<and> wild p []"
| "wild (c # p) (x # s) \<longleftrightarrow>
     (if c = CHR ''*'' then wild p (x # s) \<or> (x \<noteq> CHR ''/'' \<and> wild (c # p) s)
      else c = x \<and> wild p s)"

lemma match_chunk_plain:
  "\<forall>c \<in> set chunk. plain c \<Longrightarrow>
   match_chunk failed chunk s =
     (if \<not> failed \<and> HasPrefix s chunk then Rest (drop (length chunk) s) else NoMatch)"
proof (induction chunk arbitrary: failed s)
  case Nil
  then show ?case by (simp add: match_chunk.simps [of failed "[]"])
next
  case (Cons c chunk)
  then have "plain c" by simp
  with Cons show ?case
    by (cases s) (auto simp: match_chunk.simps [of failed "c # chunk"] plain_def Let_def)
qed

lemma scan_plain_plain:
  "\<forall>c \<in> set p. plain c \<Longrightarrow> rest = [] \<or> hd rest = CHR ''*'' \<Longrightarrow>
   scan_plain False (p @ rest) = (p, rest)"
proof (induction p)
  case Nil
  then show ?case by (cases rest) auto
next
  case (Cons c p)
  then show ?case by (auto simp: plain_def Let_def split: if_splits)
qed

lemma wild_plain_append:
  "\<forall>c \<in> set p. plain c \<Longrightarrow> wild (p @ rest) s \<longleftrightarrow> (\<exists>t. s = p @ t \<and> wild rest t)"
proof (induction p arbitrary: s)
  case (Cons c p)
  then show ?case by (cases s) (auto simp: plain_def)
qed simp

lemma wild_star:
  "wild (CHR ''*'' # p) s \<longleftrightarrow> (\<exists>u t. s = u @ t \<and> CHR ''/'' \<notin> set u \<and> wild p t)"
proof (induction s)
  case Nil
  then show ?case by auto
next
  case (Cons x s)
  show ?case (is "?l \<longleftrightarrow> ?r")
  proof
    assume ?l
    then consider "wild p (x # s)" | "x \<noteq> CHR ''/''" "wild (CHR ''*'' # p) s" by auto
    then show ?r
    proof cases
      case 1
      then show ?thesis by (intro exI [of _ "[]"] exI [of _ "x # s"]) simp
    next
      case 2
      with Cons obtain u t where "s = u @ t" "CHR ''/'' \<notin> set u" "wild p t" by blast
      with 2 show ?thesis by (intro exI [of _ "x # u"] exI [of _ t]) auto
    qed
  next
    assume ?r
    then obtain u t where "x # s = u @ t" "CHR ''/'' \<notin> set u" "wild p t" by blast
    with Cons show ?l by (cases u) auto
  qed
qed

lemma wild_star_star [simp]: "wild (CHR ''*'' # CHR ''*'' # p) s \<longleftrightarrow> wild (CHR ''*'' # p) s"
  by (induction s) auto

lemma wild_stars: "wild (CHR ''*'' # replicate k (CHR ''*'') @ p) s \<longleftrightarrow> wild (CHR ''*'' # p) s"
  by (induction k) simp_all

text \<open>An occurrence of a chunk after a slash-free skip; the last chunk ends the name.\<close>

definition occurs :: "string \<Rightarrow> bool \<Rightarrow> string \<Rightarrow> string \<Rightarrow> string \<Rightarrow> bool" where
  "occurs chunk final name u t \<longleftrightarrow>
     name = u @ chunk @ t \<and> CHR ''/'' \<notin> set u \<and> (final \<longrightarrow> t = [])"

lemma star_skip_Cons:
  "star_skip chunk final (c # name) =
     (if c = CHR ''/'' then NoMatch else chunk_step True chunk final name)"
  by (auto simp: chunk_step_def Let_def split: chunk_result.splits)

lemma occurs_Cons:
  "occurs chunk final (c # name) (d # u) t \<longleftrightarrow>
     d = c \<and> c \<noteq> CHR ''/'' \<and> occurs chunk final name u t"
  by (auto simp: occurs_def)

lemma occurs_here:
  "occurs chunk final name [] t \<longleftrightarrow>
     HasPrefix name chunk \<and> t = drop (length chunk) name \<and> (final \<longrightarrow> t = [])"
  by (auto simp: occurs_def HasPrefix_iff)

lemma chunk_step_leftmost:
  assumes "\<forall>c \<in> set chunk. plain c"
  shows "(\<forall>t. chunk_step True chunk final name = Rest t \<longrightarrow>
            (\<exists>u. occurs chunk final name u t \<and>
              (\<forall>u' t'. occurs chunk final name u' t' \<longrightarrow> length u \<le> length u'))) \<and>
         (chunk_step True chunk final name = NoMatch \<longrightarrow> (\<nexists>u t. occurs chunk final name u t)) \<and>
         chunk_step True chunk final name \<noteq> BadPattern"
proof (induction name)
  case Nil
  have here: "occurs chunk final [] u t \<longleftrightarrow> u = [] \<and> t = [] \<and> chunk = []" for u t
    by (auto simp: occurs_def)
  show ?case
    by (auto simp: chunk_step_def match_chunk_plain [OF assms] here)
next
  case (Cons c name)
  show ?case
  proof (cases "\<exists>t. occurs chunk final (c # name) [] t")
    case True
    then obtain t where t: "occurs chunk final (c # name) [] t" by blast
    then have "chunk_step True chunk final (c # name) = Rest t"
      by (auto simp: chunk_step_def match_chunk_plain [OF assms] occurs_here)
    with t show ?thesis by (auto intro!: exI [of _ "[]"])
  next
    case False
    then have step: "chunk_step True chunk final (c # name) =
        (if c = CHR ''/'' then NoMatch else chunk_step True chunk final name)"
      by (auto simp: chunk_step_def [of True chunk final "c # name"] star_skip_Cons
          match_chunk_plain [OF assms] occurs_here Let_def simp del: star_skip.simps)
    have shift: "occurs chunk final (c # name) u t \<longleftrightarrow>
        (\<exists>v. u = c # v \<and> c \<noteq> CHR ''/'' \<and> occurs chunk final name v t)" for u t
      using False by (cases u) (auto simp: occurs_Cons)
    show ?thesis
    proof (cases "c = CHR ''/''")
      case False
      then have "chunk_step True chunk final (c # name) = chunk_step True chunk final name"
        by (simp add: step)
      with Cons.IH False show ?thesis
        by (auto simp: shift) (metis Suc_le_mono length_Cons)
    next
      case True
      with step have "chunk_step True chunk final (c # name) = NoMatch" by simp
      moreover have "\<not> occurs chunk final (c # name) u t" for u t using True shift by simp
      ultimately show ?thesis by simp
    qed
  qed
qed

lemma later_occurrence_slash_free:
  assumes eq: "u0 @ lit @ t0 = u @ lit @ t" and less: "length u0 < length u"
    and u: "CHR ''/'' \<notin> set u"
  shows "CHR ''/'' \<notin> set lit"
proof
  assume "CHR ''/'' \<in> set lit"
  then obtain a b where lit: "lit = a @ CHR ''/'' # b" and a: "CHR ''/'' \<notin> set a"
    by (meson split_list_first)
  let ?i = "length u0 + length a"
  have at0: "(u0 @ lit @ t0) ! ?i = CHR ''/''" by (simp add: lit nth_append)
  show False
  proof (cases "?i < length u")
    case True
    then have "u ! ?i = CHR ''/''" using at0 unfolding eq by (simp add: nth_append)
    with True u show False by (metis nth_mem)
  next
    case False
    then have j: "?i - length u < length a" using less by simp
    then have "a ! (?i - length u) = CHR ''/''"
      using at0 False unfolding eq by (simp add: lit nth_append)
    with j a show False by (metis nth_mem)
  qed
qed

text \<open>The leftmost occurrence loses nothing, because the next chunk is behind another star.\<close>

lemma leftmost_suffices:
  assumes eq: "u0 @ lit @ t0 = u @ lit @ t" and le: "length u0 \<le> length u"
    and u: "CHR ''/'' \<notin> set u" and w: "wild (CHR ''*'' # r) t"
  shows "wild (CHR ''*'' # r) t0"
proof (cases "length u0 = length u")
  case True
  with eq have "t0 = t" by (simp add: append_eq_append_conv)
  with w show ?thesis by simp
next
  case False
  with le have less: "length u0 < length u" by simp
  have lit: "CHR ''/'' \<notin> set lit" by (rule later_occurrence_slash_free [OF eq less u])
  have "length (u0 @ lit) \<le> length (u @ lit)" using le by simp
  moreover have "(u0 @ lit) @ t0 = (u @ lit) @ t" using eq by simp
  ultimately obtain x where x: "u @ lit = (u0 @ lit) @ x" "t0 = x @ t"
    using append_eq_longer by blast
  have "set x \<subseteq> set (u @ lit)" unfolding x(1) by auto
  with u lit have "CHR ''/'' \<notin> set x" by auto
  moreover from w obtain u' t' where "t = u' @ t'" "CHR ''/'' \<notin> set u'" "wild r t'"
    by (auto simp: wild_star)
  ultimately show ?thesis unfolding wild_star
    by (intro exI [of _ "x @ u'"] exI [of _ t']) (auto simp: x(2))
qed

definition plain_or_star :: "string \<Rightarrow> bool" where
  "plain_or_star p \<longleftrightarrow> (\<forall>c \<in> set p. plain c \<or> c = CHR ''*'')"

text \<open>How \<open>scanChunk\<close> cuts such a pattern.\<close>

lemma scanChunk_plain_or_star:
  assumes "plain_or_star p" "scanChunk p = (star, chunk, rest)"
  shows "\<forall>c \<in> set chunk. plain c" "rest = [] \<or> hd rest = CHR ''*''" "plain_or_star rest"
    "\<exists>k. p = replicate k (CHR ''*'') @ chunk @ rest \<and> (star \<longleftrightarrow> 0 < k)"
    "chunk = [] \<Longrightarrow> rest = []"
proof -
  let ?q = "dropWhile (\<lambda>c. c = CHR ''*'') p" and ?st = "takeWhile (\<lambda>c. c = CHR ''*'') p"
  let ?lit = "takeWhile plain ?q" and ?rest = "dropWhile plain ?q"
  have q: "?q = ?lit @ ?rest" by simp
  have lit: "\<forall>c \<in> set ?lit. plain c" by (auto dest: set_takeWhileD)
  have sub: "set ?rest \<subseteq> set p" by (meson order_trans set_dropWhileD subsetI)
  have rest: "?rest = [] \<or> hd ?rest = CHR ''*''"
    using hd_dropWhile [of plain ?q] sub assms(1) unfolding plain_or_star_def
    by (metis hd_in_set subsetD)
  have "scan_plain False (?lit @ ?rest) = (?lit, ?rest)"
    by (rule scan_plain_plain [OF lit rest])
  with assms(2) have eq: "chunk = ?lit" "rest = ?rest" "star \<longleftrightarrow> ?q \<noteq> p"
    by (auto simp: scanChunk_def Let_def)
  have st: "?st = replicate (length ?st) (CHR ''*'')"
    by (rule replicate_length_same [symmetric]) (auto dest: set_takeWhileD)
  have ps: "p = ?st @ ?q" by simp
  show "\<forall>c \<in> set chunk. plain c" using lit eq by simp
  show "rest = [] \<or> hd rest = CHR ''*''" using rest eq by simp
  show "plain_or_star rest" using assms(1) sub eq by (auto simp: plain_or_star_def)
  show "\<exists>k. p = replicate k (CHR ''*'') @ chunk @ rest \<and> (star \<longleftrightarrow> 0 < k)"
    using ps st eq by (intro exI [of _ "length ?st"]) (metis append_self_conv2 length_greater_0_conv q)
  show "rest = []" if "chunk = []"
  proof -
    from that eq q have "?q = rest" by simp
    with rest eq hd_dropWhile [of "\<lambda>c. c = CHR ''*''" p] show ?thesis by metis
  qed
qed

lemma rest_valid_plain_or_star: "plain_or_star p \<Longrightarrow> rest_valid p"
proof (induction p rule: rest_valid.induct)
  case (1 p)
  show ?case
  proof (cases "p = []")
    case False
    obtain star chunk rest where sc: "scanChunk p = (star, chunk, rest)" by (metis prod_cases3)
    note parts = scanChunk_plain_or_star [OF "1.prems" sc]
    have "matchChunk chunk [] \<noteq> BadPattern" by (simp add: match_chunk_plain [OF parts(1)])
    with 1 False sc parts(3) show ?thesis by (simp add: rest_valid.simps [of p])
  qed (simp add: rest_valid.simps)
qed

lemma wild_star_chunk:
  "\<forall>c \<in> set chunk. plain c \<Longrightarrow>
   wild (CHR ''*'' # chunk @ rest) name \<longleftrightarrow>
     (\<exists>u t. name = u @ chunk @ t \<and> CHR ''/'' \<notin> set u \<and> wild rest t)"
  by (auto simp: wild_star wild_plain_append)

lemma wild_occurs:
  assumes "\<forall>c \<in> set chunk. plain c"
  shows "wild (CHR ''*'' # chunk @ rest) name \<longleftrightarrow>
    (\<exists>u t. occurs chunk (rest = []) name u t \<and> wild rest t)"
proof -
  have "rest = [] \<Longrightarrow> wild rest t \<longleftrightarrow> t = []" for t by simp
  then show ?thesis unfolding wild_star_chunk [OF assms] occurs_def by metis
qed

text \<open>What one chunk of the loop means for the reference matcher, with and without a star.\<close>

lemma chunk_step_star_wild:
  assumes plain: "\<forall>c \<in> set chunk. plain c" and rest: "rest = [] \<or> hd rest = CHR ''*''"
  shows "case chunk_step True chunk (rest = []) name of
      BadPattern \<Rightarrow> False
    | NoMatch \<Rightarrow> \<not> wild (CHR ''*'' # chunk @ rest) name
    | Rest t \<Rightarrow> wild (CHR ''*'' # chunk @ rest) name = wild rest t"
proof (cases "chunk_step True chunk (rest = []) name")
  case (Rest t0)
  then obtain u0 where u0: "occurs chunk (rest = []) name u0 t0"
    and least: "\<And>u t. occurs chunk (rest = []) name u t \<Longrightarrow> length u0 \<le> length u"
    using chunk_step_leftmost [OF plain, of "rest = []" name] by auto
  have "wild rest t0" if ut: "occurs chunk (rest = []) name u t" and w: "wild rest t" for u t
  proof (cases rest)
    case Nil
    with u0 show ?thesis by (simp add: occurs_def)
  next
    case (Cons c r)
    with rest have c: "rest = CHR ''*'' # r" by simp
    show ?thesis
      using u0 ut least [OF ut] w c
      by (auto simp: occurs_def intro: leftmost_suffices [of u0 chunk t0 u t r])
  qed
  with u0 Rest show ?thesis by (auto simp: wild_occurs [OF plain] simp del: wild.simps)
qed (use chunk_step_leftmost [OF plain, of "rest = []" name] in
      \<open>auto simp: wild_occurs [OF plain] simp del: wild.simps\<close>)

lemma wild_plain: "\<forall>c \<in> set p. plain c \<Longrightarrow> wild p s \<longleftrightarrow> s = p"
  using wild_plain_append [of p "[]" s] by auto

lemma chunk_step_plain_wild:
  assumes plain: "\<forall>c \<in> set chunk. plain c"
  shows "case chunk_step False chunk (rest = []) name of
      BadPattern \<Rightarrow> False
    | NoMatch \<Rightarrow> \<not> wild (chunk @ rest) name
    | Rest t \<Rightarrow> wild (chunk @ rest) name = wild rest t"
  by (auto simp: chunk_step_def match_chunk_plain [OF plain] wild_plain_append [OF plain]
      wild_plain [OF plain] HasPrefix_iff)

lemma path_Match_wild: "plain_or_star p \<Longrightarrow> path_Match p name = Some (wild p name)"
proof (induction p name rule: path_Match.induct)
  case (1 p name)
  show ?case
  proof (cases "p = []")
    case False
    obtain star chunk rest where sc: "scanChunk p = (star, chunk, rest)" by (metis prod_cases3)
    note parts = scanChunk_plain_or_star [OF "1.prems" sc]
    obtain k where k: "p = replicate k (CHR ''*'') @ chunk @ rest" "star \<longleftrightarrow> 0 < k"
      using parts(4) by blast
    have wp: "wild p name = wild ((if star then [CHR ''*''] else []) @ chunk @ rest) name"
      using k wild_stars [of "k - 1" "chunk @ rest"] by (cases k) auto
    show ?thesis
    proof (cases "star \<and> chunk = []")
      case True
      with parts(5) have "wild p name \<longleftrightarrow> CHR ''/'' \<notin> set name" by (auto simp: wp wild_star)
      with True sc False show ?thesis by (simp add: path_Match.simps [of p name])
    next
      case main: False
      have IH: "path_Match rest t = Some (wild rest t)"
        if "chunk_step star chunk (rest = []) name = Rest t" for t
        using that main parts(3) False sc by (intro "1.IH") auto
      have "case chunk_step star chunk (rest = []) name of
          BadPattern \<Rightarrow> False
        | NoMatch \<Rightarrow> \<not> wild p name
        | Rest t \<Rightarrow> wild p name = wild rest t"
        using chunk_step_star_wild [OF parts(1,2), of name]
          chunk_step_plain_wild [OF parts(1), of rest name]
        by (cases star) (simp_all add: wp split: chunk_result.splits del: wild.simps)
      with IH rest_valid_plain_or_star [OF parts(3)] main sc False show ?thesis
        by (auto simp: path_Match.simps [of p name] split: chunk_result.splits)
    qed
  qed (simp add: path_Match.simps)
qed

text \<open>A plain prefix, the usual shape of a username pattern.\<close>

lemma wild_plain_star:
  "\<forall>c \<in> set p. plain c \<Longrightarrow> wild (p @ ''*'') s \<longleftrightarrow> (\<exists>t. s = p @ t \<and> CHR ''/'' \<notin> set t)"
  using wild_plain_append [of p "''*''" s] by (auto simp: wild_star)

end
