(* ===== verification/Pattern.thy ===== *)
theory Pattern
  imports GoGlob
begin

text \<open>
  Username patterns: \<open>internal/config/stringslice.go\<close> and \<open>internal/config/pattern.go\<close>.
  JSON values are what the YAML decoder hands to an \<open>UnmarshalJSON\<close> method. A compiled regular
  expression is represented by its source text; compiling and matching are those of Go's
  \<open>regexp\<close> engine, an argument of the definitions that use it.
\<close>

section \<open>JSON values\<close>

datatype json =
    JNull
  | JBool bool
  | JNumber string
  | JString string
  | JArray "json list"
  | JObject "(string \<times> json) list"

text \<open>
  \<open>json.Unmarshal\<close> into a fresh \<open>string\<close>: \<open>null\<close> leaves the empty string and is no error.
\<close>

fun json_string :: "json \<Rightarrow> string option" where
  "json_string JNull = Some []"
| "json_string (JString s) = Some s"
| "json_string _ = None"

text \<open>\<open>json.Unmarshal\<close> into a fresh \<open>[]string\<close>; every element is decoded as a string.\<close>

fun json_strings :: "json list \<Rightarrow> string list option" where
  "json_strings [] = Some []"
| "json_strings (v # vs) =
     (case (json_string v, json_strings vs) of
        (Some s, Some ss) \<Rightarrow> Some (s # ss)
      | _ \<Rightarrow> None)"

fun json_string_list :: "json \<Rightarrow> string list option" where
  "json_string_list JNull = Some []"
| "json_string_list (JArray vs) = json_strings vs"
| "json_string_list _ = None"

section \<open>StringOrSlice\<close>

definition StringOrSlice_UnmarshalJSON :: "json \<Rightarrow> string list result" where
  "StringOrSlice_UnmarshalJSON data =
     (case json_string data of
        Some single \<Rightarrow> Inr [single]
      | None \<Rightarrow>
          (case json_string_list data of
             Some multiple \<Rightarrow> Inr multiple
           | None \<Rightarrow> Inl (Errorf [T ''expected string or sequence''])))"

section \<open>Pattern\<close>

text \<open>Go's \<open>regexp\<close>: the error of \<open>Compile\<close>, if any, and \<open>MatchString\<close>.\<close>

record regexp_engine =
  rx_error :: "string \<Rightarrow> error option"
  rx_match :: "string \<Rightarrow> string \<Rightarrow> bool"

record Pattern =
  AllowRegexp :: "string list"
  DenyRegexp :: "string list"
  Allow :: "string list"
  Deny :: "string list"

definition zero_Pattern :: Pattern where
  "zero_Pattern = \<lparr>AllowRegexp = [], DenyRegexp = [], Allow = [], Deny = []\<rparr>"

definition matchGlob :: "string \<Rightarrow> string \<Rightarrow> bool" where
  "matchGlob pattern value =
     (case path_Match pattern value of None \<Rightarrow> False | Some matched \<Rightarrow> matched)"

text \<open>The test of line 37: a part written as \<open>/.../\<close>.\<close>

definition is_regexp :: "string \<Rightarrow> bool" where
  "is_regexp part \<longleftrightarrow> HasPrefix part ''/'' \<and> HasSuffix part ''/'' \<and> 2 \<le> length part"

definition regexp_source :: "string \<Rightarrow> string" where
  "regexp_source part = TrimSuffix (TrimPrefix part ''/'') ''/''"

fun ParsePattern_loop :: "regexp_engine \<Rightarrow> Pattern \<Rightarrow> string list \<Rightarrow> Pattern result" where
  "ParsePattern_loop E pattern [] = Inr pattern"
| "ParsePattern_loop E pattern (part0 # parts) =
     (let deny = HasPrefix part0 ''!'';
          part = (if deny then TrimPrefix part0 ''!'' else part0)
      in
      if is_regexp part then
        (case rx_error E (regexp_source part) of
           Some err \<Rightarrow> Inl (Wrapf [T ''compile pattern '', Q part, T '': ''] err)
         | None \<Rightarrow>
             let re = regexp_source part in
             ParsePattern_loop E
               (if deny then pattern\<lparr>DenyRegexp := DenyRegexp pattern @ [re]\<rparr>
                else pattern\<lparr>AllowRegexp := AllowRegexp pattern @ [re]\<rparr>) parts)
      else
        ParsePattern_loop E
          (if deny then pattern\<lparr>Deny := Deny pattern @ [part]\<rparr>
           else pattern\<lparr>Allow := Allow pattern @ [part]\<rparr>) parts)"

definition ParsePattern :: "regexp_engine \<Rightarrow> string list \<Rightarrow> Pattern result" where
  "ParsePattern E parts = ParsePattern_loop E zero_Pattern parts"

definition Pattern_UnmarshalJSON :: "regexp_engine \<Rightarrow> json \<Rightarrow> Pattern result" where
  "Pattern_UnmarshalJSON E data =
     (case StringOrSlice_UnmarshalJSON data of
        Inl err \<Rightarrow> Inl err
      | Inr parts \<Rightarrow> ParsePattern E parts)"

text \<open>Each loop of \<open>Match\<close> returns at the first hit, so it is a bounded test of the list.\<close>

definition Pattern_Match :: "regexp_engine \<Rightarrow> Pattern \<Rightarrow> string \<Rightarrow> bool" where
  "Pattern_Match E p value =
     (if list_ex (\<lambda>deny. matchGlob deny value) (Deny p) then False
      else if list_ex (\<lambda>deny. rx_match E deny value) (DenyRegexp p) then False
      else
        let hasAllow = (0 < length (Allow p) \<or> 0 < length (AllowRegexp p)) in
        if list_ex (\<lambda>allow. matchGlob allow value) (Allow p) then True
        else if list_ex (\<lambda>allow. rx_match E allow value) (AllowRegexp p) then True
        else \<not> hasAllow)"

section \<open>The meaning of a pattern list\<close>

text \<open>
  The documented meaning, part by part: a part is an allow or a deny (\<open>!\<close>), and a glob or a
  regular expression (\<open>/.../\<close>). A value matches a list when no deny part holds of it and either
  some allow part does or there is no allow part.
\<close>

definition is_deny :: "string \<Rightarrow> bool" where
  "is_deny part \<longleftrightarrow> HasPrefix part ''!''"

definition part_body :: "string \<Rightarrow> string" where
  "part_body part = (if is_deny part then TrimPrefix part ''!'' else part)"

definition part_holds :: "regexp_engine \<Rightarrow> string \<Rightarrow> string \<Rightarrow> bool" where
  "part_holds E part value =
     (let b = part_body part in
      if is_regexp b then rx_match E (regexp_source b) value else matchGlob b value)"

definition list_matches :: "regexp_engine \<Rightarrow> string list \<Rightarrow> string \<Rightarrow> bool" where
  "list_matches E parts value \<longleftrightarrow>
     (\<forall>part \<in> set parts. is_deny part \<longrightarrow> \<not> part_holds E part value) \<and>
     ((\<exists>part \<in> set parts. \<not> is_deny part \<and> part_holds E part value) \<or>
      (\<forall>part \<in> set parts. is_deny part))"

lemma Pattern_Match_iff:
  "Pattern_Match E p value \<longleftrightarrow>
     (\<forall>d \<in> set (Deny p). \<not> matchGlob d value) \<and> (\<forall>d \<in> set (DenyRegexp p). \<not> rx_match E d value) \<and>
     ((\<exists>a \<in> set (Allow p). matchGlob a value) \<or> (\<exists>a \<in> set (AllowRegexp p). rx_match E a value) \<or>
      (Allow p = [] \<and> AllowRegexp p = []))"
  by (auto simp: Pattern_Match_def list_ex_iff Let_def)

text \<open>One round of the parse loop in these terms.\<close>

definition bad_part :: "regexp_engine \<Rightarrow> string \<Rightarrow> bool" where
  "bad_part E part \<longleftrightarrow>
     is_regexp (part_body part) \<and> rx_error E (regexp_source (part_body part)) \<noteq> None"

definition compile_error :: "regexp_engine \<Rightarrow> string \<Rightarrow> error" where
  "compile_error E part =
     Wrapf [T ''compile pattern '', Q (part_body part), T '': '']
       (case rx_error E (regexp_source (part_body part)) of Some e \<Rightarrow> e | None \<Rightarrow> Errorf [])"

definition add_part :: "Pattern \<Rightarrow> string \<Rightarrow> Pattern" where
  "add_part pat part =
     (let b = part_body part in
      if is_regexp b then
        (if is_deny part then pat\<lparr>DenyRegexp := DenyRegexp pat @ [regexp_source b]\<rparr>
         else pat\<lparr>AllowRegexp := AllowRegexp pat @ [regexp_source b]\<rparr>)
      else
        (if is_deny part then pat\<lparr>Deny := Deny pat @ [b]\<rparr>
         else pat\<lparr>Allow := Allow pat @ [b]\<rparr>))"

lemma ParsePattern_loop_Cons:
  "ParsePattern_loop E pat (part # parts) =
     (if bad_part E part then Inl (compile_error E part)
      else ParsePattern_loop E (add_part pat part) parts)"
  by (auto simp: bad_part_def compile_error_def add_part_def part_body_def is_deny_def Let_def)

text \<open>The parse fails exactly when a regular expression does not compile, at the first such part.\<close>

lemma ParsePattern_loop_error:
  "(case ParsePattern_loop E pat parts of Inl err \<Rightarrow> Some err | Inr _ \<Rightarrow> None) =
   map_option (compile_error E) (find (bad_part E) parts)"
  by (induction parts arbitrary: pat) (simp_all add: ParsePattern_loop_Cons del: ParsePattern_loop.simps(2))

text \<open>The four lists a successful parse produces, in the order of the parts.\<close>

lemma ParsePattern_loop_lists:
  "ParsePattern_loop E pat parts = Inr p \<Longrightarrow>
   p = \<lparr>AllowRegexp = AllowRegexp pat @
          map (regexp_source \<circ> part_body) (filter (\<lambda>x. \<not> is_deny x \<and> is_regexp (part_body x)) parts),
        DenyRegexp = DenyRegexp pat @
          map (regexp_source \<circ> part_body) (filter (\<lambda>x. is_deny x \<and> is_regexp (part_body x)) parts),
        Allow = Allow pat @
          map part_body (filter (\<lambda>x. \<not> is_deny x \<and> \<not> is_regexp (part_body x)) parts),
        Deny = Deny pat @
          map part_body (filter (\<lambda>x. is_deny x \<and> \<not> is_regexp (part_body x)) parts)\<rparr>"
proof (induction parts arbitrary: pat)
  case (Cons x xs)
  then have "ParsePattern_loop E (add_part pat x) xs = Inr p"
    by (auto simp: ParsePattern_loop_Cons simp del: ParsePattern_loop.simps(2) split: if_splits)
  from Cons.IH [OF this] show ?case by (auto simp: add_part_def Let_def)
qed simp

lemma ParsePattern_Match:
  assumes "ParsePattern E parts = Inr p"
  shows "Pattern_Match E p value \<longleftrightarrow> list_matches E parts value"
proof -
  note p = ParsePattern_loop_lists [OF assms [unfolded ParsePattern_def], unfolded zero_Pattern_def]
  have d: "(\<forall>d \<in> set (Deny p). \<not> matchGlob d value) \<and> (\<forall>d \<in> set (DenyRegexp p). \<not> rx_match E d value)
      \<longleftrightarrow> (\<forall>part \<in> set parts. is_deny part \<longrightarrow> \<not> part_holds E part value)"
    unfolding p by (auto simp: part_holds_def Let_def)
  have a: "(\<exists>a \<in> set (Allow p). matchGlob a value) \<or> (\<exists>a \<in> set (AllowRegexp p). rx_match E a value)
      \<longleftrightarrow> (\<exists>part \<in> set parts. \<not> is_deny part \<and> part_holds E part value)"
    unfolding p by (auto simp: part_holds_def Let_def)
  have n: "Allow p = [] \<and> AllowRegexp p = [] \<longleftrightarrow> (\<forall>part \<in> set parts. is_deny part)"
    unfolding p by (auto simp: filter_empty_conv)
  show ?thesis unfolding Pattern_Match_iff list_matches_def using d a n by blast
qed

end
