(* ===== verification/GoDuration.thy ===== *)
theory GoDuration
  imports GoStrings Complex_Main "HOL-Library.Log_Nat"
begin

text \<open>
  \<open>time.ParseDuration\<close> and \<open>time.Duration.String\<close>. A duration is a signed 64-bit number of
  nanoseconds, here an \<^typ>\<open>int\<close> in that range; the parser accumulates in an unsigned 64-bit
  integer and takes fractions through \<open>float64\<close>, whose rounding is written out. The last section
  proves that parsing what \<open>String\<close> prints gives the duration back.
\<close>

section \<open>float64\<close>

text \<open>
  Round to nearest, ties to even, with a 53-bit significand. The exponent is unbounded: the
  parser's intermediate values underflow or overflow \<open>float64\<close> only for fractions that are less
  than a nanosecond, which truncate to zero either way.
\<close>

definition scale2 :: "rat \<Rightarrow> int \<Rightarrow> rat" where
  "scale2 q e = (if 0 \<le> e then q * 2 ^ nat e else q / 2 ^ nat (- e))"

definition round_even :: "rat \<Rightarrow> int" where
  "round_even x =
     (let n = \<lfloor>x\<rfloor>; r = x - of_int n
      in if r < 1 / 2 \<or> (r = 1 / 2 \<and> even n) then n else n + 1)"

definition f64_exponent :: "rat \<Rightarrow> int" where
  "f64_exponent q =
     (let (a, b) = quotient_of q;
          e0 = int (floorlog 2 (nat a)) - int (floorlog 2 (nat b)) - 53
      in if 2 ^ 53 \<le> scale2 q (- e0) then e0 + 1 else e0)"

definition f64 :: "rat \<Rightarrow> rat" where
  "f64 q =
     (if q = 0 then 0
      else let e = f64_exponent q in scale2 (of_int (round_even (scale2 q (- e)))) e)"

lemma round_even_int [simp]: "round_even (of_int n) = n"
  by (simp add: round_even_def)

lemma scale2_inverse: "scale2 (scale2 q (- e)) e = q"
  by (cases "0 \<le> e") (auto simp: scale2_def)

lemma f64_exponent_nat:
  assumes "0 < n" "n < 2 ^ 53"
  shows "f64_exponent (of_nat n) \<le> 0"
proof -
  have "floorlog 2 n \<le> 53" using assms by (intro floorlog_leI) auto
  moreover have "floorlog 2 1 = 1" by (simp add: floorlog_def)
  ultimately show ?thesis by (auto simp: f64_exponent_def Let_def)
qed

text \<open>Natural numbers below \<open>2 ^ 53\<close> are \<open>float64\<close> values.\<close>

lemma f64_nat: "n < 2 ^ 53 \<Longrightarrow> f64 (of_nat n) = of_nat n"
proof (cases "n = 0")
  case False
  assume "n < 2 ^ 53"
  then have e: "f64_exponent (of_nat n) \<le> 0" using False by (simp add: f64_exponent_nat)
  define e where "e = f64_exponent (of_nat n)"
  have "scale2 (of_nat n) (- e) = of_int (int n * 2 ^ nat (- e))"
    using e by (simp add: scale2_def e_def)
  then have "of_int (round_even (scale2 (of_nat n) (- e))) = scale2 (of_nat n) (- e)"
    by (metis round_even_int)
  then have "f64 (of_nat n) = scale2 (scale2 (of_nat n) (- e)) e"
    using False by (simp add: f64_def e_def [symmetric] Let_def)
  then show ?thesis by (simp add: scale2_inverse)
qed (simp add: f64_def)

section \<open>Parsing\<close>

definition digit :: "char \<Rightarrow> bool" where
  "digit c \<longleftrightarrow> 48 \<le> (of_char c :: nat) \<and> (of_char c :: nat) \<le> 57"

definition digit_val :: "char \<Rightarrow> nat" where
  "digit_val c = of_char c - 48"

fun leadingInt :: "nat \<Rightarrow> string \<Rightarrow> (nat \<times> string) option" where
  "leadingInt x [] = Some (x, [])"
| "leadingInt x (c # s) =
     (if \<not> digit c then Some (x, c # s)
      else if 2 ^ 63 div 10 < x then None
      else let y = x * 10 + digit_val c in if 2 ^ 63 < y then None else leadingInt y s)"

fun leadingFraction :: "nat \<Rightarrow> rat \<Rightarrow> bool \<Rightarrow> string \<Rightarrow> nat \<times> rat \<times> string" where
  "leadingFraction x scale overflow [] = (x, scale, [])"
| "leadingFraction x scale overflow (c # s) =
     (if \<not> digit c then (x, scale, c # s)
      else if overflow then leadingFraction x scale overflow s
      else if (2 ^ 63 - 1) div 10 < x then leadingFraction x scale True s
      else
        let y = x * 10 + digit_val c in
        if 2 ^ 63 < y then leadingFraction x scale True s
        else leadingFraction y (f64 (scale * 10)) False s)"

definition unitMap :: "(string \<times> nat) list" where
  "unitMap =
     [(''ns'', 1), (''us'', 1000), ([CHR 0xC2, CHR 0xB5, CHR ''s''], 1000),
      ([CHR 0xCE, CHR 0xBC, CHR ''s''], 1000), (''ms'', 1000000), (''s'', 1000000000),
      (''m'', 60000000000), (''h'', 3600000000000)]"

definition unit_char :: "char \<Rightarrow> bool" where
  "unit_char c \<longleftrightarrow> \<not> (c = CHR ''.'' \<or> digit c)"

text \<open>\<open>uint64(float64(f) * (float64(unit) / scale))\<close>\<close>

definition frac_nanos :: "nat \<Rightarrow> nat \<Rightarrow> rat \<Rightarrow> nat" where
  "frac_nanos f unit scale = nat \<lfloor>f64 (f64 (of_nat f) * f64 (f64 (of_nat unit) / scale))\<rfloor>"

definition invalid_duration :: "string \<Rightarrow> error" where
  "invalid_duration orig = Errorf [T ''time: invalid duration '', Q orig]"

lemma leadingInt_length: "leadingInt x s = Some (y, t) \<Longrightarrow> length t \<le> length s"
  by (induction x s arbitrary: y t rule: leadingInt.induct)
    (fastforce simp: Let_def split: if_splits)+

lemma leadingFraction_length: "length (snd (snd (leadingFraction x sc ov s))) \<le> length s"
  by (induction s arbitrary: x sc ov) (auto simp: Let_def le_SucI)

lemma pairs_shrink:
  assumes "leadingInt 0 s = Some (v, s1)" "takeWhile unit_char s2 \<noteq> []"
    "(f, scale, s2) = (if dot then leadingFraction 0 1 False (tl s1) else (0, 1, s1))"
  shows "length (dropWhile unit_char s2) < length s"
proof -
  have "length s2 \<le> length s1"
    using assms(3) leadingFraction_length [of 0 1 False "tl s1"]
    by (cases dot) (auto simp: prod_eq_iff)
  moreover have "length (dropWhile unit_char s2) < length s2"
    using assms(2) by (metis append_self_conv2 length_append length_greater_0_conv
        less_add_same_cancel2 takeWhile_dropWhile_id)
  ultimately show ?thesis using leadingInt_length [OF assms(1)] by simp
qed

text \<open>The loop over the number-unit pairs; \<open>d\<close> is the \<open>uint64\<close> total so far.\<close>

function parse_pairs :: "string \<Rightarrow> nat \<Rightarrow> string \<Rightarrow> nat result" where
  "parse_pairs orig d s =
     (if s = [] then Inr d
      else if \<not> (hd s = CHR ''.'' \<or> digit (hd s)) then Inl (invalid_duration orig)
      else
        case leadingInt 0 s of
          None \<Rightarrow> Inl (invalid_duration orig)
        | Some (v, s1) \<Rightarrow>
            let pre = (length s \<noteq> length s1);
                dot = (s1 \<noteq> [] \<and> hd s1 = CHR ''.'');
                (f, scale, s2) = (if dot then leadingFraction 0 1 False (tl s1) else (0, 1, s1));
                post = (dot \<and> length (tl s1) \<noteq> length s2);
                u = takeWhile unit_char s2;
                s3 = dropWhile unit_char s2
            in
            if \<not> pre \<and> \<not> post then Inl (invalid_duration orig)
            else if u = [] then Inl (Errorf [T ''time: missing unit in duration '', Q orig])
            else
              (case map_of unitMap u of
                 None \<Rightarrow> Inl (Errorf [T ''time: unknown unit '', Q u, T '' in duration '', Q orig])
               | Some unit \<Rightarrow>
                   if 2 ^ 63 div unit < v then Inl (invalid_duration orig)
                   else
                     let v' = v * unit + (if 0 < f then frac_nanos f unit scale else 0);
                         d' = (d + v') mod 2 ^ 64
                     in
                     if 2 ^ 63 < v' then Inl (invalid_duration orig)
                     else if 2 ^ 63 < d' then Inl (invalid_duration orig)
                     else parse_pairs orig d' s3))"
  by pat_completeness auto
termination
  by (relation "measure (\<lambda>(orig, d, s). length s)") (auto dest!: pairs_shrink simp: Let_def)

declare parse_pairs.simps [simp del]

definition ParseDuration :: "string \<Rightarrow> int result" where
  "ParseDuration orig =
     (let signed = (orig \<noteq> [] \<and> (hd orig = CHR ''-'' \<or> hd orig = CHR ''+''));
          neg = (signed \<and> hd orig = CHR ''-'');
          s = (if signed then tl orig else orig)
      in
      if s = ''0'' then Inr 0
      else if s = [] then Inl (invalid_duration orig)
      else
        (case parse_pairs orig 0 s of
           Inl err \<Rightarrow> Inl err
         | Inr d \<Rightarrow>
             if neg then Inr (- int d)
             else if 2 ^ 63 - 1 < d then Inl (invalid_duration orig)
             else Inr (int d)))"

section \<open>Printing\<close>

definition digit_char :: "nat \<Rightarrow> char" where
  "digit_char n = char_of (48 + n)"

fun fmtInt :: "nat \<Rightarrow> string" where
  "fmtInt v = (if v < 10 then [digit_char v] else fmtInt (v div 10) @ [digit_char (v mod 10)])"

declare fmtInt.simps [simp del]

fun fmtFrac :: "nat \<Rightarrow> nat \<Rightarrow> bool \<Rightarrow> string \<Rightarrow> string \<times> nat" where
  "fmtFrac 0 v print buf = (if print then CHR ''.'' # buf else buf, v)"
| "fmtFrac (Suc i) v print buf =
     (let dig = v mod 10; print' = (print \<or> dig \<noteq> 0)
      in fmtFrac i (v div 10) print' (if print' then digit_char dig # buf else buf))"

definition fmt_small :: "nat \<Rightarrow> nat \<Rightarrow> string \<Rightarrow> string" where
  "fmt_small u prec sfx = (let (frac, v) = fmtFrac prec u False [] in fmtInt v @ frac @ sfx)"

definition fmt_large :: "nat \<Rightarrow> string" where
  "fmt_large u =
     (let (frac, secs) = fmtFrac 9 u False [];
          mins = secs div 60;
          hours = mins div 60
      in (if 0 < mins
          then (if 0 < hours then fmtInt hours @ ''h'' else []) @ fmtInt (mins mod 60) @ ''m''
          else []) @ fmtInt (secs mod 60) @ frac @ ''s'')"

definition Duration_String :: "int \<Rightarrow> string" where
  "Duration_String d =
     (let u = nat \<bar>d\<bar>;
          body = (if u < 1000000000 then
                    (if u = 0 then ''0s''
                     else if u < 1000 then fmt_small u 0 ''ns''
                     else if u < 1000000 then fmt_small u 3 [CHR 0xC2, CHR 0xB5, CHR ''s'']
                     else fmt_small u 6 ''ms'')
                  else fmt_large u)
      in if d < 0 then CHR ''-'' # body else body)"

section \<open>Parsing what was printed\<close>

lemma digit_char_digit [simp]: "n < 10 \<Longrightarrow> digit (digit_char n)"
  by (simp add: digit_def digit_char_def)

lemma digit_char_val [simp]: "n < 10 \<Longrightarrow> digit_val (digit_char n) = n"
  by (simp add: digit_val_def digit_char_def)

fun dec :: "nat \<Rightarrow> string \<Rightarrow> nat" where
  "dec x [] = x"
| "dec x (c # s) = dec (x * 10 + digit_val c) s"

lemma dec_append: "dec x (s @ t) = dec (dec x s) t"
  by (induction s arbitrary: x) auto

lemma dec_ge: "x \<le> dec x s"
proof (induction s arbitrary: x)
  case (Cons c s)
  have "x \<le> x * 10 + digit_val c" by simp
  also have "\<dots> \<le> dec (x * 10 + digit_val c) s" by (rule Cons.IH)
  finally show ?case by simp
qed simp

lemma fmtInt_digits: "\<forall>c \<in> set (fmtInt v). digit c"
proof (induction v rule: fmtInt.induct)
  case (1 v)
  then show ?case by (subst fmtInt.simps) auto
qed

lemma fmtInt_nonempty: "fmtInt v \<noteq> []"
  by (subst fmtInt.simps) simp

lemma dec_fmtInt: "dec 0 (fmtInt v) = v"
proof (induction v rule: fmtInt.induct)
  case (1 v)
  then show ?case by (subst fmtInt.simps) (auto simp: dec_append)
qed

lemma leadingInt_digits:
  "\<forall>c \<in> set ds. digit c \<Longrightarrow> dec x ds \<le> 2 ^ 63 \<Longrightarrow> rest = [] \<or> \<not> digit (hd rest) \<Longrightarrow>
   leadingInt x (ds @ rest) = Some (dec x ds, rest)"
proof (induction ds arbitrary: x)
  case Nil
  then show ?case by (cases rest) auto
next
  case (Cons c ds)
  have "x * 10 + digit_val c \<le> 2 ^ 63" using dec_ge [of "x * 10 + digit_val c" ds] Cons.prems(2) by simp
  with Cons show ?case by (auto simp: Let_def)
qed

lemma leadingInt_fmtInt:
  "v \<le> 2 ^ 63 \<Longrightarrow> rest = [] \<or> \<not> digit (hd rest) \<Longrightarrow> leadingInt 0 (fmtInt v @ rest) = Some (v, rest)"
  by (simp add: leadingInt_digits fmtInt_digits dec_fmtInt)

text \<open>The fraction: digits without trailing zeros, behind a point if there are any.\<close>

definition frac_text :: "string \<Rightarrow> string" where
  "frac_text ds = (if ds = [] then [] else CHR ''.'' # ds)"

lemma dec_shift: "dec x s = x * 10 ^ length s + dec 0 s"
proof (induction s arbitrary: x)
  case (Cons c s)
  show ?case
    using Cons [of "x * 10 + digit_val c"] Cons [of "digit_val c"] by (simp add: algebra_simps)
qed simp

lemma fmtFrac_spec:
  assumes "\<forall>c \<in> set buf. digit c" "print \<longleftrightarrow> buf \<noteq> []" "length buf \<le> K"
    "\<not> print \<longrightarrow> r = 0" "dec 0 buf * 10 ^ (K - length buf) = r"
  shows "\<exists>ds. fmtFrac prec v print buf = (frac_text ds, v div 10 ^ prec) \<and>
    (\<forall>c \<in> set ds. digit c) \<and> length ds \<le> prec + K \<and>
    dec 0 ds * 10 ^ (prec + K - length ds) = (v mod 10 ^ prec) * 10 ^ K + r"
  using assms
proof (induction prec arbitrary: v print buf K r)
  case 0
  then show ?case by (intro exI [of _ buf]) (auto simp: frac_text_def)
next
  case (Suc prec)
  let ?d = "v mod 10"
  let ?print = "print \<or> ?d \<noteq> 0"
  let ?buf = "if ?print then digit_char ?d # buf else buf"
  have r: "dec 0 ?buf * 10 ^ (Suc K - length ?buf) = ?d * 10 ^ K + r"
  proof (cases ?print)
    case True
    have "dec ?d buf * 10 ^ (K - length buf) = ?d * (10 ^ length buf * 10 ^ (K - length buf)) + r"
      using Suc.prems(5) by (simp add: dec_shift [of ?d] algebra_simps)
    also have "(10::nat) ^ length buf * 10 ^ (K - length buf) = 10 ^ K"
      using Suc.prems(3) by (simp flip: power_add)
    finally show ?thesis using True by simp
  next
    case False
    with Suc.prems show ?thesis by simp
  qed
  obtain ds where ds: "fmtFrac prec (v div 10) ?print ?buf = (frac_text ds, v div 10 div 10 ^ prec)"
    "\<forall>c \<in> set ds. digit c" "length ds \<le> prec + Suc K"
    "dec 0 ds * 10 ^ (prec + Suc K - length ds)
       = (v div 10 mod 10 ^ prec) * 10 ^ Suc K + (?d * 10 ^ K + r)"
  proof -
    have "\<forall>c \<in> set ?buf. digit c" "?print \<longleftrightarrow> ?buf \<noteq> []" "length ?buf \<le> Suc K"
      "\<not> ?print \<longrightarrow> ?d * 10 ^ K + r = 0"
      using Suc.prems by auto
    from Suc.IH [OF this r, of "v div 10"] show ?thesis using that by blast
  qed
  have "v mod 10 ^ Suc prec = 10 * (v div 10 mod 10 ^ prec) + ?d"
    by (simp add: mod_mult2_eq)
  with ds show ?case
    by (intro exI [of _ ds]) (auto simp: Let_def div_mult2_eq algebra_simps)
qed

lemma fmtFrac_start:
  "\<exists>ds. fmtFrac prec v False [] = (frac_text ds, v div 10 ^ prec) \<and>
    (\<forall>c \<in> set ds. digit c) \<and> length ds \<le> prec \<and>
    dec 0 ds * 10 ^ (prec - length ds) = v mod 10 ^ prec"
  using fmtFrac_spec [of "[]" False 0 0 prec v] by simp

lemma dec_less: "\<forall>c \<in> set ds. digit c \<Longrightarrow> x < 10 ^ j \<Longrightarrow> dec x ds < 10 ^ (j + length ds)"
proof (induction ds arbitrary: x j)
  case (Cons c ds)
  then have "digit_val c < 10" by (auto simp: digit_def digit_val_def)
  with Cons.prems have "x * 10 + digit_val c < 10 ^ Suc j" by simp
  with Cons show ?case using Cons.IH [of "x * 10 + digit_val c" "Suc j"] by simp
qed simp

lemma pow10_less: "j \<le> 9 \<Longrightarrow> (10::nat) ^ j \<le> 10 ^ 9"
  by (rule power_increasing) auto

lemma f64_pow10: "j \<le> 9 \<Longrightarrow> f64 (10 ^ j) = 10 ^ j"
  using f64_nat [of "10 ^ j"] pow10_less [of j] by simp

lemma leadingFraction_digits:
  "\<forall>c \<in> set ds. digit c \<Longrightarrow> x < 10 ^ j \<Longrightarrow> j + length ds \<le> 9 \<Longrightarrow>
   rest = [] \<or> \<not> digit (hd rest) \<Longrightarrow>
   leadingFraction x (10 ^ j) False (ds @ rest) = (dec x ds, 10 ^ (j + length ds), rest)"
proof (induction ds arbitrary: x j)
  case Nil
  then show ?case by (cases rest) auto
next
  case (Cons c ds)
  then have c: "digit c" "digit_val c < 10" by (auto simp: digit_def digit_val_def)
  have x: "x < 10 ^ 9" using Cons.prems(2,3) pow10_less [of j] by simp
  have y: "x * 10 + digit_val c < 10 ^ Suc j" using Cons.prems(2) c by simp
  have sc: "f64 ((10::rat) ^ j * 10) = 10 ^ Suc j"
    using f64_pow10 [of "Suc j"] Cons.prems(3) by (simp add: mult.commute)
  have "leadingFraction x (10 ^ j) False ((c # ds) @ rest)
      = leadingFraction (x * 10 + digit_val c) (10 ^ Suc j) False (ds @ rest)"
    using c x sc by (simp add: Let_def)
  also have "\<dots> = (dec (x * 10 + digit_val c) ds, 10 ^ (Suc j + length ds), rest)"
    by (rule Cons.IH) (use Cons.prems y in auto)
  finally show ?case by simp
qed

lemma frac_nanos_exact:
  assumes "f < 10 ^ k" "k \<le> n" "n \<le> 9"
  shows "frac_nanos f (10 ^ n) (10 ^ k) = f * 10 ^ (n - k)"
proof -
  have lt: "f * 10 ^ (n - k) < 10 ^ n"
    using assms by (metis le_add_diff_inverse mult_less_mono1 power_add zero_less_numeral zero_less_power)
  have n9: "(10::nat) ^ n \<le> 10 ^ 9" by (rule pow10_less [OF assms(3)])
  have "f < 10 ^ 9" using assms pow10_less [of k] by linarith
  then have ff: "f64 (of_nat f) = of_nat f" by (intro f64_nat) simp
  have "(10::rat) ^ n / 10 ^ k = 10 ^ (n - k)" using assms(2) by (simp add: power_diff)
  then have un: "f64 (f64 (of_nat (10 ^ n)) / 10 ^ k) = 10 ^ (n - k)"
    using f64_pow10 [of n] f64_pow10 [of "n - k"] assms by simp
  have "f64 (of_nat (f * 10 ^ (n - k))) = of_nat (f * 10 ^ (n - k))"
    using lt n9 by (intro f64_nat) simp
  moreover have "of_nat f * 10 ^ (n - k) = (of_nat (f * 10 ^ (n - k)) :: rat)" by simp
  ultimately show ?thesis unfolding frac_nanos_def ff un by (metis floor_of_nat nat_int)
qed

text \<open>One number with a fraction and its unit, as the loop reads it.\<close>

lemma unitMap_pos: "map_of unitMap u = Some unit \<Longrightarrow> 0 < unit"
  by (drule map_of_SomeD) (auto simp: unitMap_def)

lemma parse_pairs_step:
  assumes u: "map_of unitMap u = Some unit" "\<forall>c \<in> set u. unit_char c" "u \<noteq> []"
    and ds: "\<forall>c \<in> set ds. digit c" "length ds \<le> 9"
    and rest: "rest = [] \<or> digit (hd rest)"
    and fv: "fv = (if 0 < dec 0 ds then frac_nanos (dec 0 ds) unit (10 ^ length ds) else 0)"
    and tot: "d + (v * unit + fv) \<le> 2 ^ 63"
  shows "parse_pairs orig d (fmtInt v @ frac_text ds @ u @ rest)
    = parse_pairs orig (d + (v * unit + fv)) rest"
proof -
  let ?s = "fmtInt v @ frac_text ds @ u @ rest"
  obtain c0 s0 where s: "?s = c0 # s0" "digit c0"
    using fmtInt_nonempty [of v] fmtInt_digits [of v] by (cases "fmtInt v") auto
  have v: "v * unit \<le> 2 ^ 63" using tot by linarith
  have un: "0 < unit" by (rule unitMap_pos [OF u(1)])
  then have v63: "v \<le> 2 ^ 63" using v by (metis dual_order.trans le_add1 mult_le_mono2 mult.right_neutral Suc_leI One_nat_def)
  have vdiv: "v \<le> 2 ^ 63 div unit" using v un by (simp add: less_eq_div_iff_mult_less_eq)
  obtain a w where aw: "u = a # w" "unit_char a" using u by (cases u) auto
  have nd: "\<not> digit a" "a \<noteq> CHR ''.''" using aw by (auto simp: unit_char_def)
  have dot: "\<not> digit (CHR ''.'')" by (simp add: digit_def)
  have tw: "takeWhile unit_char (u @ rest) = u" "dropWhile unit_char (u @ rest) = rest"
    using u(2) rest by (cases rest; auto simp: unit_char_def takeWhile_append2 dropWhile_append2)+
  have int: "leadingInt 0 ?s = Some (v, frac_text ds @ u @ rest)"
    by (rule leadingInt_fmtInt [OF v63]) (simp add: frac_text_def aw nd dot)
  have frac: "leadingFraction 0 1 False (ds @ u @ rest) = (dec 0 ds, 10 ^ length ds, u @ rest)"
    using leadingFraction_digits [of ds 0 0 "u @ rest"] ds aw nd by simp
  have d64: "(d + (v * unit + fv)) mod 2 ^ 64 = d + (v * unit + fv)" using tot by simp
  have ne: "fmtInt v \<noteq> []" by (rule fmtInt_nonempty)
  have "length (fmtInt v) + length (frac_text ds @ u @ rest) = Suc (length s0)"
    using arg_cong [OF s(1), of length] by simp
  with ne have len: "length (frac_text ds @ u @ rest) \<noteq> Suc (length s0)"
    by (metis add_cancel_left_left length_0_conv)
  show ?thesis
  proof (cases "ds = []")
    case True
    with fv have "fv = 0" by simp
    with True show ?thesis
      using s int tw u vdiv tot d64 nd len
      by (subst parse_pairs.simps) (auto simp: frac_text_def aw Let_def)
  next
    case False
    then show ?thesis
      using s int tw u vdiv tot d64 ne frac fv
      by (subst parse_pairs.simps) (simp add: frac_text_def Let_def)
  qed
qed

lemma parse_pairs_Nil [simp]: "parse_pairs orig d [] = Inr d"
  by (simp add: parse_pairs.simps)

text \<open>Units without a fraction (hours, minutes) and units that are powers of ten.\<close>

lemma parse_pairs_whole:
  "map_of unitMap u = Some unit \<Longrightarrow> \<forall>c \<in> set u. unit_char c \<Longrightarrow> u \<noteq> [] \<Longrightarrow>
   rest = [] \<or> digit (hd rest) \<Longrightarrow> d + v * unit \<le> 2 ^ 63 \<Longrightarrow>
   parse_pairs orig d (fmtInt v @ u @ rest) = parse_pairs orig (d + v * unit) rest"
  using parse_pairs_step [of u unit "[]" rest 0 d v orig] by (simp add: frac_text_def)

lemma parse_pairs_frac:
  assumes "map_of unitMap u = Some (10 ^ n)" "\<forall>c \<in> set u. unit_char c" "u \<noteq> []" "n \<le> 9"
    and ft: "fmtFrac n w False [] = (ft, q)" and tot: "d + (v * 10 ^ n + w mod 10 ^ n) \<le> 2 ^ 63"
  shows "parse_pairs orig d (fmtInt v @ ft @ u) = Inr (d + (v * 10 ^ n + w mod 10 ^ n))"
proof -
  obtain ds where ds: "fmtFrac n w False [] = (frac_text ds, w div 10 ^ n)"
    "\<forall>c \<in> set ds. digit c" "length ds \<le> n" "dec 0 ds * 10 ^ (n - length ds) = w mod 10 ^ n"
    using fmtFrac_start by blast
  then have fr: "ft = frac_text ds" using ft by auto
  let ?fv = "if 0 < dec 0 ds then frac_nanos (dec 0 ds) (10 ^ n) (10 ^ length ds) else 0"
  have "dec 0 ds < 10 ^ length ds" using dec_less [OF ds(2), of 0 0] by simp
  then have fv: "?fv = w mod 10 ^ n"
    using ds(3,4) assms(4) by (auto simp: frac_nanos_exact)
  have "parse_pairs orig d (fmtInt v @ frac_text ds @ u @ [])
      = parse_pairs orig (d + (v * 10 ^ n + w mod 10 ^ n)) []"
    by (rule parse_pairs_step) (use assms ds fv in auto)
  then show ?thesis by (simp add: fr)
qed

lemma hd_fmtInt: "digit (hd (fmtInt v @ rest))"
  using fmtInt_nonempty [of v] fmtInt_digits [of v] by (cases "fmtInt v") auto

lemma unit_chars:
  "unit_char (CHR ''n'')" "unit_char (CHR ''s'')" "unit_char (CHR ''m'')" "unit_char (CHR ''h'')"
  "unit_char (CHR 0xC2)" "unit_char (CHR 0xB5)"
  by (simp_all add: unit_char_def digit_def)

lemma parse_fmt_small:
  assumes m: "map_of unitMap sfx = Some (10 ^ n)" "\<forall>c \<in> set sfx. unit_char c" "sfx \<noteq> []" "n \<le> 9"
    and u: "u \<le> 2 ^ 63"
  shows "parse_pairs orig 0 (fmt_small u n sfx) = Inr u"
proof -
  obtain ft where f: "fmtFrac n u False [] = (ft, u div 10 ^ n)" using fmtFrac_start by blast
  have "parse_pairs orig 0 (fmtInt (u div 10 ^ n) @ ft @ sfx)
      = Inr (0 + (u div 10 ^ n * 10 ^ n + u mod 10 ^ n))"
    by (rule parse_pairs_frac [OF m f]) (use u in \<open>simp only: div_mult_mod_eq add_0\<close>)
  then have "parse_pairs orig 0 (fmtInt (u div 10 ^ n) @ ft @ sfx) = Inr u"
    by (simp only: div_mult_mod_eq add_0)
  then show ?thesis by (simp add: fmt_small_def f)
qed

lemma parse_fmt_large:
  assumes "u \<le> 2 ^ 63"
  shows "parse_pairs orig 0 (fmt_large u) = Inr u"
proof -
  obtain ft where f: "fmtFrac 9 u False [] = (ft, u div 10 ^ 9)" using fmtFrac_start by blast
  define secs mins hrs where "secs = u div 10 ^ 9" and "mins = secs div 60" and "hrs = mins div 60"
  define sr mr nr where "sr = secs mod 60" and "mr = mins mod 60" and "nr = u mod 10 ^ 9"
  note defs = secs_def mins_def hrs_def sr_def mr_def nr_def
  have eqs: "u = secs * 1000000000 + nr" "secs = mins * 60 + sr" "mins = hrs * 60 + mr"
    by (simp_all add: defs)
  have u: "u \<le> 9223372036854775808" using assms by simp
  let ?S = "fmtInt sr @ ft @ ''s''"
  have s: "parse_pairs orig d ?S = Inr (d + (sr * 1000000000 + nr))"
    if "d + (sr * 1000000000 + nr) \<le> 2 ^ 63" for d
    using parse_pairs_frac [of "''s''" 9 u ft _ d sr orig] that f
    by (simp add: unitMap_def unit_chars nr_def)
  have m: "parse_pairs orig d (fmtInt x @ ''m'' @ ?S) = parse_pairs orig (d + x * 60000000000) ?S"
    if "d + x * 60000000000 \<le> 2 ^ 63" for d x
    by (rule parse_pairs_whole) (use that hd_fmtInt in \<open>auto simp: unitMap_def unit_chars\<close>)
  have h: "parse_pairs orig d (fmtInt x @ ''h'' @ fmtInt y @ rest)
      = parse_pairs orig (d + x * 3600000000000) (fmtInt y @ rest)"
    if "d + x * 3600000000000 \<le> 2 ^ 63" for d x y rest
    by (rule parse_pairs_whole) (use that hd_fmtInt in \<open>auto simp: unitMap_def unit_chars\<close>)
  have fl: "fmt_large u = (if 0 < mins then (if 0 < hrs then fmtInt hrs @ ''h'' else []) @
      fmtInt mr @ ''m'' else []) @ ?S"
    by (simp add: fmt_large_def f defs Let_def)
  have hb: "hrs * 3600000000000 \<le> 2 ^ 63" using u eqs by simp
  have mb: "mr * 60000000000 \<le> 2 ^ 63" using u eqs by simp
  consider "mins = 0" | "mins \<noteq> 0" "hrs = 0" | "mins \<noteq> 0" "hrs \<noteq> 0" by blast
  then show ?thesis
  proof cases
    case 1
    then have "parse_pairs orig 0 (fmt_large u) = parse_pairs orig 0 ?S" by (simp add: fl)
    also have "\<dots> = Inr u" using s [of 0] 1 u eqs by simp
    finally show ?thesis .
  next
    case 2
    then have "parse_pairs orig 0 (fmt_large u) = parse_pairs orig (mr * 60000000000) ?S"
      using m [of 0 mr] mb eqs(3) by (simp add: fl)
    also have "\<dots> = Inr u" using s [of "mr * 60000000000"] 2 u eqs by simp
    finally show ?thesis .
  next
    case 3
    then have "parse_pairs orig 0 (fmt_large u)
        = parse_pairs orig (hrs * 3600000000000) (fmtInt mr @ ''m'' @ ?S)"
      using h [of 0 hrs mr "''m'' @ ?S"] hb by (simp add: fl)
    also have "\<dots> = parse_pairs orig (hrs * 3600000000000 + mr * 60000000000) ?S"
      by (rule m) (use u eqs in simp)
    also have "\<dots> = Inr u" using s [of "hrs * 3600000000000 + mr * 60000000000"] u eqs by simp
    finally show ?thesis .
  qed
qed

text \<open>The unsigned text starts with a digit and has a unit, so no special case of the parser applies.\<close>

definition duration_body :: "nat \<Rightarrow> string" where
  "duration_body u =
     (if u < 1000000000 then
        (if u = 0 then ''0s''
         else if u < 1000 then fmt_small u 0 ''ns''
         else if u < 1000000 then fmt_small u 3 [CHR 0xC2, CHR 0xB5, CHR ''s'']
         else fmt_small u 6 ''ms'')
      else fmt_large u)"

lemma Duration_String_body:
  "Duration_String d = (if d < 0 then CHR ''-'' # duration_body (nat \<bar>d\<bar>) else duration_body (nat \<bar>d\<bar>))"
  by (simp add: Duration_String_def duration_body_def Let_def)

lemma fmtInt_0: "fmtInt 0 = ''0''"
  by code_simp

lemma parse_duration_body:
  assumes "u \<le> 2 ^ 63"
  shows "parse_pairs orig 0 (duration_body u) = Inr u"
proof -
  have "parse_pairs orig 0 ''0s'' = Inr 0"
    using parse_pairs_whole [of "''s''" 1000000000 "[]" 0 0 orig]
    by (simp add: fmtInt_0 unitMap_def unit_chars)
  moreover have "parse_pairs orig 0 (fmt_small u 0 ''ns'') = Inr u"
    by (rule parse_fmt_small) (use assms in \<open>simp_all add: unitMap_def unit_chars\<close>)
  moreover have "parse_pairs orig 0 (fmt_small u 3 [CHR 0xC2, CHR 0xB5, CHR ''s'']) = Inr u"
    by (rule parse_fmt_small) (use assms in \<open>simp_all add: unitMap_def unit_chars\<close>)
  moreover have "parse_pairs orig 0 (fmt_small u 6 ''ms'') = Inr u"
    by (rule parse_fmt_small) (use assms in \<open>simp_all add: unitMap_def unit_chars\<close>)
  ultimately show ?thesis using parse_fmt_large [OF assms] by (simp add: duration_body_def)
qed

lemma duration_body_hd: "duration_body u \<noteq> [] \<and> digit (hd (duration_body u))"
proof -
  have i: "fmtInt v @ rest \<noteq> [] \<and> digit (hd (fmtInt v @ rest))" for v rest
    using hd_fmtInt fmtInt_nonempty by simp
  have "fmt_small v n sfx \<noteq> [] \<and> digit (hd (fmt_small v n sfx))" for v n sfx
    unfolding fmt_small_def split_beta Let_def by (rule i)
  moreover have "fmt_large v \<noteq> [] \<and> digit (hd (fmt_large v))" for v
    using i by (auto simp: fmt_large_def split_beta Let_def)
  ultimately show ?thesis by (simp add: duration_body_def digit_def)
qed

lemma duration_body_last: "\<exists>p. duration_body u = p @ ''s''"
proof -
  have "\<exists>p. fmt_small v n (q @ ''s'') = p @ ''s''" for v n q
    by (simp add: fmt_small_def split_beta)
  from this [of u 0 "''n''"] this [of u 3 "[CHR 0xC2, CHR 0xB5]"] this [of u 6 "''m''"]
  show ?thesis by (auto simp: duration_body_def fmt_large_def split_beta Let_def)
qed

text \<open>
  Parsing a printed duration gives it back, over the whole range of \<^verbatim>\<open>time.Duration\<close>.
\<close>

lemma ParseDuration_String:
  assumes "- (2 ^ 63) \<le> d" "d < 2 ^ 63"
  shows "ParseDuration (Duration_String d) = Inr d"
proof -
  let ?b = "duration_body (nat \<bar>d\<bar>)"
  have le: "nat \<bar>d\<bar> \<le> 2 ^ 63" using assms by simp
  note p = parse_duration_body [OF le]
  have b: "?b \<noteq> []" "digit (hd ?b)" using duration_body_hd by auto
  then have nosign: "hd ?b \<noteq> CHR ''-''" "hd ?b \<noteq> CHR ''+''" by (auto simp: digit_def)
  obtain q where q: "?b = q @ ''s''" using duration_body_last by blast
  then have "last ?b = CHR ''s''" by simp
  then have n0: "?b \<noteq> ''0''" by auto
  show ?thesis
  proof (cases "d < 0")
    case True
    then show ?thesis using b n0 p by (simp add: ParseDuration_def Duration_String_body)
  next
    case False
    then have "nat \<bar>d\<bar> \<le> 2 ^ 63 - 1" using assms by simp
    then show ?thesis
      using False b n0 p nosign by (simp add: ParseDuration_def Duration_String_body)
  qed
qed

end
