(* ===== verification/Config.thy ===== *)
theory Config
  imports Pattern GoDuration
begin

text \<open>
  The configuration: \<open>internal/config/sshkey.go\<close>, \<open>duration.go\<close> and \<open>config.go\<close>. Key parsing is
  that of \<open>golang.org/x/crypto/ssh\<close>, and the file system and \<open>HOME\<close> belong to the process; all
  of them are fields of the argument \<open>key_env\<close>. A public key is its wire encoding, a signer an
  opaque token.
\<close>

section \<open>SSH keys\<close>

type_synonym PublicKey = string
type_synonym Signer = string

record SSHKey =
  Raw :: string
  Path :: string
  Fingerprint :: string
  key_PublicKey :: "PublicKey option"
  key_Signer :: "Signer option"

record key_env =
  ReadFile :: "string \<Rightarrow> string result"
  HOME :: string
  ParsePrivateKey :: "string \<Rightarrow> Signer result"
  ParseAuthorizedKey :: "string \<Rightarrow> PublicKey result"
  ParsePublicKey :: "string \<Rightarrow> PublicKey result"
  Signer_PublicKey :: "Signer \<Rightarrow> PublicKey"

definition zero_SSHKey :: SSHKey where
  "zero_SSHKey =
     \<lparr>Raw = [], Path = [], Fingerprint = [], key_PublicKey = None, key_Signer = None\<rparr>"

definition SSHKey_IsZero :: "SSHKey \<Rightarrow> bool" where
  "SSHKey_IsZero k \<longleftrightarrow>
     Raw k = [] \<and> Path k = [] \<and> Fingerprint k = [] \<and> key_PublicKey k = None \<and> key_Signer k = None"

definition looksLikeSSHKeyLiteral :: "string \<Rightarrow> bool" where
  "looksLikeSSHKeyLiteral value \<longleftrightarrow>
     Contains value ''-----BEGIN '' \<or> HasPrefix value ''ssh-'' \<or> HasPrefix value ''ecdsa-'' \<or>
     HasPrefix value ''sk-''"

text \<open>\<open>os.UserHomeDir\<close> fails when \<open>HOME\<close> is empty.\<close>

definition expandHome :: "key_env \<Rightarrow> string \<Rightarrow> string" where
  "expandHome E path =
     (if path \<noteq> ''~'' \<and> \<not> HasPrefix path ''~/'' then path
      else if HOME E = [] then path
      else if path = ''~'' then HOME E
      else HOME E @ drop 1 path)"

text \<open>Lines 55 to 69: the three parsers in order, on the literal or the file's bytes.\<close>

definition parse_key_data :: "key_env \<Rightarrow> SSHKey \<Rightarrow> string \<Rightarrow> SSHKey result" where
  "parse_key_data E key data =
     (case ParsePrivateKey E data of
        Inr signer \<Rightarrow>
          Inr (key\<lparr>key_Signer := Some signer, key_PublicKey := Some (Signer_PublicKey E signer)\<rparr>)
      | Inl _ \<Rightarrow>
          (case ParseAuthorizedKey E data of
             Inr pub \<Rightarrow> Inr (key\<lparr>key_PublicKey := Some pub\<rparr>)
           | Inl _ \<Rightarrow>
               (case ParsePublicKey E data of
                  Inl err \<Rightarrow> Inl (Wrapf [T ''parse ssh key: ''] err)
                | Inr pub \<Rightarrow> Inr (key\<lparr>key_PublicKey := Some pub\<rparr>))))"

definition ParseSSHKey :: "key_env \<Rightarrow> string \<Rightarrow> SSHKey result" where
  "ParseSSHKey E raw0 =
     (let key = zero_SSHKey\<lparr>Raw := raw0\<rparr>; raw = TrimSpace raw0 in
      if raw = [] then Inr key
      else if HasPrefix raw ''SHA256:'' then Inr (key\<lparr>Fingerprint := raw\<rparr>)
      else if \<not> looksLikeSSHKeyLiteral raw then
        (let path = expandHome E raw in
         case ReadFile E path of
           Inl err \<Rightarrow> Inl (Wrapf [T ''read ssh key '', Q raw, T '': ''] err)
         | Inr fileData \<Rightarrow> parse_key_data E (key\<lparr>Path := path\<rparr>) fileData)
      else parse_key_data E key raw)"

definition SSHKey_UnmarshalJSON :: "key_env \<Rightarrow> json \<Rightarrow> SSHKey result" where
  "SSHKey_UnmarshalJSON E data =
     (case json_string data of
        None \<Rightarrow> Inl (External ''json: cannot unmarshal value into Go value of type string'')
      | Some raw \<Rightarrow> ParseSSHKey E raw)"

section \<open>Durations\<close>

definition Duration_UnmarshalJSON :: "json \<Rightarrow> int result" where
  "Duration_UnmarshalJSON data =
     (case json_string data of
        None \<Rightarrow> Inl (Errorf [T ''expected duration string''])
      | Some value \<Rightarrow>
          if value = [] then Inr 0
          else
            (case ParseDuration value of
               Inl err \<Rightarrow> Inl (Wrapf [T ''parse duration '', Q value, T '': ''] err)
             | Inr parsed \<Rightarrow> Inr parsed))"

section \<open>The configuration\<close>

record AuthEntry =
  auth_Key :: SSHKey
  auth_Password :: string
  auth_Role :: "string list"

record RunEntry =
  run_Cmd :: string
  run_Pty :: "bool option"

record ProxyEntry =
  proxy_Host :: string
  proxy_User :: string
  proxy_Password :: string
  proxy_Key :: SSHKey
  proxy_HostKey :: "string list"

record CloudEntry =
  cloud_Provider :: string
  cloud_Image :: string
  cloud_Metro :: string
  cloud_MemoryMB :: int
  cloud_SessionTTL :: int
  cloud_MaxInstances :: int

record RouteEntry =
  route_Username :: Pattern
  route_Role :: string
  route_Run :: RunEntry
  route_Proxy :: ProxyEntry
  route_Cloud :: CloudEntry

record Config =
  cfg_Auth :: "AuthEntry list"
  cfg_Routes :: "RouteEntry list"

text \<open>The number of handlers a route sets (the variable \<open>targets\<close>).\<close>

definition route_targets :: "RouteEntry \<Rightarrow> nat" where
  "route_targets route =
     (if run_Cmd (route_Run route) \<noteq> [] then 1 else 0)
     + (if proxy_Host (route_Proxy route) \<noteq> [] then 1 else 0)
     + (if cloud_Provider (route_Cloud route) \<noteq> [] then 1 else 0)"

text \<open>The body of the loop of \<open>validate\<close> for the route at index \<open>i\<close>.\<close>

definition validate_route :: "nat \<Rightarrow> RouteEntry \<Rightarrow> error option" where
  "validate_route i route =
     (if route_targets route \<noteq> 1 then
        Some (Errorf [T ''route '', D (int i), T '' must set exactly one of run, proxy, or cloud''])
      else if cloud_Provider (route_Cloud route) \<noteq> [] \<and>
              cloud_Provider (route_Cloud route) \<noteq> ''unikraft'' then
        Some (Errorf [T ''route '', D (int i), T '' cloud provider '',
                      Q (cloud_Provider (route_Cloud route)), T '' is not supported''])
      else if cloud_MaxInstances (route_Cloud route) < 0 then
        Some (Errorf [T ''route '', D (int i), T '' cloud.max_instances must be non-negative''])
      else if Fingerprint (proxy_Key (route_Proxy route)) \<noteq> [] then
        Some (Errorf [T ''route '', D (int i),
                      T '' proxy.key must be a literal key or path, not a fingerprint''])
      else None)"

fun validate_from :: "nat \<Rightarrow> RouteEntry list \<Rightarrow> error option" where
  "validate_from i [] = None"
| "validate_from i (route # routes) =
     (case validate_route i route of Some err \<Rightarrow> Some err | None \<Rightarrow> validate_from (Suc i) routes)"

definition Config_validate :: "Config \<Rightarrow> error option" where
  "Config_validate c = validate_from 0 (cfg_Routes c)"

text \<open>\<open>Load\<close>: the file is read from disk; the YAML decoder is \<open>sigs.k8s.io/yaml\<close>.\<close>

definition Load :: "(string \<Rightarrow> string result) \<Rightarrow> (string \<Rightarrow> Config result) \<Rightarrow> string \<Rightarrow> Config result" where
  "Load read_file unmarshalStrict path =
     (case read_file path of
        Inl err \<Rightarrow> Inl (Wrapf [T ''read config: ''] err)
      | Inr data \<Rightarrow>
          (case unmarshalStrict data of
             Inl err \<Rightarrow> Inl (Wrapf [T ''parse config: ''] err)
           | Inr cfg \<Rightarrow>
               (case Config_validate cfg of
                  Some err \<Rightarrow> Inl err
                | None \<Rightarrow> Inr cfg)))"

section \<open>What validation gives\<close>

definition valid_route :: "RouteEntry \<Rightarrow> bool" where
  "valid_route route \<longleftrightarrow>
     route_targets route = 1 \<and>
     cloud_Provider (route_Cloud route) \<in> {[], ''unikraft''} \<and>
     0 \<le> cloud_MaxInstances (route_Cloud route) \<and>
     Fingerprint (proxy_Key (route_Proxy route)) = []"

definition valid_config :: "Config \<Rightarrow> bool" where
  "valid_config c \<longleftrightarrow> (\<forall>route \<in> set (cfg_Routes c). valid_route route)"

lemma validate_route_None: "validate_route i route = None \<longleftrightarrow> valid_route route"
  by (auto simp: validate_route_def valid_route_def)

lemma validate_route_Some: "validate_route i route = Some err \<Longrightarrow> \<not> valid_route route"
  using validate_route_None [of i route] by auto

lemma validate_from_None: "validate_from i routes = None \<longleftrightarrow> (\<forall>route \<in> set routes. valid_route route)"
  by (induction routes arbitrary: i) (auto simp: validate_route_None dest: validate_route_Some split: option.splits)

lemma Config_validate_None: "Config_validate c = None \<longleftrightarrow> valid_config c"
  by (simp add: Config_validate_def valid_config_def validate_from_None)

lemma validate_from_Some:
  "validate_from i routes = Some err \<longleftrightarrow>
   (\<exists>k < length routes. validate_route (i + k) (routes ! k) = Some err \<and>
      (\<forall>j < k. valid_route (routes ! j)))"
proof (induction routes arbitrary: i)
  case Nil
  then show ?case by simp
next
  case (Cons route routes)
  show ?case
  proof (cases "validate_route i route")
    case None
    then have v: "valid_route route" by (simp add: validate_route_None)
    show ?thesis
      unfolding length_Cons Ex_less_Suc2 All_less_Suc2 using None v Cons [of "Suc i"]
      by (auto simp: All_less_Suc2)
  next
    case (Some e)
    then have v: "\<not> valid_route route" by (rule validate_route_Some)
    show ?thesis
      unfolding length_Cons Ex_less_Suc2 using Some v by (auto simp: All_less_Suc2)
  qed
qed

lemma valid_route_handler:
  "valid_route route \<Longrightarrow>
   (run_Cmd (route_Run route) \<noteq> [] \<and> proxy_Host (route_Proxy route) = [] \<and> cloud_Provider (route_Cloud route) = []) \<or>
   (run_Cmd (route_Run route) = [] \<and> proxy_Host (route_Proxy route) \<noteq> [] \<and> cloud_Provider (route_Cloud route) = []) \<or>
   (run_Cmd (route_Run route) = [] \<and> proxy_Host (route_Proxy route) = [] \<and> cloud_Provider (route_Cloud route) = ''unikraft'')"
  by (auto simp: valid_route_def route_targets_def split: if_splits)

lemma Load_valid: "Load rf un path = Inr c \<Longrightarrow> valid_config c"
  by (auto simp: Load_def Config_validate_None split: sum.splits option.splits)

section \<open>What key parsing gives\<close>

text \<open>
  The forms a parsed key can have: blank, a fingerprint alone, or key material, in which case the
  public key is known and belongs to the signer when there is one.
\<close>

definition wf_SSHKey :: "key_env \<Rightarrow> SSHKey \<Rightarrow> bool" where
  "wf_SSHKey E k \<longleftrightarrow>
     (Fingerprint k \<noteq> [] \<longrightarrow> key_PublicKey k = None \<and> key_Signer k = None \<and> Path k = []) \<and>
     (\<forall>signer. key_Signer k = Some signer \<longrightarrow> key_PublicKey k = Some (Signer_PublicKey E signer)) \<and>
     (key_PublicKey k = None \<longrightarrow> Path k = [])"

lemma parse_key_data_fields:
  "parse_key_data E key data = Inr k \<Longrightarrow>
   Raw k = Raw key \<and> Path k = Path key \<and> Fingerprint k = Fingerprint key \<and>
   key_PublicKey k \<noteq> None \<and>
   (key_Signer key = None \<longrightarrow>
     (\<forall>signer. key_Signer k = Some signer \<longrightarrow> key_PublicKey k = Some (Signer_PublicKey E signer)))"
  by (auto simp: parse_key_data_def split: sum.splits)

lemma ParseSSHKey_wf:
  assumes "ParseSSHKey E raw = Inr k"
  shows "wf_SSHKey E k \<and> Raw k = raw"
  using assms
  by (auto simp: ParseSSHKey_def wf_SSHKey_def zero_SSHKey_def Let_def
      split: if_splits sum.splits dest!: parse_key_data_fields)

lemma ParseSSHKey_blank_iff:
  assumes "ParseSSHKey E raw = Inr k"
  shows "key_PublicKey k = None \<and> Fingerprint k = [] \<longleftrightarrow> TrimSpace raw = []"
  using assms
  by (auto simp: ParseSSHKey_def zero_SSHKey_def Let_def
      split: if_splits sum.splits dest!: parse_key_data_fields)

section \<open>The range of parsed durations\<close>

lemma parse_pairs_cases:
  assumes "parse_pairs orig d s = Inr r"
  shows "s = [] \<and> r = d \<or>
    (\<exists>d' s'. d' \<le> 2 ^ 63 \<and> length s' < length s \<and> parse_pairs orig d' s' = Inr r)"
proof (cases "s = []")
  case False
  with assms obtain v s1 where v: "leadingInt 0 s = Some (v, s1)"
    by (subst (asm) parse_pairs.simps) (auto split: if_splits option.splits)
  define dot where "dot = (s1 \<noteq> [] \<and> hd s1 = CHR ''.'')"
  obtain f scale s2 where f:
    "(f, scale, s2) = (if dot then leadingFraction 0 1 False (tl s1) else (0, 1, s1))"
    by (metis prod_cases3)
  note unfold = parse_pairs.simps [of orig d s, unfolded v option.case prod.case Let_def,
      folded dot_def, folded f, unfolded prod.case]
  from assms False obtain d' where "takeWhile unit_char s2 \<noteq> []" "d' \<le> 2 ^ 63"
    "parse_pairs orig d' (dropWhile unit_char s2) = Inr r"
    by (auto simp: unfold not_less split: if_splits option.splits)
  with pairs_shrink [OF v _ f] show ?thesis by blast
qed (use assms in simp)

lemma parse_pairs_bound: "parse_pairs orig d s = Inr r \<Longrightarrow> d \<le> 2 ^ 63 \<Longrightarrow> r \<le> 2 ^ 63"
proof (induction s arbitrary: d rule: length_induct)
  case (1 s)
  then show ?case using parse_pairs_cases [OF 1(2)] by auto
qed

lemma ParseDuration_range: "ParseDuration s = Inr d \<Longrightarrow> - (2 ^ 63) \<le> d \<and> d < 2 ^ 63"
  by (auto simp: ParseDuration_def Let_def split: if_splits sum.splits dest!: parse_pairs_bound)

end
