(* ===== verification/Router.thy ===== *)
theory Router
  imports Config "HOL-Library.Word"
begin

text \<open>
  The connection context and the choice of a route: \<open>internal/server/role.go\<close> and the lookup
  functions of \<open>internal/server/router.go\<close>. The context stores the roles under a private key and,
  for every session (numbered), the PTY request the client made. What the callers rely on is the
  interface \<open>first_match\<close>: the route returned is the first one whose pattern matches.
\<close>

section \<open>Terminals and the connection context\<close>

record Window =
  Width :: int
  Height :: int
  WidthPixels :: int
  HeightPixels :: int

type_synonym TerminalModes = "(8 word \<times> 32 word) list"

record Pty =
  pty_Term :: string
  pty_Window :: Window
  pty_Modes :: TerminalModes

record Context =
  ctx_roles :: "string list option"
  ctx_pty :: "nat \<Rightarrow> Pty option"

definition new_Context :: Context where
  "new_Context = \<lparr>ctx_roles = None, ctx_pty = (\<lambda>_. None)\<rparr>"

definition ContextWithRoles :: "Context \<Rightarrow> string list \<Rightarrow> Context" where
  "ContextWithRoles ctx roles = ctx\<lparr>ctx_roles := Some roles\<rparr>"

definition RolesFromContext :: "Context \<Rightarrow> string list" where
  "RolesFromContext ctx = (case ctx_roles ctx of None \<Rightarrow> [] | Some r \<Rightarrow> r)"

lemma roles_get_set [simp]: "RolesFromContext (ContextWithRoles ctx roles) = roles"
  by (simp add: RolesFromContext_def ContextWithRoles_def)

lemma roles_set_set [simp]:
  "ContextWithRoles (ContextWithRoles ctx roles) roles' = ContextWithRoles ctx roles'"
  by (simp add: ContextWithRoles_def)

lemma roles_new [simp]: "RolesFromContext new_Context = []"
  by (simp add: RolesFromContext_def new_Context_def)

section \<open>Choosing a route\<close>

definition matchesRouteSession :: "regexp_engine \<Rightarrow> RouteEntry \<Rightarrow> string \<Rightarrow> bool" where
  "matchesRouteSession E route username = Pattern_Match E (route_Username route) username"

definition routeRoleAllowed :: "RouteEntry \<Rightarrow> string list \<Rightarrow> bool" where
  "routeRoleAllowed route roles \<longleftrightarrow> route_Role route = [] \<or> route_Role route \<in> set roles"

fun find_route_from :: "regexp_engine \<Rightarrow> nat \<Rightarrow> RouteEntry list \<Rightarrow> string \<Rightarrow> (RouteEntry \<times> nat) option" where
  "find_route_from E i [] username = None"
| "find_route_from E i (route # routes) username =
     (if matchesRouteSession E route username then Some (route, i)
      else find_route_from E (Suc i) routes username)"

text \<open>The roles are a parameter the code does not read.\<close>

definition findRouteIndex :: "regexp_engine \<Rightarrow> Config \<Rightarrow> string \<Rightarrow> string list \<Rightarrow> (RouteEntry \<times> nat) option" where
  "findRouteIndex E cfg username roles = find_route_from E 0 (cfg_Routes cfg) username"

definition findRoute :: "regexp_engine \<Rightarrow> Config \<Rightarrow> string \<Rightarrow> string list \<Rightarrow> RouteEntry option" where
  "findRoute E cfg username roles = map_option fst (findRouteIndex E cfg username [])"

section \<open>The interface of the lookup\<close>

locale first_match =
  fixes lookup :: "'r list \<Rightarrow> 'u \<Rightarrow> ('r \<times> nat) option"
    and matches :: "'r \<Rightarrow> 'u \<Rightarrow> bool"
  assumes lookup_iff: "lookup rs u = Some (r, i) \<longleftrightarrow>
    i < length rs \<and> r = rs ! i \<and> matches r u \<and> (\<forall>j < i. \<not> matches (rs ! j) u)"
begin

lemma lookup_None: "lookup rs u = None \<longleftrightarrow> (\<forall>r \<in> set rs. \<not> matches r u)"
proof
  assume none: "lookup rs u = None"
  show "\<forall>r \<in> set rs. \<not> matches r u"
  proof (rule ccontr)
    assume "\<not> (\<forall>r \<in> set rs. \<not> matches r u)"
    then obtain k where k: "k < length rs" "matches (rs ! k) u" by (metis in_set_conv_nth)
    define i where "i = (LEAST k. k < length rs \<and> matches (rs ! k) u)"
    have "i < length rs \<and> matches (rs ! i) u" unfolding i_def using k by (intro LeastI) blast
    moreover have "\<forall>j < i. \<not> matches (rs ! j) u"
      using calculation unfolding i_def by (metis (no_types, lifting) not_less_Least order_less_trans)
    ultimately show False using none lookup_iff [of rs u "rs ! i" i] by simp
  qed
next
  assume "\<forall>r \<in> set rs. \<not> matches r u"
  then show "lookup rs u = None"
    by (cases "lookup rs u") (auto simp: lookup_iff dest!: nth_mem)
qed

lemma lookup_member: "lookup rs u = Some (r, i) \<Longrightarrow> r \<in> set rs \<and> matches r u"
  by (auto simp: lookup_iff)

text \<open>Routes after the selected one play no part.\<close>

lemma lookup_append: "lookup rs u = Some (r, i) \<Longrightarrow> lookup (rs @ ts) u = Some (r, i)"
  by (auto simp: lookup_iff nth_append)

lemma lookup_skip:
  "\<forall>r \<in> set rs. \<not> matches r u \<Longrightarrow> lookup (rs @ r # ts) u = Some (r, length rs) \<longleftrightarrow> matches r u"
  by (auto simp: lookup_iff nth_append)

end

lemma find_route_from_iff:
  "find_route_from E k rs u = Some (r, i) \<longleftrightarrow>
   (\<exists>n. i = k + n \<and> n < length rs \<and> r = rs ! n \<and> matchesRouteSession E r u \<and>
      (\<forall>j < n. \<not> matchesRouteSession E (rs ! j) u))"
proof (induction rs arbitrary: k)
  case (Cons a rs)
  show ?case
  proof (cases "matchesRouteSession E a u")
    case True
    then show ?thesis by (auto simp: less_Suc_eq_0_disj nth_Cons' split: if_splits)
  next
    case False
    show ?thesis (is "?l \<longleftrightarrow> ?r")
    proof
      assume ?l
      with False Cons obtain n where "i = Suc k + n" "n < length rs" "r = rs ! n"
        "matchesRouteSession E r u" "\<forall>j < n. \<not> matchesRouteSession E (rs ! j) u" by auto
      with False show ?r by (intro exI [of _ "Suc n"]) (auto simp: less_Suc_eq_0_disj)
    next
      assume ?r
      then obtain n where n: "i = k + n" "n < length (a # rs)" "r = (a # rs) ! n"
        "matchesRouteSession E r u" "\<forall>j < n. \<not> matchesRouteSession E ((a # rs) ! j) u" by blast
      with False obtain m where "n = Suc m" by (cases n) auto
      with n False Cons show ?l by auto
    qed
  qed
qed simp

interpretation routing: first_match "find_route_from E 0" "matchesRouteSession E" for E
  by unfold_locales (simp add: find_route_from_iff)

lemma findRouteIndex_iff:
  "findRouteIndex E cfg u roles = Some (r, i) \<longleftrightarrow>
   i < length (cfg_Routes cfg) \<and> r = cfg_Routes cfg ! i \<and> matchesRouteSession E r u \<and>
   (\<forall>j < i. \<not> matchesRouteSession E (cfg_Routes cfg ! j) u)"
  unfolding findRouteIndex_def by (rule routing.lookup_iff)

lemma findRouteIndex_None:
  "findRouteIndex E cfg u roles = None \<longleftrightarrow> (\<forall>r \<in> set (cfg_Routes cfg). \<not> matchesRouteSession E r u)"
  unfolding findRouteIndex_def by (rule routing.lookup_None)

lemma findRoute_member:
  "findRoute E cfg u roles = Some r \<Longrightarrow> r \<in> set (cfg_Routes cfg) \<and> matchesRouteSession E r u"
  unfolding findRoute_def findRouteIndex_def by (auto dest: routing.lookup_member)

end
