(* ===== verification/Auth.thy ===== *)
theory Auth
  imports Router
begin

text \<open>
  Authentication: \<open>internal/server/auth.go\<close>. The callbacks run inside the SSH library, which may
  call them any number of times on one connection; each returns the connection context it leaves
  behind and either permissions or an error. Fingerprints, key comparison and password hashing
  are library code and belong to the argument \<open>auth_env\<close>.
\<close>

section \<open>Base64\<close>

definition base64_char :: "nat \<Rightarrow> char" where
  "base64_char n =
     ''ABCDEFGHIJKLMNOPQRSTUVWXYZabcdefghijklmnopqrstuvwxyz0123456789+/'' ! n"

text \<open>\<open>base64.StdEncoding.EncodeToString\<close>\<close>

fun base64_encode :: "string \<Rightarrow> string" where
  "base64_encode [] = []"
| "base64_encode [a] =
     (let n = byte a in [base64_char (n div 4), base64_char (n mod 4 * 16), CHR ''='', CHR ''=''])"
| "base64_encode [a, b] =
     (let n = byte a * 256 + byte b in
      [base64_char (n div 1024), base64_char (n div 16 mod 64), base64_char (n mod 16 * 4), CHR ''=''])"
| "base64_encode (a # b # c # s) =
     (let n = byte a * 65536 + byte b * 256 + byte c in
      [base64_char (n div 262144), base64_char (n div 4096 mod 64), base64_char (n div 64 mod 64),
       base64_char (n mod 64)] @ base64_encode s)"

section \<open>The environment and the callbacks' types\<close>

record auth_env =
  engine :: regexp_engine
  FingerprintSHA256 :: "PublicKey \<Rightarrow> string"
  KeysEqual :: "PublicKey \<Rightarrow> PublicKey \<Rightarrow> bool"
  DefaultSystems :: "(string \<Rightarrow> (string \<Rightarrow> bool) option) list"

type_synonym Permissions = "(string \<times> string) list"
type_synonym 'c auth_callback = "Context \<Rightarrow> 'c \<Rightarrow> Context \<times> Permissions result"

record ServerAuthCallbacks =
  PublicKeyCallback :: "PublicKey auth_callback option"
  PasswordCallback :: "string auth_callback option"

definition permission_denied :: error where
  "permission_denied = Errorf [T ''permission denied'']"

section \<open>Roles of a credential\<close>

fun usernameMatchingRoutes_from :: "regexp_engine \<Rightarrow> RouteEntry list \<Rightarrow> string \<Rightarrow> RouteEntry list" where
  "usernameMatchingRoutes_from E [] username = []"
| "usernameMatchingRoutes_from E (route # routes) username =
     (if Pattern_Match E (route_Username route) username
      then route # usernameMatchingRoutes_from E routes username
      else usernameMatchingRoutes_from E routes username)"

definition usernameMatchingRoutes :: "regexp_engine \<Rightarrow> Config \<Rightarrow> string \<Rightarrow> RouteEntry list" where
  "usernameMatchingRoutes E cfg username = usernameMatchingRoutes_from E (cfg_Routes cfg) username"

definition routesArePublic :: "RouteEntry list \<Rightarrow> bool" where
  "routesArePublic routes \<longleftrightarrow> list_all (\<lambda>route. \<not> route_Role route \<noteq> []) routes"

fun publicKeyRoles_from :: "auth_env \<Rightarrow> AuthEntry list \<Rightarrow> PublicKey \<Rightarrow> string list \<Rightarrow> string list" where
  "publicKeyRoles_from X [] key roles = roles"
| "publicKeyRoles_from X (auth # auths) key roles =
     (let fp = FingerprintSHA256 X key in
      if Fingerprint (auth_Key auth) \<noteq> [] \<and> Fingerprint (auth_Key auth) = fp
      then publicKeyRoles_from X auths key (roles @ auth_Role auth)
      else if (case key_PublicKey (auth_Key auth) of None \<Rightarrow> False | Some pk \<Rightarrow> KeysEqual X key pk)
      then publicKeyRoles_from X auths key (roles @ auth_Role auth)
      else publicKeyRoles_from X auths key roles)"

definition publicKeyRoles :: "auth_env \<Rightarrow> Config \<Rightarrow> PublicKey \<Rightarrow> string list" where
  "publicKeyRoles X cfg key = publicKeyRoles_from X (cfg_Auth cfg) key []"

text \<open>The first password system that parses the stored text decides.\<close>

fun matchPassword_systems :: "(string \<Rightarrow> (string \<Rightarrow> bool) option) list \<Rightarrow> string \<Rightarrow> string \<Rightarrow> bool" where
  "matchPassword_systems [] stored password = False"
| "matchPassword_systems (parser # parsers) stored password =
     (case parser stored of
        None \<Rightarrow> matchPassword_systems parsers stored password
      | Some parsed \<Rightarrow> parsed password)"

definition matchPassword :: "auth_env \<Rightarrow> string \<Rightarrow> string \<Rightarrow> bool" where
  "matchPassword X stored password = matchPassword_systems (DefaultSystems X) stored password"

fun passwordRoles_from :: "auth_env \<Rightarrow> AuthEntry list \<Rightarrow> string \<Rightarrow> string list \<Rightarrow> string list" where
  "passwordRoles_from X [] password roles = roles"
| "passwordRoles_from X (auth # auths) password roles =
     (if auth_Password auth \<noteq> [] \<and> matchPassword X (auth_Password auth) password
      then passwordRoles_from X auths password (roles @ auth_Role auth)
      else passwordRoles_from X auths password roles)"

definition passwordRoles :: "auth_env \<Rightarrow> Config \<Rightarrow> string \<Rightarrow> string list" where
  "passwordRoles X cfg password = passwordRoles_from X (cfg_Auth cfg) password []"

fun passwordAuthRoles_from :: "AuthEntry list \<Rightarrow> string list \<Rightarrow> string list" where
  "passwordAuthRoles_from [] roles = roles"
| "passwordAuthRoles_from (auth # auths) roles =
     passwordAuthRoles_from auths (if auth_Password auth \<noteq> [] then roles @ auth_Role auth else roles)"

definition passwordAuthRoles :: "Config \<Rightarrow> string list" where
  "passwordAuthRoles cfg = passwordAuthRoles_from (cfg_Auth cfg) []"

fun some_password_route :: "regexp_engine \<Rightarrow> string list \<Rightarrow> RouteEntry list \<Rightarrow> string \<Rightarrow> bool" where
  "some_password_route E pwRoles [] username = False"
| "some_password_route E pwRoles (route # routes) username =
     (if \<not> Pattern_Match E (route_Username route) username
      then some_password_route E pwRoles routes username
      else if route_Role route \<noteq> [] \<and> route_Role route \<in> set pwRoles then True
      else some_password_route E pwRoles routes username)"

definition passwordAllowedForUsername :: "regexp_engine \<Rightarrow> Config \<Rightarrow> string \<Rightarrow> bool" where
  "passwordAllowedForUsername E cfg username =
     (let pwRoles = passwordAuthRoles cfg in
      if length pwRoles = 0 then False
      else some_password_route E pwRoles (cfg_Routes cfg) username)"

definition canReachRoute :: "regexp_engine \<Rightarrow> Config \<Rightarrow> string \<Rightarrow> string list \<Rightarrow> bool" where
  "canReachRoute E cfg username roles =
     list_ex (\<lambda>route. Pattern_Match E (route_Username route) username \<and> routeRoleAllowed route roles)
       (cfg_Routes cfg)"

section \<open>The callbacks\<close>

definition publicKeyPermissions :: "PublicKey \<Rightarrow> Permissions" where
  "publicKeyPermissions key = [(''gliderlabs/ssh.PublicKey'', base64_encode key)]"

definition applyRoles :: "Context \<Rightarrow> string list \<Rightarrow> Context \<times> bool" where
  "applyRoles ctx roles =
     (if length roles = 0 then (ctx, False) else (ContextWithRoles ctx roles, True))"

text \<open>
  The test shared by the two callbacks, \<open>!canReachRoute(...) || !applyRoles(ctx, roles)\<close>: the
  right operand, which writes the context, is evaluated only when the route is reachable.
\<close>

definition grant :: "regexp_engine \<Rightarrow> Config \<Rightarrow> string \<Rightarrow> Context \<Rightarrow> string list \<Rightarrow> Permissions \<Rightarrow> Context \<times> Permissions result" where
  "grant E cfg username ctx roles perms =
     (if \<not> canReachRoute E cfg username roles then (ctx, Inl permission_denied)
      else
        let (ctx', ok) = applyRoles ctx roles in
        if \<not> ok then (ctx', Inl permission_denied) else (ctx', Inr perms))"

definition publicKeyCallback :: "auth_env \<Rightarrow> Config \<Rightarrow> string \<Rightarrow> PublicKey auth_callback" where
  "publicKeyCallback X cfg username ctx key =
     grant (engine X) cfg username ctx (publicKeyRoles X cfg key) (publicKeyPermissions key)"

definition passwordCallback :: "auth_env \<Rightarrow> Config \<Rightarrow> string \<Rightarrow> string auth_callback" where
  "passwordCallback X cfg username ctx password =
     grant (engine X) cfg username ctx (passwordRoles X cfg password) []"

definition authCallbacks :: "auth_env \<Rightarrow> Config \<Rightarrow> string \<Rightarrow> ServerAuthCallbacks \<times> bool" where
  "authCallbacks X cfg username =
     (let candidates = usernameMatchingRoutes (engine X) cfg username in
      if 0 < length candidates \<and> routesArePublic candidates then
        (\<lparr>PublicKeyCallback = None, PasswordCallback = None\<rparr>, True)
      else
        (\<lparr>PublicKeyCallback = Some (publicKeyCallback X cfg username),
          PasswordCallback =
            (if passwordAllowedForUsername (engine X) cfg username
             then Some (passwordCallback X cfg username) else None)\<rparr>, False))"

text \<open>
  The \<open>NoClientAuthCallback\<close> of \<open>WithAuth\<close>: permissions, or a partial success with the callbacks
  to continue with.
\<close>

definition noClientAuth :: "auth_env \<Rightarrow> Config \<Rightarrow> string \<Rightarrow> ServerAuthCallbacks + Permissions" where
  "noClientAuth X cfg username =
     (case authCallbacks X cfg username of
        (next_callbacks, public) \<Rightarrow> if public then Inr [] else Inl next_callbacks)"

section \<open>Roles in closed form\<close>

definition entry_accepts_key :: "auth_env \<Rightarrow> PublicKey \<Rightarrow> AuthEntry \<Rightarrow> bool" where
  "entry_accepts_key X key auth \<longleftrightarrow>
     (Fingerprint (auth_Key auth) \<noteq> [] \<and> Fingerprint (auth_Key auth) = FingerprintSHA256 X key) \<or>
     (\<exists>pk. key_PublicKey (auth_Key auth) = Some pk \<and> KeysEqual X key pk)"

definition entry_accepts_password :: "auth_env \<Rightarrow> string \<Rightarrow> AuthEntry \<Rightarrow> bool" where
  "entry_accepts_password X password auth \<longleftrightarrow>
     auth_Password auth \<noteq> [] \<and> matchPassword X (auth_Password auth) password"

definition granted_roles :: "(AuthEntry \<Rightarrow> bool) \<Rightarrow> Config \<Rightarrow> string list" where
  "granted_roles accepts cfg = concat (map auth_Role (filter accepts (cfg_Auth cfg)))"

lemma publicKeyRoles_from_eq:
  "publicKeyRoles_from X auths key roles =
   roles @ concat (map auth_Role (filter (entry_accepts_key X key) auths))"
  by (induction auths arbitrary: roles)
    (auto simp: entry_accepts_key_def Let_def split: option.splits)

lemma publicKeyRoles_eq: "publicKeyRoles X cfg key = granted_roles (entry_accepts_key X key) cfg"
  by (simp add: publicKeyRoles_def publicKeyRoles_from_eq granted_roles_def)

lemma passwordRoles_from_eq:
  "passwordRoles_from X auths password roles =
   roles @ concat (map auth_Role (filter (entry_accepts_password X password) auths))"
  by (induction auths arbitrary: roles) (auto simp: entry_accepts_password_def)

lemma passwordRoles_eq:
  "passwordRoles X cfg password = granted_roles (entry_accepts_password X password) cfg"
  by (simp add: passwordRoles_def passwordRoles_from_eq granted_roles_def)

lemma passwordAuthRoles_from_eq:
  "passwordAuthRoles_from auths roles =
   roles @ concat (map auth_Role (filter (\<lambda>auth. auth_Password auth \<noteq> []) auths))"
  by (induction auths arbitrary: roles) auto

lemma passwordAuthRoles_eq:
  "passwordAuthRoles cfg = granted_roles (\<lambda>auth. auth_Password auth \<noteq> []) cfg"
  by (simp add: passwordAuthRoles_def passwordAuthRoles_from_eq granted_roles_def)

lemma passwordRoles_subset: "set (passwordRoles X cfg password) \<subseteq> set (passwordAuthRoles cfg)"
  by (auto simp: passwordRoles_eq passwordAuthRoles_eq granted_roles_def entry_accepts_password_def)

lemma usernameMatchingRoutes_eq:
  "usernameMatchingRoutes E cfg u = filter (\<lambda>r. matchesRouteSession E r u) (cfg_Routes cfg)"
proof -
  have "usernameMatchingRoutes_from E rs u = filter (\<lambda>r. matchesRouteSession E r u) rs" for rs
    by (induction rs) (auto simp: matchesRouteSession_def)
  then show ?thesis by (simp add: usernameMatchingRoutes_def)
qed

lemma routesArePublic_iff: "routesArePublic rs \<longleftrightarrow> (\<forall>r \<in> set rs. route_Role r = [])"
  by (auto simp: routesArePublic_def list_all_iff)

lemma canReachRoute_iff:
  "canReachRoute E cfg u roles \<longleftrightarrow>
   (\<exists>r \<in> set (cfg_Routes cfg). matchesRouteSession E r u \<and> routeRoleAllowed r roles)"
  by (auto simp: canReachRoute_def list_ex_iff matchesRouteSession_def)

lemma passwordAllowed_iff:
  "passwordAllowedForUsername E cfg u \<longleftrightarrow>
   (\<exists>r \<in> set (cfg_Routes cfg). matchesRouteSession E r u \<and> route_Role r \<noteq> [] \<and>
      route_Role r \<in> set (passwordAuthRoles cfg))"
proof -
  have "some_password_route E pw rs u \<longleftrightarrow>
      (\<exists>r \<in> set rs. matchesRouteSession E r u \<and> route_Role r \<noteq> [] \<and> route_Role r \<in> set pw)" for pw rs
    by (induction rs) (auto simp: matchesRouteSession_def)
  then show ?thesis by (auto simp: passwordAllowedForUsername_def Let_def)
qed

lemma public_iff:
  "snd (authCallbacks X cfg u) \<longleftrightarrow>
   (\<exists>r \<in> set (cfg_Routes cfg). matchesRouteSession (engine X) r u) \<and>
   (\<forall>r \<in> set (cfg_Routes cfg). matchesRouteSession (engine X) r u \<longrightarrow> route_Role r = [])"
  by (auto simp: authCallbacks_def Let_def usernameMatchingRoutes_eq routesArePublic_iff
      filter_empty_conv)

lemma grant_success:
  "grant E cfg u ctx roles perms = (ctx', Inr p) \<longleftrightarrow>
   canReachRoute E cfg u roles \<and> roles \<noteq> [] \<and> ctx' = ContextWithRoles ctx roles \<and> p = perms"
  by (auto simp: grant_def applyRoles_def)

lemma grant_failure: "grant E cfg u ctx roles perms = (ctx', Inl err) \<Longrightarrow> ctx' = ctx \<and> err = permission_denied"
  by (auto simp: grant_def applyRoles_def split: if_splits)

section \<open>A connection's callbacks in sequence\<close>

text \<open>
  The credentials a client presents on one connection, in order: keys and passwords. The library
  calls the matching callback if it is offered; the context is threaded through.
\<close>

datatype credential = OfferKey PublicKey | OfferPassword string

definition present :: "auth_env \<Rightarrow> Config \<Rightarrow> string \<Rightarrow> Context \<Rightarrow> credential \<Rightarrow> Context \<times> Permissions result" where
  "present X cfg u ctx c =
     (let cbs = fst (authCallbacks X cfg u) in
      case c of
        OfferKey key \<Rightarrow>
          (case PublicKeyCallback cbs of None \<Rightarrow> (ctx, Inl permission_denied) | Some cb \<Rightarrow> cb ctx key)
      | OfferPassword pw \<Rightarrow>
          (case PasswordCallback cbs of None \<Rightarrow> (ctx, Inl permission_denied) | Some cb \<Rightarrow> cb ctx pw))"

fun present_all :: "auth_env \<Rightarrow> Config \<Rightarrow> string \<Rightarrow> Context \<Rightarrow> credential list \<Rightarrow> Context" where
  "present_all X cfg u ctx [] = ctx"
| "present_all X cfg u ctx (c # cs) = present_all X cfg u (fst (present X cfg u ctx c)) cs"

fun credential_roles :: "auth_env \<Rightarrow> Config \<Rightarrow> credential \<Rightarrow> string list" where
  "credential_roles X cfg (OfferKey key) = granted_roles (entry_accepts_key X key) cfg"
| "credential_roles X cfg (OfferPassword pw) = granted_roles (entry_accepts_password X pw) cfg"

lemma present_success:
  assumes "present X cfg u ctx c = (ctx', Inr p)"
  shows "ctx' = ContextWithRoles ctx (credential_roles X cfg c) \<and> credential_roles X cfg c \<noteq> [] \<and>
    canReachRoute (engine X) cfg u (credential_roles X cfg c) \<and> \<not> snd (authCallbacks X cfg u)"
  using assms
  by (auto simp: present_def authCallbacks_def Let_def publicKeyCallback_def passwordCallback_def
      grant_success publicKeyRoles_eq passwordRoles_eq
      split: credential.splits if_splits)

lemma present_failure:
  assumes "present X cfg u ctx c = (ctx', Inl err)"
  shows "ctx' = ctx"
  using assms
  by (auto simp: present_def authCallbacks_def Let_def publicKeyCallback_def passwordCallback_def
      split: credential.splits if_splits dest: grant_failure)

lemma present_error:
  assumes "present X cfg u ctx c = (ctx', Inl err)"
  shows "err = permission_denied"
  using assms
  by (auto simp: present_def authCallbacks_def Let_def publicKeyCallback_def passwordCallback_def
      split: credential.splits if_splits dest: grant_failure)

text \<open>Whatever was offered before, the roles are none or those of one credential that was offered.\<close>

lemma present_all_roles:
  "ctx_roles (present_all X cfg u ctx cs) = ctx_roles ctx \<or>
   (\<exists>c \<in> set cs. ctx_roles (present_all X cfg u ctx cs) = Some (credential_roles X cfg c) \<and>
      canReachRoute (engine X) cfg u (credential_roles X cfg c))"
proof (induction cs arbitrary: ctx)
  case (Cons c cs)
  obtain ctx' r where p: "present X cfg u ctx c = (ctx', r)" by fastforce
  show ?case
  proof (cases r)
    case (Inl err)
    with p have "ctx' = ctx" by (auto dest: present_failure)
    with Cons [of ctx'] p show ?thesis by auto
  next
    case (Inr perms)
    with p have "ctx' = ContextWithRoles ctx (credential_roles X cfg c)"
      "canReachRoute (engine X) cfg u (credential_roles X cfg c)" by (auto dest: present_success)
    with Cons [of ctx'] p show ?thesis by (auto simp: ContextWithRoles_def)
  qed
qed simp

end
