(* ===== verification/Session.thy ===== *)
theory Session
  imports Auth
begin

text \<open>
  What happens to one session: \<open>internal/server/pty.go\<close>, \<open>cmd.go\<close>, \<open>proxy.go\<close>, the handler of
  \<open>MuxMiddleware\<close> in \<open>router.go\<close> and \<open>ExitCode\<close>, \<open>WithSessionRoutingPolicy\<close> in \<open>server.go\<close>.
  Processes, the backend SSH connection and its session answer through the fields of the
  environment records; a handler returns the list of the effects it has, in order, and its error.
\<close>

section \<open>Sessions and terminals\<close>

record Session =
  sess_id :: nat
  sess_User :: string
  sess_RawCommand :: string
  sess_Environ :: "string list"
  sess_Context :: Context
  sess_Pty :: "Pty option"

text \<open>The handler installed by \<open>WithPtyRequests\<close> and the function it returns for the session's end.\<close>

definition ptyHandler :: "Context \<Rightarrow> nat \<Rightarrow> Pty \<Rightarrow> Context" where
  "ptyHandler ctx session pty = ctx\<lparr>ctx_pty := (ctx_pty ctx)(session := Some pty)\<rparr>"

definition ptyHandler_release :: "Context \<Rightarrow> nat \<Rightarrow> Context" where
  "ptyHandler_release ctx session = ctx\<lparr>ctx_pty := (ctx_pty ctx)(session := None)\<rparr>"

text \<open>The library's own PTY if it has one, else the request recorded for this session.\<close>

definition sessionPty :: "Session \<Rightarrow> Pty option" where
  "sessionPty s =
     (case sess_Pty s of
        Some pty \<Rightarrow> Some pty
      | None \<Rightarrow> ctx_pty (sess_Context s) (sess_id s))"

record Winsize =
  Rows :: "16 word"
  Cols :: "16 word"
  ws_X :: "16 word"
  ws_Y :: "16 word"

text \<open>The conversions \<open>uint16(...)\<close> keep the low 16 bits.\<close>

definition ptyWindowSize :: "Window \<Rightarrow> Winsize" where
  "ptyWindowSize win =
     \<lparr>Rows = word_of_int (Height win), Cols = word_of_int (Width win),
      ws_X = word_of_int (WidthPixels win), ws_Y = word_of_int (HeightPixels win)\<rparr>"

text \<open>
  The loop of \<open>resizePty\<close>, on the events its \<open>select\<close> takes: the sizes it sets until the window
  channel is closed or the command is done.
\<close>

datatype resize_event = WindowChange Window | WindowClosed | CommandDone

fun resizePty :: "resize_event list \<Rightarrow> Winsize list" where
  "resizePty [] = []"
| "resizePty (WindowChange win # es) = ptyWindowSize win # resizePty es"
| "resizePty (WindowClosed # es) = []"
| "resizePty (CommandDone # es) = []"

section \<open>Local commands\<close>

record Cmd =
  cmd_Args :: "string list"
  cmd_Env :: "string list"

record proc_env =
  os_Environ :: "string list"
  StartWithSize :: "Cmd \<Rightarrow> Winsize \<Rightarrow> error option"
  cmd_Start :: "Cmd \<Rightarrow> error option"
  cmd_Wait :: "Cmd \<Rightarrow> error option"

text \<open>One list of effects for all handlers.\<close>

datatype effect =
    StartPty Cmd Winsize
  | StartCmd Cmd
  | WaitCmd
  | ClosePty
  | Dialled string
  | DialledCloud
  | NewSession
  | Setenv string string
  | RequestPty string int int TerminalModes
  | ForwardSignals
  | BackendStart string
  | BackendShell
  | BackendWait
  | StopSignals
  | CloseSession
  | CloseClient
  | Stderr "frag list"
  | StderrError string error
  | SessionExit int

type_synonym outcome = "effect list \<times> error option"

definition run_env :: "proc_env \<Rightarrow> Session \<Rightarrow> string list" where
  "run_env P s =
     os_Environ P @ sess_Environ s @
     [''SSHMUX_USERNAME='' @ sess_User s,
      ''SSHMUX_COMMAND='' @ sess_RawCommand s,
      ''SSHMUX_ROLES='' @ Join (RolesFromContext (sess_Context s)) '','']"

definition runCmd :: "proc_env \<Rightarrow> Session \<Rightarrow> string \<Rightarrow> bool option \<Rightarrow> outcome" where
  "runCmd P s command withPTY =
     (let cmd = \<lparr>cmd_Args = [''sh'', ''-c'', command], cmd_Env = run_env P s\<rparr>;
          hasPTY = (sessionPty s \<noteq> None)
      in
      if withPTY = Some True \<and> \<not> hasPTY then
        ([], Some (Errorf [T ''pty requested but client did not allocate one'']))
      else if hasPTY \<and> (withPTY = None \<or> withPTY = Some True) then
        (case sessionPty s of
           None \<Rightarrow> ([], None)
         | Some ptyReq \<Rightarrow>
             let cmd' = cmd\<lparr>cmd_Env := cmd_Env cmd @ [''TERM='' @ pty_Term ptyReq]\<rparr>;
                 size = ptyWindowSize (pty_Window ptyReq)
             in
             (case StartWithSize P cmd' size of
                Some err \<Rightarrow> ([StartPty cmd' size], Some (Wrapf [T ''start pty cmd: ''] err))
              | None \<Rightarrow> ([StartPty cmd' size, WaitCmd, ClosePty], cmd_Wait P cmd')))
      else
        (case cmd_Start P cmd of
           Some err \<Rightarrow> ([StartCmd cmd], Some (Wrapf [T ''start cmd: ''] err))
         | None \<Rightarrow> ([StartCmd cmd, WaitCmd], cmd_Wait P cmd)))"

section \<open>Proxying to a backend\<close>

record backend =
  be_NewSession :: "error option"
  be_RequestPty :: "string \<Rightarrow> int \<Rightarrow> int \<Rightarrow> TerminalModes \<Rightarrow> error option"
  be_Start :: "string \<Rightarrow> error option"
  be_Shell :: "error option"
  be_Wait :: "error option"

text \<open>\<open>Setenv\<close> errors are ignored; entries without \<open>=\<close> are skipped.\<close>

fun forward_env :: "string list \<Rightarrow> effect list" where
  "forward_env [] = []"
| "forward_env (env # envs) =
     (case Cut env (CHR ''='') of
        (k, v, ok) \<Rightarrow> (if ok then [Setenv k v] else []) @ forward_env envs)"

text \<open>Lines 76 to 83: start the command or a shell, then wait.\<close>

definition start_backend :: "backend \<Rightarrow> Session \<Rightarrow> outcome" where
  "start_backend B s =
     (let raw = sess_RawCommand s in
      if raw \<noteq> [] then
        (case be_Start B raw of
           Some err \<Rightarrow> ([BackendStart raw], Some (Wrapf [T ''start backend command: ''] err))
         | None \<Rightarrow> ([BackendStart raw, BackendWait], be_Wait B))
      else
        (case be_Shell B of
           Some err \<Rightarrow> ([BackendShell], Some (Wrapf [T ''start backend shell: ''] err))
         | None \<Rightarrow> ([BackendShell, BackendWait], be_Wait B)))"

text \<open>The deferred calls run last, in reverse order of their \<open>defer\<close> statements.\<close>

definition proxySSHSession :: "backend \<Rightarrow> Session \<Rightarrow> outcome" where
  "proxySSHSession B s =
     (case be_NewSession B of
        Some err \<Rightarrow> ([NewSession], Some (Wrapf [T ''new backend session: ''] err))
      | None \<Rightarrow>
          let setup = [NewSession] @ forward_env (sess_Environ s);
              pty_op = (case sessionPty s of
                 None \<Rightarrow> []
               | Some pty \<Rightarrow>
                   [RequestPty (pty_Term pty) (Height (pty_Window pty)) (Width (pty_Window pty)) (pty_Modes pty)]);
              pty_err = (case sessionPty s of
                 None \<Rightarrow> None
               | Some pty \<Rightarrow>
                   be_RequestPty B (pty_Term pty) (Height (pty_Window pty)) (Width (pty_Window pty)) (pty_Modes pty))
          in
          (case pty_err of
             Some err \<Rightarrow> (setup @ pty_op @ [CloseSession], Some (Wrapf [T ''request backend pty: ''] err))
           | None \<Rightarrow>
               (case start_backend B s of
                  (ops, err) \<Rightarrow>
                    (setup @ pty_op @ [ForwardSignals] @ ops @ [StopSignals, CloseSession], err))))"

text \<open>The two forwarding goroutines, on what arrives on their channels.\<close>

fun forward_windows :: "Window list \<Rightarrow> (int \<times> int) list" where
  "forward_windows [] = []"
| "forward_windows (win # wins) = (Height win, Width win) # forward_windows wins"

datatype AuthMethod = PublicKeys Signer | Password string

record ClientConfig =
  cc_User :: string
  cc_Auth :: "AuthMethod list"
  cc_HostKeyCallback :: "PublicKey \<Rightarrow> error option"
  cc_Timeout :: int

definition proxySigner :: "SSHKey \<Rightarrow> Signer result" where
  "proxySigner key =
     (if Fingerprint key \<noteq> [] then
        Inl (Errorf [T ''proxy key must be a literal key or path, not a fingerprint''])
      else
        (case key_Signer key of
           None \<Rightarrow> Inl (Errorf [T ''proxy key must be a private key''])
         | Some signer \<Rightarrow> Inr signer))"

definition proxyAuthMethods :: "RouteEntry \<Rightarrow> AuthMethod list result" where
  "proxyAuthMethods route =
     (let p = route_Proxy route;
          pw = (if proxy_Password p \<noteq> [] then [Password (proxy_Password p)] else []);
          finish = (\<lambda>methods. if length methods = 0
             then Inl (Errorf [T ''proxy route requires proxy.key or proxy.password''])
             else Inr methods)
      in
      if \<not> SSHKey_IsZero (proxy_Key p) then
        (case proxySigner (proxy_Key p) of
           Inl err \<Rightarrow> Inl err
         | Inr signer \<Rightarrow> finish ([PublicKeys signer] @ pw))
      else finish pw)"

definition parseProxyPublicKey :: "key_env \<Rightarrow> string \<Rightarrow> PublicKey result" where
  "parseProxyPublicKey E key =
     (let parse = (\<lambda>data. case ParseAuthorizedKey E data of
                     Inr pub \<Rightarrow> Inr pub
                   | Inl _ \<Rightarrow> ParsePublicKey E data)
      in
      if \<not> Contains key ''ssh-'' then
        (case ReadFile E key of
           Inl err \<Rightarrow> Inl (Wrapf [T ''read proxy host key: ''] err)
         | Inr data \<Rightarrow> parse data)
      else parse key)"

fun parse_host_keys :: "key_env \<Rightarrow> string list \<Rightarrow> PublicKey list result" where
  "parse_host_keys E [] = Inr []"
| "parse_host_keys E (hostKey # hostKeys) =
     (case parseProxyPublicKey E hostKey of
        Inl err \<Rightarrow> Inl (Wrapf [T ''parse proxy host key: ''] err)
      | Inr key \<Rightarrow>
          (case parse_host_keys E hostKeys of
             Inl err \<Rightarrow> Inl err
           | Inr keys \<Rightarrow> Inr (key # keys)))"

definition check_host_key :: "(PublicKey \<Rightarrow> PublicKey \<Rightarrow> bool) \<Rightarrow> PublicKey list \<Rightarrow> PublicKey \<Rightarrow> error option" where
  "check_host_key keys_equal keys key =
     (if list_ex (\<lambda>allowed. keys_equal key allowed) keys then None
      else Some (Errorf [T ''remote host key does not match pinned proxy host keys'']))"

definition proxyHostKeyCallback ::
    "key_env \<Rightarrow> (PublicKey \<Rightarrow> PublicKey \<Rightarrow> bool) \<Rightarrow> string list \<Rightarrow> (PublicKey \<Rightarrow> error option) result" where
  "proxyHostKeyCallback E keys_equal hostKeys =
     (if length hostKeys = 0 then Inr (\<lambda>_. None)
      else
        (case parse_host_keys E hostKeys of
           Inl err \<Rightarrow> Inl err
         | Inr keys \<Rightarrow> Inr (check_host_key keys_equal keys)))"

record mux_env =
  mux_auth :: auth_env
  mux_keys :: key_env
  mux_proc :: proc_env
  gossh_Dial :: "string \<Rightarrow> ClientConfig \<Rightarrow> backend result"

definition dialBackend :: "mux_env \<Rightarrow> Session \<Rightarrow> RouteEntry \<Rightarrow> backend result" where
  "dialBackend M s route =
     (let p = route_Proxy route;
          user = (if proxy_User p = [] then sess_User s else proxy_User p)
      in
      case proxyAuthMethods route of
        Inl err \<Rightarrow> Inl err
      | Inr authMethods \<Rightarrow>
          (case proxyHostKeyCallback (mux_keys M) (KeysEqual (mux_auth M)) (proxy_HostKey p) of
             Inl err \<Rightarrow> Inl err
           | Inr hostKeyCallback \<Rightarrow>
               (case gossh_Dial M (proxy_Host p)
                    \<lparr>cc_User = user, cc_Auth = authMethods, cc_HostKeyCallback = hostKeyCallback,
                     cc_Timeout = 10 * 1000000000\<rparr> of
                  Inl err \<Rightarrow> Inl (Wrapf [T ''dial backend '', T (proxy_Host p), T '': ''] err)
                | Inr client \<Rightarrow> Inr client)))"

definition proxySession :: "mux_env \<Rightarrow> Session \<Rightarrow> RouteEntry \<Rightarrow> outcome" where
  "proxySession M s route =
     (case dialBackend M s route of
        Inl err \<Rightarrow> ([], Some err)
      | Inr client \<Rightarrow>
          (case proxySSHSession client s of
             (ops, err) \<Rightarrow> ([Dialled (proxy_Host (route_Proxy route))] @ ops @ [CloseClient], err)))"

text \<open>A provider's \<open>Dial\<close>: a client, whose cleanup closes it, or an error.\<close>

type_synonym Provider = "Session \<Rightarrow> backend result"
type_synonym Providers = "nat \<Rightarrow> Provider option"

definition cloudSession :: "Session \<Rightarrow> Provider \<Rightarrow> outcome" where
  "cloudSession s provider =
     (case provider s of
        Inl err \<Rightarrow> ([], Some err)
      | Inr client \<Rightarrow>
          (case proxySSHSession client s of
             (ops, err) \<Rightarrow> ([DialledCloud] @ ops @ [CloseClient], err)))"

section \<open>The handler\<close>

definition ExitCode :: "error \<Rightarrow> int" where
  "ExitCode err =
     (case as_exec_exit err of
        Some c \<Rightarrow> c
      | None \<Rightarrow> (case as_gossh_exit err of Some c \<Rightarrow> c | None \<Rightarrow> 1))"

definition run_route :: "mux_env \<Rightarrow> Providers \<Rightarrow> Session \<Rightarrow> RouteEntry \<Rightarrow> nat \<Rightarrow> effect list" where
  "run_route M providers s route routeIndex =
     (if proxy_Host (route_Proxy route) \<noteq> [] then
        (case proxySession M s route of
           (ops, None) \<Rightarrow> ops
         | (ops, Some err) \<Rightarrow> ops @ [StderrError ''proxy error: '' err, SessionExit (ExitCode err)])
      else if cloud_Provider (route_Cloud route) \<noteq> [] then
        (case providers routeIndex of
           None \<Rightarrow> [Stderr [T ''cloud provider is not configured'', T [CHR 0x0D, CHR 0x0A]], SessionExit 1]
         | Some provider \<Rightarrow>
             (case cloudSession s provider of
                (ops, None) \<Rightarrow> ops
              | (ops, Some err) \<Rightarrow> ops @ [StderrError ''cloud error: '' err, SessionExit (ExitCode err)]))
      else if run_Cmd (route_Run route) \<noteq> [] then
        (case runCmd (mux_proc M) s (run_Cmd (route_Run route)) (run_Pty (route_Run route)) of
           (ops, Some err) \<Rightarrow> ops @ [SessionExit (ExitCode err)]
         | (ops, None) \<Rightarrow> ops @ [SessionExit 0])
      else [SessionExit 1])"

definition muxHandler :: "mux_env \<Rightarrow> Config \<Rightarrow> Providers \<Rightarrow> Session \<Rightarrow> effect list" where
  "muxHandler M cfg providers s =
     (let username = sess_User s; roles = RolesFromContext (sess_Context s) in
      case findRouteIndex (engine (mux_auth M)) cfg username roles of
        None \<Rightarrow> [SessionExit 1]
      | Some (route, routeIndex) \<Rightarrow>
          if \<not> routeRoleAllowed route roles then
            [Stderr [T ''permission denied'', T [CHR 0x0D, CHR 0x0A]], SessionExit 1]
          else run_route M providers s route routeIndex)"

text \<open>The \<open>SessionRequestCallback\<close> of \<open>WithSessionRoutingPolicy\<close>.\<close>

definition sessionRequestCallback :: "mux_env \<Rightarrow> Config \<Rightarrow> Session \<Rightarrow> bool" where
  "sessionRequestCallback M cfg s =
     (findRoute (engine (mux_auth M)) cfg (sess_User s) (RolesFromContext (sess_Context s)) \<noteq> None)"

section \<open>Lemmas\<close>

lemma ExitCode_root:
  "ExitCode err = (case root_cause err of ExecExitError c \<Rightarrow> c | GosshExitError c \<Rightarrow> c | _ \<Rightarrow> 1)"
  by (induction err) (auto simp: ExitCode_def split: error.splits option.splits)

text \<open>Effects that start something on behalf of the client.\<close>

fun starts_handler :: "effect \<Rightarrow> bool" where
  "starts_handler (StartPty c w) = True"
| "starts_handler (StartCmd c) = True"
| "starts_handler (Dialled h) = True"
| "starts_handler DialledCloud = True"
| "starts_handler _ = False"

text \<open>\<open>os/exec\<close> keeps the last value of a variable that occurs more than once.\<close>

definition env_lookup :: "string list \<Rightarrow> string \<Rightarrow> string option" where
  "env_lookup env k =
     (case find (\<lambda>kv. HasPrefix kv (k @ ''='')) (rev env) of
        None \<Rightarrow> None
      | Some kv \<Rightarrow> Some (drop (length k + 1) kv))"

lemma env_lookup_snoc:
  "env_lookup (env @ [kv]) k =
     (if HasPrefix kv (k @ ''='') then Some (drop (length k + 1) kv) else env_lookup env k)"
  by (simp add: env_lookup_def)

lemma env_lookup_set: "env_lookup (env @ [k @ ''='' @ v]) k = Some v"
  using env_lookup_snoc [of env "k @ ''='' @ v" k] by (simp add: HasPrefix_iff)

text \<open>A backend session that was opened is closed, once and last, on every path.\<close>

lemma proxySSHSession_closes:
  assumes "proxySSHSession B s = (ops, err)" "be_NewSession B = None"
  shows "\<exists>mid. ops = NewSession # mid @ [CloseSession] \<and> CloseSession \<notin> set mid"
proof -
  have fe: "CloseSession \<notin> set (forward_env es)" for es
    by (induction es) auto
  have sb: "CloseSession \<notin> set (fst (start_backend B s))"
    by (auto simp: start_backend_def Let_def split: option.splits)
  show ?thesis
    using assms fe sb
    by (auto simp: proxySSHSession_def Let_def split: option.splits prod.splits)
qed

end
