(* ===== verification/Demo.thy ===== *)
theory Demo
  imports Session
begin

text \<open>
  A concrete environment and the example configuration of the README, on which the witnesses of
  the properties are evaluated: three credentials, a command route, a proxy route and a cloud
  route. The password is stored in plain text, which the README allows as well.
\<close>

definition demo_engine :: regexp_engine where
  "demo_engine =
     \<lparr>rx_error = (\<lambda>re. if re = ''('' then Some (External ''missing closing )'') else None),
      rx_match = (\<lambda>re v. re = ''^guest-[0-9]+$'' \<and> HasPrefix v ''guest-'' \<and> 6 < length v \<and>
        list_all digit (drop 6 v))\<rparr>"

definition demo_auth :: auth_env where
  "demo_auth =
     \<lparr>engine = demo_engine, FingerprintSHA256 = (\<lambda>key. ''SHA256:'' @ key), KeysEqual = (=),
      DefaultSystems = [\<lambda>stored. Some (\<lambda>password. password = stored)]\<rparr>"

definition demo_keys :: key_env where
  "demo_keys =
     \<lparr>ReadFile = (\<lambda>path. if path = ''/root/.ssh/id'' then Inr ''PRIVATE'' else Inl (External ''no such file'')),
      HOME = ''/root'',
      ParsePrivateKey = (\<lambda>s. if s = ''PRIVATE'' then Inr ''signer'' else Inl (External ''no key'')),
      ParseAuthorizedKey = (\<lambda>s. if HasPrefix s ''ssh-'' then Inr (drop 4 s) else Inl (External ''no key'')),
      ParsePublicKey = (\<lambda>s. Inl (External ''no key'')),
      Signer_PublicKey = (\<lambda>signer. ''pub-'' @ signer)\<rparr>"

definition demo_proc :: proc_env where
  "demo_proc =
     \<lparr>os_Environ = [''PATH=/bin'', ''SSHMUX_ROLES=root''], StartWithSize = (\<lambda>cmd size. None),
      cmd_Start = (\<lambda>cmd. None), cmd_Wait = (\<lambda>cmd. Some (ExecExitError 3))\<rparr>"

definition demo_backend :: backend where
  "demo_backend =
     \<lparr>be_NewSession = None, be_RequestPty = (\<lambda>term h w modes. None), be_Start = (\<lambda>raw. None),
      be_Shell = None, be_Wait = Some (GosshExitError 7)\<rparr>"

text \<open>A network with one backend, whose host key is \<open>''host''\<close>.\<close>

definition demo_dial :: "string \<Rightarrow> ClientConfig \<Rightarrow> backend result" where
  "demo_dial addr cc =
     (if addr = ''10.0.0.12:22'' then
        (case cc_HostKeyCallback cc ''host'' of None \<Rightarrow> Inr demo_backend | Some err \<Rightarrow> Inl err)
      else Inl (External ''connection refused''))"

definition demo_env :: mux_env where
  "demo_env =
     \<lparr>mux_auth = demo_auth, mux_keys = demo_keys, mux_proc = demo_proc, gossh_Dial = demo_dial\<rparr>"

definition no_run :: RunEntry where
  "no_run = \<lparr>run_Cmd = [], run_Pty = None\<rparr>"

definition no_proxy :: ProxyEntry where
  "no_proxy =
     \<lparr>proxy_Host = [], proxy_User = [], proxy_Password = [], proxy_Key = zero_SSHKey, proxy_HostKey = []\<rparr>"

definition no_cloud :: CloudEntry where
  "no_cloud =
     \<lparr>cloud_Provider = [], cloud_Image = [], cloud_Metro = [], cloud_MemoryMB = 0,
      cloud_SessionTTL = 0, cloud_MaxInstances = 0\<rparr>"

definition admin_route :: RouteEntry where
  "admin_route =
     \<lparr>route_Username = zero_Pattern\<lparr>Allow := [''admin'']\<rparr>, route_Role = ''admin'',
      route_Run = \<lparr>run_Cmd = ''/usr/local/bin/admin-shell'', run_Pty = Some True\<rparr>,
      route_Proxy = no_proxy, route_Cloud = no_cloud\<rparr>"

definition app_route :: RouteEntry where
  "app_route =
     \<lparr>route_Username = zero_Pattern\<lparr>Allow := [''app-*'']\<rparr>, route_Role = ''user'',
      route_Run = no_run,
      route_Proxy =
        \<lparr>proxy_Host = ''10.0.0.12:22'', proxy_User = ''deploy'', proxy_Password = [],
         proxy_Key = zero_SSHKey\<lparr>Raw := ''~/.ssh/id'', Path := ''/root/.ssh/id'',
           key_PublicKey := Some ''pub-signer'', key_Signer := Some ''signer''\<rparr>,
         proxy_HostKey = [''ssh-host'']\<rparr>,
      route_Cloud = no_cloud\<rparr>"

definition guest_route :: RouteEntry where
  "guest_route =
     \<lparr>route_Username = zero_Pattern\<lparr>AllowRegexp := [''^guest-[0-9]+$'']\<rparr>, route_Role = ''demo'',
      route_Run = no_run, route_Proxy = no_proxy,
      route_Cloud =
        \<lparr>cloud_Provider = ''unikraft'', cloud_Image = ''jedevc/sshmux-guest:latest'',
         cloud_Metro = ''fra'', cloud_MemoryMB = 32, cloud_SessionTTL = 60000000000,
         cloud_MaxInstances = 10\<rparr>\<rparr>"

definition status_route :: RouteEntry where
  "status_route =
     \<lparr>route_Username = zero_Pattern\<lparr>Allow := [''status'']\<rparr>, route_Role = [],
      route_Run = \<lparr>run_Cmd = ''/usr/local/bin/status'', run_Pty = None\<rparr>,
      route_Proxy = no_proxy, route_Cloud = no_cloud\<rparr>"

definition demo_config :: Config where
  "demo_config =
     \<lparr>cfg_Auth =
        [\<lparr>auth_Key = zero_SSHKey\<lparr>Raw := ''SHA256:k1'', Fingerprint := ''SHA256:k1''\<rparr>,
          auth_Password = [], auth_Role = [''admin'']\<rparr>,
         \<lparr>auth_Key = zero_SSHKey\<lparr>Raw := ''ssh-k2'', key_PublicKey := Some ''k2''\<rparr>,
          auth_Password = [], auth_Role = [''user'']\<rparr>,
         \<lparr>auth_Key = zero_SSHKey, auth_Password = ''secret'', auth_Role = [''demo'']\<rparr>],
      cfg_Routes = [admin_route, app_route, guest_route, status_route]\<rparr>"

definition demo_session :: "string \<Rightarrow> Context \<Rightarrow> Pty option \<Rightarrow> Session" where
  "demo_session user ctx pty =
     \<lparr>sess_id = 0, sess_User = user, sess_RawCommand = ''ls'', sess_Environ = [''LANG=C'', ''SSHMUX_ROLES=root''],
      sess_Context = ctx, sess_Pty = pty\<rparr>"

definition demo_pty :: Pty where
  "demo_pty =
     \<lparr>pty_Term = ''xterm'',
      pty_Window = \<lparr>Width = 80, Height = 24, WidthPixels = 0, HeightPixels = 0\<rparr>, pty_Modes = []\<rparr>"

lemmas demo_defs =
  demo_engine_def demo_auth_def demo_keys_def demo_proc_def demo_backend_def demo_dial_def
  demo_env_def no_run_def no_proxy_def no_cloud_def admin_route_def app_route_def guest_route_def
  status_route_def demo_config_def demo_session_def demo_pty_def zero_Pattern_def zero_SSHKey_def

lemma demo_valid: "valid_config demo_config"
  by (simp add: valid_config_def valid_route_def route_targets_def demo_defs)

text \<open>Glob patterns of the example, evaluated through the reference matcher.\<close>

lemma demo_glob [simp]:
  "matchGlob ''admin'' u \<longleftrightarrow> u = ''admin''"
  "matchGlob ''status'' u \<longleftrightarrow> u = ''status''"
  "matchGlob ''app-*'' u \<longleftrightarrow> wild ''app-*'' u"
  by (simp_all add: matchGlob_def path_Match_wild plain_or_star_def plain_def wild_plain)

end
