(* ===== verification/Access.thy ===== *)
theory Access
  imports Demo
begin

text \<open>
  Access control end to end: from the credentials a client presents on a connection
  (\<open>internal/server/auth.go\<close>) through the context (\<open>role.go\<close>) to the handler that runs
  (\<open>router.go\<close>). A session of the connection sees the roles the callbacks left in the context;
  its other context values, the PTY requests, are arbitrary.
\<close>

definition session_of :: "Session \<Rightarrow> string \<Rightarrow> Context \<Rightarrow> bool" where
  "session_of s u ctx \<longleftrightarrow> sess_User s = u \<and> ctx_roles (sess_Context s) = ctx_roles ctx"

lemma session_of_roles: "session_of s u ctx \<Longrightarrow> RolesFromContext (sess_Context s) = RolesFromContext ctx"
  by (simp add: session_of_def RolesFromContext_def)

fun credential_accepts :: "auth_env \<Rightarrow> credential \<Rightarrow> AuthEntry \<Rightarrow> bool" where
  "credential_accepts X (OfferKey key) auth = entry_accepts_key X key auth"
| "credential_accepts X (OfferPassword pw) auth = entry_accepts_password X pw auth"

lemma credential_roles_iff:
  "role \<in> set (credential_roles X cfg c) \<longleftrightarrow>
   (\<exists>auth \<in> set (cfg_Auth cfg). credential_accepts X c auth \<and> role \<in> set (auth_Role auth))"
  by (cases c) (auto simp: granted_roles_def)

lemma muxHandler_starts:
  assumes "e \<in> set (muxHandler M cfg providers s)" "starts_handler e"
  shows "\<exists>route i. findRouteIndex (engine (mux_auth M)) cfg (sess_User s) (RolesFromContext (sess_Context s)) = Some (route, i) \<and>
    routeRoleAllowed route (RolesFromContext (sess_Context s))"
  using assms by (auto simp: muxHandler_def Let_def split: option.splits if_splits)

lemma noClientAuth_iff:
  "noClientAuth X cfg u = Inr perms \<longleftrightarrow> snd (authCallbacks X cfg u) \<and> perms = []"
  by (auto simp: noClientAuth_def split: prod.splits)

section \<open>Properties\<close>

text \<open>
  C1: a protected route is reached only by who holds its role. Whatever was offered on the
  connection before (\<open>cs\<close>: other keys, queried or signed, and passwords), if the credential \<open>c\<close>
  is the one the last callback accepted and a session of the connection starts a process or a
  backend connection, then the route that was selected is public or some \<open>auth\<close> entry that
  accepts \<open>c\<close> itself lists the role of that route.
\<close>

theorem protected_route_needs_role:
  assumes "present X cfg u (present_all X cfg u new_Context cs) c = (ctx, Inr perms)"
    and "session_of s u ctx" and "mux_auth M = X"
    and "e \<in> set (muxHandler M cfg providers s)" and "starts_handler e"
  shows "\<exists>route i. findRouteIndex (engine X) cfg u (RolesFromContext ctx) = Some (route, i) \<and>
    (route_Role route = [] \<or>
     (\<exists>auth \<in> set (cfg_Auth cfg). credential_accepts X c auth \<and> route_Role route \<in> set (auth_Role auth)))"
proof -
  have roles: "RolesFromContext ctx = credential_roles X cfg c"
    using present_success [OF assms(1)] by simp
  from muxHandler_starts [OF assms(4,5)] assms(2,3) session_of_roles [OF assms(2)] roles
  obtain route i where "findRouteIndex (engine X) cfg u (RolesFromContext ctx) = Some (route, i)"
    "routeRoleAllowed route (credential_roles X cfg c)" by (auto simp: session_of_def)
  then show ?thesis by (auto simp: routeRoleAllowed_def credential_roles_iff)
qed

text \<open>
  C2: a connection is let in without a credential exactly when some route matches its username
  and every route that matches it is public; it then gets empty permissions.
\<close>

theorem unauthenticated_access_iff:
  "noClientAuth X cfg u = Inr perms \<longleftrightarrow>
   perms = [] \<and> (\<exists>r \<in> set (cfg_Routes cfg). matchesRouteSession (engine X) r u) \<and>
   \<not> (\<exists>r \<in> set (cfg_Routes cfg). matchesRouteSession (engine X) r u \<and> route_Role r \<noteq> [])"
  by (auto simp: noClientAuth_iff public_iff)

text \<open>
  C6: authentication is not sticky. A credential that is accepted replaces the roles of every
  earlier one by exactly the roles of the entries that accept it, and one that is refused leaves
  the context as it was, with the error \<open>permission denied\<close>.
\<close>

theorem last_credential_decides:
  "case present X cfg u (present_all X cfg u new_Context cs) c of
     (ctx, Inr perms) \<Rightarrow>
       RolesFromContext ctx = credential_roles X cfg c \<and> RolesFromContext ctx \<noteq> [] \<and>
       (\<exists>r \<in> set (cfg_Routes cfg). matchesRouteSession (engine X) r u \<and>
          routeRoleAllowed r (RolesFromContext ctx))
   | (ctx, Inl err) \<Rightarrow> ctx = present_all X cfg u new_Context cs \<and> err = permission_denied"
proof (cases "present X cfg u (present_all X cfg u new_Context cs) c")
  case (Pair ctx r)
  show ?thesis
  proof (cases r)
    case (Inl err)
    with Pair have "err = permission_denied" by (auto dest: present_error)
    with Inl Pair show ?thesis by (auto dest: present_failure)
  next
    case (Inr perms)
    from present_success [OF Pair [unfolded Inr]] Pair Inr show ?thesis by (auto simp: canReachRoute_iff)
  qed
qed

text \<open>
  C13: an accepted credential never ends in a session without a route: the session request is
  granted, and the handler selects a route that matches the username.
\<close>

theorem authenticated_session_accepted:
  assumes "present X cfg u ctx0 c = (ctx, Inr perms)" and "session_of s u ctx" and "mux_auth M = X"
  shows "sessionRequestCallback M cfg s \<and>
    (\<exists>route i. findRouteIndex (engine X) cfg u (RolesFromContext ctx) = Some (route, i))"
proof -
  from present_success [OF assms(1)] obtain r where
    "r \<in> set (cfg_Routes cfg)" "matchesRouteSession (engine X) r u" by (auto simp: canReachRoute_iff)
  then have "findRouteIndex (engine X) cfg u rs \<noteq> None" for rs
    using findRouteIndex_None [of "engine X" cfg u rs] by blast
  with assms(2,3) show ?thesis by (auto simp: sessionRequestCallback_def findRoute_def session_of_def)
qed

text \<open>
  C14: not offering password authentication hides nothing. When a non-public username gets no
  password callback, no password would open any protected route that matches it.
\<close>

theorem hidden_password_is_useless:
  assumes "noClientAuth X cfg u = Inl cbs" and "PasswordCallback cbs = None"
    and "r \<in> set (cfg_Routes cfg)" and "matchesRouteSession (engine X) r u" and "route_Role r \<noteq> []"
  shows "\<not> routeRoleAllowed r (passwordRoles X cfg pw)"
proof -
  from assms(1,2) have "\<not> passwordAllowedForUsername (engine X) cfg u"
    by (auto simp: noClientAuth_def authCallbacks_def Let_def split: if_splits)
  with assms(3-5) passwordRoles_subset [of X cfg pw] show ?thesis
    by (auto simp: passwordAllowed_iff routeRoleAllowed_def)
qed

section \<open>Witnesses\<close>

lemma demo_match [simp]:
  "matchesRouteSession demo_engine admin_route u \<longleftrightarrow> u = ''admin''"
  "matchesRouteSession demo_engine app_route u \<longleftrightarrow> wild ''app-*'' u"
  "matchesRouteSession demo_engine status_route u \<longleftrightarrow> u = ''status''"
  "matchesRouteSession demo_engine guest_route u \<longleftrightarrow>
     HasPrefix u ''guest-'' \<and> 6 < length u \<and> list_all digit (drop 6 u)"
  by (simp_all add: matchesRouteSession_def Pattern_Match_iff admin_route_def app_route_def
      status_route_def guest_route_def demo_engine_def zero_Pattern_def)

lemma demo_routes [simp]:
  "cfg_Routes demo_config = [admin_route, app_route, guest_route, status_route]"
  "engine demo_auth = demo_engine" "mux_auth demo_env = demo_auth"
  by (simp_all add: demo_config_def demo_auth_def demo_env_def)

lemma demo_roles [simp]:
  "route_Role admin_route = ''admin''" "route_Role app_route = ''user''"
  "route_Role guest_route = ''demo''" "route_Role status_route = []"
  by (simp_all add: admin_route_def app_route_def guest_route_def status_route_def)

lemma demo_key_roles [simp]:
  "publicKeyRoles demo_auth demo_config ''k1'' = [''admin'']"
  "publicKeyRoles demo_auth demo_config ''k2'' = [''user'']"
  by (simp_all add: publicKeyRoles_def demo_defs)

lemma demo_session_of [simp]: "session_of (demo_session u ctx pty) u ctx"
  by (simp add: session_of_def demo_session_def)

lemma demo_present:
  "present demo_auth demo_config ''app-1'' new_Context (OfferKey ''k2'') =
   (ContextWithRoles new_Context [''user''], Inr (publicKeyPermissions ''k2''))"
  "present demo_auth demo_config ''app-1'' new_Context (OfferKey ''k1'') =
   (new_Context, Inl permission_denied)"
  by (simp_all add: present_def authCallbacks_def usernameMatchingRoutes_eq routesArePublic_iff
      publicKeyCallback_def grant_def canReachRoute_iff routeRoleAllowed_def applyRoles_def)

lemma demo_proxied:
  "muxHandler demo_env demo_config (\<lambda>_. None)
     (demo_session ''app-1'' (ContextWithRoles new_Context [''user'']) None) =
   [Dialled ''10.0.0.12:22'', NewSession, Setenv ''LANG'' ''C'', Setenv ''SSHMUX_ROLES'' ''root'',
    ForwardSignals, BackendStart ''ls'', BackendWait, StopSignals, CloseSession, CloseClient,
    StderrError ''proxy error: '' (GosshExitError 7), SessionExit 7]"
proof -
  have "findRouteIndex demo_engine demo_config ''app-1'' [''user''] = Some (app_route, 1)"
    by (simp add: findRouteIndex_def)
  then show ?thesis
    by (simp add: muxHandler_def Let_def demo_session_def routeRoleAllowed_def)
      (simp add: run_route_def proxySession_def dialBackend_def proxyAuthMethods_def proxySigner_def
        SSHKey_IsZero_def proxyHostKeyCallback_def parseProxyPublicKey_def check_host_key_def
        proxySSHSession_def sessionPty_def start_backend_def new_Context_def ContextWithRoles_def
        ExitCode_def Let_def Cut_def demo_defs)
qed

theorem protected_route_needs_role_witness:
  "\<exists>route i. findRouteIndex demo_engine demo_config ''app-1'' [''user''] = Some (route, i) \<and>
    (route_Role route = [] \<or>
     (\<exists>auth \<in> set (cfg_Auth demo_config).
        credential_accepts demo_auth (OfferKey ''k2'') auth \<and> route_Role route \<in> set (auth_Role auth)))"
  using protected_route_needs_role [of demo_auth demo_config "''app-1''" "[OfferKey ''k1'']" "OfferKey ''k2''"
      "ContextWithRoles new_Context [''user'']" "publicKeyPermissions ''k2''"
      "demo_session ''app-1'' (ContextWithRoles new_Context [''user'']) None" demo_env
      "Dialled ''10.0.0.12:22''" "\<lambda>_. None"]
  by (simp add: demo_present demo_proxied)

theorem authenticated_session_accepted_witness:
  "sessionRequestCallback demo_env demo_config
     (demo_session ''app-1'' (ContextWithRoles new_Context [''user'']) None)"
  using authenticated_session_accepted [OF demo_present(1), of
      "demo_session ''app-1'' (ContextWithRoles new_Context [''user'']) None" demo_env]
  by simp

lemma demo_app_callbacks:
  "noClientAuth demo_auth demo_config ''app-1'' =
   Inl \<lparr>PublicKeyCallback = Some (publicKeyCallback demo_auth demo_config ''app-1''),
        PasswordCallback = None\<rparr>"
proof -
  have "\<not> passwordAllowedForUsername demo_engine demo_config ''app-1''"
    by (simp add: passwordAllowed_iff passwordAuthRoles_def)
      (simp add: demo_defs)
  then show ?thesis
    by (simp add: noClientAuth_def authCallbacks_def usernameMatchingRoutes_eq routesArePublic_iff)
qed

theorem hidden_password_is_useless_witness:
  "\<not> routeRoleAllowed app_route (passwordRoles demo_auth demo_config ''secret'')"
  using hidden_password_is_useless [OF demo_app_callbacks, of app_route "''secret''"] by simp

end
