(* ===== verification/Handlers.thy ===== *)
theory Handlers
  imports Demo
begin

text \<open>
  Properties of the session handlers (\<open>internal/server/cmd.go\<close>, \<open>pty.go\<close>, \<open>proxy.go\<close>, and
  \<open>ExitCode\<close> of \<open>server.go\<close>): the variables a local command sees, when it gets a terminal, which
  exit status the client sees, and that a proxied session trusts the pinned host keys only and
  leaves nothing open.
\<close>

section \<open>Lemmas\<close>

lemma env_lookup_skip: "\<not> HasPrefix kv (k @ ''='') \<Longrightarrow> env_lookup (env @ [kv]) k = env_lookup env k"
  by (simp add: env_lookup_snoc)

lemma run_env_snoc:
  "run_env P s =
   (((os_Environ P @ sess_Environ s) @ [''SSHMUX_USERNAME'' @ ''='' @ sess_User s])
     @ [''SSHMUX_COMMAND'' @ ''='' @ sess_RawCommand s])
     @ [''SSHMUX_ROLES'' @ ''='' @ Join (RolesFromContext (sess_Context s)) '','']"
  by (simp add: run_env_def)

lemma run_env_lookup:
  "env_lookup (run_env P s) ''SSHMUX_USERNAME'' = Some (sess_User s)"
  "env_lookup (run_env P s) ''SSHMUX_COMMAND'' = Some (sess_RawCommand s)"
  "env_lookup (run_env P s) ''SSHMUX_ROLES'' = Some (Join (RolesFromContext (sess_Context s)) '','')"
    apply (simp add: run_env_def env_lookup_def)
   apply (simp add: run_env_def env_lookup_def)
  apply (simp add: run_env_def env_lookup_def)
  done

text \<open>The command line and environment of whatever \<open>runCmd\<close> starts.\<close>

fun started :: "effect \<Rightarrow> Cmd option" where
  "started (StartPty c w) = Some c"
| "started (StartCmd c) = Some c"
| "started _ = None"

lemma runCmd_started:
  assumes "e \<in> set (fst (runCmd P s command withPTY))" "started e = Some c"
  shows "cmd_Args c = [''sh'', ''-c'', command] \<and>
    (cmd_Env c = run_env P s \<or> (\<exists>pty. sessionPty s = Some pty \<and> cmd_Env c = run_env P s @ [''TERM='' @ pty_Term pty]))"
  using assms by (auto simp: runCmd_def Let_def split: if_splits option.splits)

definition exit_statuses :: "effect list \<Rightarrow> int list" where
  "exit_statuses es = concat (map (\<lambda>e. case e of SessionExit c \<Rightarrow> [c] | _ \<Rightarrow> []) es)"

lemma exit_statuses_simps [simp]:
  "exit_statuses [] = []"
  "exit_statuses (e # es) = (case e of SessionExit c \<Rightarrow> c # exit_statuses es | _ \<Rightarrow> exit_statuses es)"
  "exit_statuses (es @ fs) = exit_statuses es @ exit_statuses fs"
  by (auto simp: exit_statuses_def split: effect.splits)

lemma no_exit_forward_env [simp]: "exit_statuses (forward_env es) = []"
  by (induction es) (auto split: prod.splits)

lemma no_exit_proxySSHSession: "exit_statuses (fst (proxySSHSession B s)) = []"
  by (auto simp: proxySSHSession_def start_backend_def Let_def split: option.splits)

lemma no_exit_proxySession: "exit_statuses (fst (proxySession M s route)) = []"
  using no_exit_proxySSHSession by (auto simp: proxySession_def split: sum.splits prod.splits) (metis fst_conv)

lemma no_exit_cloudSession: "exit_statuses (fst (cloudSession s provider)) = []"
  using no_exit_proxySSHSession by (auto simp: cloudSession_def split: sum.splits prod.splits) (metis fst_conv)

lemma no_exit_runCmd: "exit_statuses (fst (runCmd P s command withPTY)) = []"
  by (auto simp: runCmd_def Let_def split: option.splits)

lemma proxySSHSession_error:
  assumes "be_NewSession B = None" "sess_RawCommand s \<noteq> []" "be_Start B (sess_RawCommand s) = None"
    "\<And>pty. sessionPty s = Some pty \<Longrightarrow>
      be_RequestPty B (pty_Term pty) (Height (pty_Window pty)) (Width (pty_Window pty)) (pty_Modes pty) = None"
  shows "snd (proxySSHSession B s) = be_Wait B"
  using assms by (auto simp: proxySSHSession_def start_backend_def Let_def split: option.splits)

lemma parse_host_keys_set:
  "parse_host_keys E hks = Inr keys \<Longrightarrow>
   (\<forall>h \<in> set hks. \<exists>k \<in> set keys. parseProxyPublicKey E h = Inr k) \<and>
   (\<forall>k \<in> set keys. \<exists>h \<in> set hks. parseProxyPublicKey E h = Inr k)"
  by (induction hks arbitrary: keys) (fastforce split: sum.splits)+

lemma forward_env_pairs:
  "\<forall>(k, v) \<in> set kvs. CHR ''='' \<notin> set k \<Longrightarrow>
   forward_env (map (\<lambda>(k, v). k @ ''='' @ v) kvs) = map (\<lambda>(k, v). Setenv k v) kvs"
proof (induction kvs)
  case (Cons kv kvs)
  obtain k v where kv: "kv = (k, v)" by (cases kv)
  with Cons.prems have "Cut (k @ ''='' @ v) (CHR ''='') = (k, v, True)" by (simp add: Cut_found)
  with Cons kv show ?case by simp
qed simp

lemma forward_env_effects: "e \<in> set (forward_env es) \<Longrightarrow> \<exists>k v. e = Setenv k v"
  by (induction es) (auto split: prod.splits if_splits)

lemma count_forward_env [simp]: "\<forall>k v. e \<noteq> Setenv k v \<Longrightarrow> count_list (forward_env es) e = 0"
  by (auto simp: count_list_0_iff dest: forward_env_effects)

section \<open>Properties\<close>

text \<open>
  C17: a local command cannot be lied to about its session. Whatever variables the client sends
  and the server inherits, the process started for the command sees the session's username, raw
  command and roles in \<open>SSHMUX_USERNAME\<close>, \<open>SSHMUX_COMMAND\<close> and \<open>SSHMUX_ROLES\<close>, and runs
  \<open>sh -c\<close> on the configured command.
\<close>

theorem run_cmd_environment:
  assumes "e \<in> set (fst (runCmd P s command withPTY))" and "started e = Some c"
  shows "cmd_Args c = [''sh'', ''-c'', command] \<and>
    env_lookup (cmd_Env c) ''SSHMUX_USERNAME'' = Some (sess_User s) \<and>
    env_lookup (cmd_Env c) ''SSHMUX_COMMAND'' = Some (sess_RawCommand s) \<and>
    env_lookup (cmd_Env c) ''SSHMUX_ROLES'' = Some (Join (RolesFromContext (sess_Context s)) '','')"
  using runCmd_started [OF assms] by (auto simp: run_env_lookup env_lookup_skip)

text \<open>
  C29: the table of \<open>run.pty\<close>. A PTY of the client's size is allocated exactly when the client
  asked for one and \<open>run.pty\<close> is not false; without one the command is started directly, except
  that nothing is started, and an error returned, when \<open>run.pty\<close> is true and there is no PTY.
\<close>

theorem run_pty_table:
  "((\<exists>c w. StartPty c w \<in> set (fst (runCmd P s command withPTY))) \<longleftrightarrow> sessionPty s \<noteq> None \<and> withPTY \<noteq> Some False) \<and>
   ((\<exists>c. StartCmd c \<in> set (fst (runCmd P s command withPTY))) \<longleftrightarrow>
     withPTY = Some False \<or> (sessionPty s = None \<and> withPTY = None)) \<and>
   (\<forall>c w. StartPty c w \<in> set (fst (runCmd P s command withPTY)) \<longrightarrow>
     (\<exists>pty. sessionPty s = Some pty \<and> w = ptyWindowSize (pty_Window pty) \<and>
       env_lookup (cmd_Env c) ''TERM'' = Some (pty_Term pty))) \<and>
   (fst (runCmd P s command withPTY) = [] \<longleftrightarrow> withPTY = Some True \<and> sessionPty s = None)"
proof (intro conjI)
  show "\<forall>c w. StartPty c w \<in> set (fst (runCmd P s command withPTY)) \<longrightarrow>
     (\<exists>pty. sessionPty s = Some pty \<and> w = ptyWindowSize (pty_Window pty) \<and>
       env_lookup (cmd_Env c) ''TERM'' = Some (pty_Term pty))"
    by (auto simp: runCmd_def Let_def env_lookup_def split: option.splits if_splits)
qed (auto simp: runCmd_def Let_def split: option.splits)

text \<open>
  C30: a session is told its exit status at most once, and nothing is done for it afterwards.
\<close>

theorem mux_exits_once:
  "exit_statuses (muxHandler M cfg providers s) = [] \<or>
   (\<exists>es c. muxHandler M cfg providers s = es @ [SessionExit c] \<and> exit_statuses es = [])"
proof -
  have "exit_statuses (run_route M providers s route i) = [] \<or>
    (\<exists>es c. run_route M providers s route i = es @ [SessionExit c] \<and> exit_statuses es = [])" for route i
    using no_exit_proxySession [of M s route] no_exit_cloudSession [of s]
      no_exit_runCmd [of "mux_proc M" s "run_Cmd (route_Run route)" "run_Pty (route_Run route)"]
    by (auto simp: run_route_def split: prod.splits option.splits if_splits) (metis fst_conv)+
  then show ?thesis by (auto simp: muxHandler_def Let_def split: option.splits)
qed

text \<open>What the handler of a route returns, for each of the three kinds of route.\<close>

definition handler_error :: "mux_env \<Rightarrow> Providers \<Rightarrow> Session \<Rightarrow> RouteEntry \<Rightarrow> nat \<Rightarrow> error option" where
  "handler_error M providers s route i =
     (if proxy_Host (route_Proxy route) \<noteq> [] then snd (proxySession M s route)
      else if cloud_Provider (route_Cloud route) \<noteq> []
      then (case providers i of None \<Rightarrow> None | Some provider \<Rightarrow> snd (cloudSession s provider))
      else snd (runCmd (mux_proc M) s (run_Cmd (route_Run route)) (run_Pty (route_Run route))))"

lemma exit_status_of_route:
  assumes "valid_route route"
  shows "exit_statuses (run_route M providers s route i) =
    (case handler_error M providers s route i of
       Some err \<Rightarrow> [ExitCode err]
     | None \<Rightarrow>
         if proxy_Host (route_Proxy route) \<noteq> [] then []
         else if cloud_Provider (route_Cloud route) \<noteq> [] then if providers i = None then [1] else []
         else [0])"
  using no_exit_proxySession [of M s route] no_exit_cloudSession [of s] valid_route_handler [OF assms]
    no_exit_runCmd [of "mux_proc M" s "run_Cmd (route_Run route)" "run_Pty (route_Run route)"]
  by (auto simp: run_route_def handler_error_def split: prod.splits option.splits if_splits) (metis fst_conv)+

text \<open>
  C18: the exit status reaches the client through any number of wrappings, for every kind of
  route. When the handler of the selected route, a proxy, a cloud instance or a command, returns an
  error that is at the bottom of its chain of wrapped errors the exit error of a process or of an
  SSH session with status \<open>c\<close>, the session exits with \<open>c\<close>; any other error gives 1. When it returns
  none, a command exits with 0, and a proxied or cloud session leaves the status to the library,
  except that a cloud route without a provider exits with 1.
\<close>

theorem exit_status_of_handler:
  assumes "findRouteIndex (engine (mux_auth M)) cfg (sess_User s) (RolesFromContext (sess_Context s)) = Some (route, i)"
    and "routeRoleAllowed route (RolesFromContext (sess_Context s))" and "valid_route route"
  shows "exit_statuses (muxHandler M cfg providers s) =
    (case handler_error M providers s route i of
       Some err \<Rightarrow> [case root_cause err of ExecExitError c \<Rightarrow> c | GosshExitError c \<Rightarrow> c | _ \<Rightarrow> 1]
     | None \<Rightarrow>
         if proxy_Host (route_Proxy route) \<noteq> [] then []
         else if cloud_Provider (route_Cloud route) \<noteq> [] then if providers i = None then [1] else []
         else [0])"
  using assms(1,2) exit_status_of_route [OF assms(3), of M providers s i]
  by (cases "handler_error M providers s route i") (simp_all add: muxHandler_def Let_def ExitCode_root)

text \<open>
  C7: host keys are pinned. If \<open>gossh.Dial\<close> returns a client only when the host key callback it
  was given accepts the key of the server it reached, then a proxied session with a non-empty
  \<open>host_key\<close> list reaches a server whose key equals one that the list names, and every entry of
  the list was understood.
\<close>

theorem proxy_host_key_pinned:
  assumes dial_verifies: "\<And>addr cc B. gossh_Dial M addr cc = Inr B \<Longrightarrow> cc_HostKeyCallback cc (server_key addr) = None"
    and "dialBackend M s route = Inr B" and "proxy_HostKey (route_Proxy route) \<noteq> []"
  shows "(\<exists>h \<in> set (proxy_HostKey (route_Proxy route)). \<exists>k. parseProxyPublicKey (mux_keys M) h = Inr k \<and>
      KeysEqual (mux_auth M) (server_key (proxy_Host (route_Proxy route))) k) \<and>
    (\<forall>h \<in> set (proxy_HostKey (route_Proxy route)). \<exists>k. parseProxyPublicKey (mux_keys M) h = Inr k)"
proof -
  let ?p = "route_Proxy route"
  from assms(2,3) obtain keys cc where
    keys: "parse_host_keys (mux_keys M) (proxy_HostKey ?p) = Inr keys" and
    dialled: "gossh_Dial M (proxy_Host ?p) cc = Inr B" and
    cb: "cc_HostKeyCallback cc = check_host_key (KeysEqual (mux_auth M)) keys"
    by (auto simp: dialBackend_def Let_def proxyHostKeyCallback_def split: sum.splits if_splits)
  from dial_verifies [OF dialled] cb obtain k where
    "k \<in> set keys" "KeysEqual (mux_auth M) (server_key (proxy_Host ?p)) k"
    by (auto simp: check_host_key_def list_ex_iff split: if_splits)
  with parse_host_keys_set [OF keys] show ?thesis by blast
qed

text \<open>
  C19: a proxied session leaves nothing open. Once the backend is dialled, the client connection
  is closed exactly once and last; a backend session that was opened is closed exactly once,
  before it; and signal forwarding is switched off as often as on.
\<close>

theorem proxied_session_closes:
  assumes "dialBackend M s route = Inr B"
  shows "\<exists>mid. fst (proxySession M s route) = Dialled (proxy_Host (route_Proxy route)) # mid @ [CloseClient] \<and>
    CloseClient \<notin> set mid \<and>
    (if be_NewSession B = None
     then \<exists>ops. mid = NewSession # ops @ [CloseSession] \<and> CloseSession \<notin> set ops \<and>
       count_list ops ForwardSignals = count_list ops StopSignals
     else mid = [NewSession])"
proof -
  obtain mid err where p: "proxySSHSession B s = (mid, err)" by fastforce
  have "CloseClient \<notin> set mid"
    using p by (auto simp: proxySSHSession_def start_backend_def Let_def dest: forward_env_effects
        split: option.splits prod.splits if_splits)
  moreover have "mid = [NewSession]" if "be_NewSession B \<noteq> None"
    using p that by (auto simp: proxySSHSession_def)
  moreover have "count_list mid ForwardSignals = count_list mid StopSignals"
    using p by (auto simp: proxySSHSession_def start_backend_def Let_def split: option.splits prod.splits if_splits)
  ultimately show ?thesis
    using p assms proxySSHSession_closes [OF p] by (auto simp: proxySession_def)
qed

text \<open>
  C20: proxying is transparent. On a backend that grants every request, the session's variables,
  its PTY request and its command (or a shell when there is none) are forwarded unchanged and in
  order, and the result is the backend's own.
\<close>

theorem proxy_forwards_session:
  assumes "be_NewSession B = None" and "\<And>term h w modes. be_RequestPty B term h w modes = None"
    and "\<And>raw. be_Start B raw = None" and "be_Shell B = None"
    and "sess_Environ s = map (\<lambda>(k, v). k @ ''='' @ v) kvs" and "\<forall>(k, v) \<in> set kvs. CHR ''='' \<notin> set k"
  shows "proxySSHSession B s =
    ([NewSession] @ map (\<lambda>(k, v). Setenv k v) kvs @
     (case sessionPty s of None \<Rightarrow> []
      | Some pty \<Rightarrow> [RequestPty (pty_Term pty) (Height (pty_Window pty)) (Width (pty_Window pty)) (pty_Modes pty)]) @
     [ForwardSignals, if sess_RawCommand s = [] then BackendShell else BackendStart (sess_RawCommand s),
      BackendWait, StopSignals, CloseSession], be_Wait B)"
  using assms forward_env_pairs [OF assms(6)]
  by (auto simp: proxySSHSession_def start_backend_def Let_def split: option.splits)

text \<open>
  Window sizes. Up to the closing of the window channel or the end of the command every
  window change sets a size, in order, and each field is the client's number modulo 65536.
\<close>

lemma resize_sizes:
  assumes "e = WindowClosed \<or> e = CommandDone"
  shows "map (\<lambda>w. (uint (Cols w), uint (Rows w), uint (ws_X w), uint (ws_Y w)))
      (resizePty (map WindowChange wins @ e # es)) =
    map (\<lambda>w. (Width w mod 65536, Height w mod 65536, WidthPixels w mod 65536, HeightPixels w mod 65536)) wins"
  using assms by (induction wins) (auto simp: ptyWindowSize_def uint_word_of_int)

section \<open>Witnesses\<close>

lemma demo_runCmd:
  "fst (runCmd demo_proc (demo_session ''admin'' (ContextWithRoles new_Context [''admin'', ''user'']) (Some demo_pty))
     ''top'' (Some True)) =
   [StartPty \<lparr>cmd_Args = [''sh'', ''-c'', ''top''],
      cmd_Env = [''PATH=/bin'', ''SSHMUX_ROLES=root'', ''LANG=C'', ''SSHMUX_ROLES=root'',
        ''SSHMUX_USERNAME=admin'', ''SSHMUX_COMMAND=ls'', ''SSHMUX_ROLES=admin,user'', ''TERM=xterm'']\<rparr>
      \<lparr>Rows = 24, Cols = 80, ws_X = 0, ws_Y = 0\<rparr>, WaitCmd, ClosePty]"
  by (simp add: runCmd_def run_env_def sessionPty_def ptyWindowSize_def Let_def demo_defs)

theorem run_cmd_environment_witness:
  "env_lookup [''PATH=/bin'', ''SSHMUX_ROLES=root'', ''LANG=C'', ''SSHMUX_ROLES=root'',
     ''SSHMUX_USERNAME=admin'', ''SSHMUX_COMMAND=ls'', ''SSHMUX_ROLES=admin,user'', ''TERM=xterm''] ''SSHMUX_ROLES''
   = Some ''admin,user''"
  using run_cmd_environment [of _ demo_proc
      "demo_session ''admin'' (ContextWithRoles new_Context [''admin'', ''user'']) (Some demo_pty)" "''top''" "Some True",
      unfolded demo_runCmd, OF list.set_intros(1) started.simps(1)]
  by (simp add: demo_session_def)

theorem run_pty_table_witness:
  "\<exists>pty. sessionPty (demo_session ''admin'' (ContextWithRoles new_Context [''admin'', ''user'']) (Some demo_pty)) = Some pty \<and>
     \<lparr>Rows = 24, Cols = 80, ws_X = 0, ws_Y = 0\<rparr> = ptyWindowSize (pty_Window pty)"
  using run_pty_table [of demo_proc
      "demo_session ''admin'' (ContextWithRoles new_Context [''admin'', ''user'']) (Some demo_pty)" "''top''" "Some True",
      unfolded demo_runCmd]
  by fastforce

theorem exit_status_of_handler_witness:
  "exit_statuses (muxHandler demo_env demo_config (\<lambda>_. None) (demo_session ''status'' new_Context None)) = [3]"
proof -
  have find: "findRouteIndex demo_engine demo_config ''status'' [] = Some (status_route, 3)"
    by (simp add: findRouteIndex_def matchesRouteSession_def Pattern_Match_iff demo_defs)
  show ?thesis
    using exit_status_of_handler [of demo_env demo_config "demo_session ''status'' new_Context None" status_route 3
        "\<lambda>_. None"] find
    by (simp add: handler_error_def routeRoleAllowed_def valid_route_def route_targets_def runCmd_def sessionPty_def
        new_Context_def RolesFromContext_def demo_defs)
qed

lemma demo_dial_app:
  "dialBackend demo_env (demo_session u ctx pty) app_route = Inr demo_backend"
  by (simp add: dialBackend_def proxyAuthMethods_def proxySigner_def SSHKey_IsZero_def
      proxyHostKeyCallback_def parseProxyPublicKey_def check_host_key_def Let_def demo_defs)

theorem proxy_host_key_pinned_witness:
  "\<exists>h \<in> set (proxy_HostKey (route_Proxy app_route)). \<exists>k. parseProxyPublicKey demo_keys h = Inr k \<and> k = ''host''"
proof -
  have law: "cc_HostKeyCallback cc ((\<lambda>_. ''host'') addr) = None" if "gossh_Dial demo_env addr cc = Inr B" for addr cc B
    using that by (auto simp: demo_env_def demo_dial_def split: if_splits option.splits)
  have "proxy_HostKey (route_Proxy app_route) \<noteq> []" by (simp add: app_route_def)
  with proxy_host_key_pinned [OF law, of demo_env, OF _ demo_dial_app [of "''app-1''" new_Context None]]
  show ?thesis by (auto simp: demo_env_def demo_auth_def)
qed

theorem proxied_session_closes_witness:
  "\<exists>mid. fst (proxySession demo_env (demo_session ''app-1'' new_Context None) app_route) =
     Dialled ''10.0.0.12:22'' # mid @ [CloseClient] \<and> CloseClient \<notin> set mid"
  using proxied_session_closes [OF demo_dial_app [of "''app-1''" new_Context None]]
  by (auto simp: app_route_def)

theorem proxy_forwards_session_witness:
  "snd (proxySSHSession demo_backend (demo_session ''app-1'' new_Context (Some demo_pty))) = Some (GosshExitError 7)"
  using proxy_forwards_session [of demo_backend "demo_session ''app-1'' new_Context (Some demo_pty)"
      "[(''LANG'', ''C''), (''SSHMUX_ROLES'', ''root'')]"]
  by (simp add: demo_backend_def demo_session_def)

end
