(* ===== verification/Settings.thy ===== *)
theory Settings
  imports Demo
begin

text \<open>
  Properties of the configuration file's values (\<open>internal/config\<close>): username patterns against
  their documented meaning, SSH keys, durations and the validation of routes.
\<close>

section \<open>Properties\<close>

text \<open>
  C11: the meaning of a list of username patterns. If the list parses, a username matches exactly
  when no deny part (\<open>!\<close>) holds of it and some allow part does or there is none, each part read as
  a regular expression if its body is written \<open>/.../\<close> and as a glob otherwise.
\<close>

theorem pattern_list_semantics:
  assumes "Pattern_UnmarshalJSON E (JArray (map JString parts)) = Inr p"
  shows "Pattern_Match E p user \<longleftrightarrow>
    (\<forall>part \<in> set parts. is_deny part \<longrightarrow> \<not> part_holds E part user) \<and>
    ((\<exists>part \<in> set parts. \<not> is_deny part \<and> part_holds E part user) \<or> (\<forall>part \<in> set parts. is_deny part))"
proof -
  have "json_strings (map JString parts) = Some parts" by (induction parts) auto
  with assms have "ParsePattern E parts = Inr p"
    by (auto simp: Pattern_UnmarshalJSON_def StringOrSlice_UnmarshalJSON_def)
  from ParsePattern_Match [OF this] show ?thesis by (simp add: list_matches_def)
qed

text \<open>
  A list of patterns is rejected exactly for a regular expression that does not compile, and
  the error is that of the first such part, whatever follows it.
\<close>

lemma pattern_parse_error:
  "ParsePattern E parts = Inl err \<longleftrightarrow>
   (\<exists>before part after. parts = before @ part # after \<and> bad_part E part \<and> err = compile_error E part \<and>
      list_all (\<lambda>q. \<not> bad_part E q) before)"
proof -
  have "ParsePattern E parts = Inl err \<longleftrightarrow> map_option (compile_error E) (find (bad_part E) parts) = Some err"
    by (simp add: ParsePattern_def ParsePattern_loop_error [of E zero_Pattern parts, symmetric] split: sum.splits)
  then show ?thesis by (auto simp: find_Some_first list_all_iff)
qed

text \<open>
  C12: globs. For a pattern of ordinary characters and \<open>*\<close>, the chunk-by-chunk matcher of
  \<open>path.Match\<close> agrees with the obvious definition, in which \<open>*\<close> stands for any run of characters
  other than \<open>/\<close>; a pattern without \<open>*\<close> matches itself only.
\<close>

theorem glob_matches_reference:
  assumes "plain_or_star p"
  shows "(matchGlob p user \<longleftrightarrow> wild p user) \<and> (CHR ''*'' \<notin> set p \<longrightarrow> matchGlob p user = (user = p))"
  using path_Match_wild [OF assms] wild_plain [of p user] assms
  by (auto simp: matchGlob_def plain_or_star_def)

text \<open>
  C16: validation. A configuration is accepted exactly when every route sets exactly one handler,
  names a supported cloud provider if any, has a non-negative instance limit and no fingerprint as
  its proxy key; otherwise the error is that of the first offending route, by its index.
\<close>

theorem validation_exact:
  "(Config_validate c = None \<longleftrightarrow> valid_config c) \<and>
   (Config_validate c = Some err \<longleftrightarrow>
     (\<exists>k. k < length (cfg_Routes c) \<and> validate_route k (cfg_Routes c ! k) = Some err \<and>
       list_all valid_route (take k (cfg_Routes c))))"
proof -
  have "list_all valid_route (take k (cfg_Routes c)) \<longleftrightarrow> (\<forall>j < k. valid_route (cfg_Routes c ! j))"
    if "k < length (cfg_Routes c)" for k
    using that by (auto simp: list_all_length)
  then show ?thesis
    using Config_validate_None [of c] validate_from_Some [of 0 "cfg_Routes c" err]
    by (auto simp: Config_validate_def)
qed

text \<open>
  C33: the forms of a parsed key. A key text that parses gives, keeping the text, nothing at all if
  it is blank, only a fingerprint if it starts with \<open>SHA256:\<close>, and otherwise a public key, with
  the signer it belongs to when the material is private; it has a path exactly when the text is
  not itself key material, and then the path is the text with the home directory put in.
\<close>

theorem key_forms:
  assumes "ParseSSHKey E raw = Inr k"
  shows "Raw k = raw \<and>
    (if TrimSpace raw = [] then key_PublicKey k = None \<and> key_Signer k = None \<and> Fingerprint k = [] \<and> Path k = []
     else if HasPrefix (TrimSpace raw) ''SHA256:''
     then Fingerprint k = TrimSpace raw \<and> key_PublicKey k = None \<and> key_Signer k = None \<and> Path k = []
     else Fingerprint k = [] \<and> key_PublicKey k \<noteq> None \<and>
       (\<forall>signer. key_Signer k = Some signer \<longrightarrow> key_PublicKey k = Some (Signer_PublicKey E signer)) \<and>
       Path k = (if looksLikeSSHKeyLiteral (TrimSpace raw) then [] else expandHome E (TrimSpace raw)))"
  using assms
  by (auto simp: ParseSSHKey_def zero_SSHKey_def Let_def split: if_splits sum.splits dest!: parse_key_data_fields)

text \<open>
  C25: durations. The text Go prints for any duration is read back as that duration by the
  configuration's decoder, and whatever it reads from a string lies in the 64 bit range.
\<close>

theorem duration_round_trip:
  assumes "- (2 ^ 63) \<le> d" and "d < 2 ^ 63"
  shows "Duration_UnmarshalJSON (JString (Duration_String d)) = Inr d \<and>
    (\<forall>s d'. Duration_UnmarshalJSON (JString s) = Inr d' \<longrightarrow> - (2 ^ 63) \<le> d' \<and> d' < 2 ^ 63)"
proof -
  have "Duration_String d \<noteq> []" using duration_body_hd by (auto simp: Duration_String_body)
  then show ?thesis
    using ParseDuration_String [OF assms]
    by (auto simp: Duration_UnmarshalJSON_def split: if_splits sum.splits dest: ParseDuration_range)
qed

section \<open>Witnesses\<close>

definition demo_parts :: "string list" where
  "demo_parts = [''app-*'', ''!app-root'', ''/^guest-[0-9]+$/'']"

lemma demo_parts_parse:
  "Pattern_UnmarshalJSON demo_engine (JArray (map JString demo_parts)) =
   Inr \<lparr>AllowRegexp = [''^guest-[0-9]+$''], DenyRegexp = [], Allow = [''app-*''], Deny = [''app-root'']\<rparr>"
  by (simp add: Pattern_UnmarshalJSON_def StringOrSlice_UnmarshalJSON_def ParsePattern_def demo_parts_def
      is_regexp_def regexp_source_def HasSuffix_def TrimPrefix_def TrimSuffix_def demo_engine_def zero_Pattern_def)

theorem pattern_list_semantics_witness:
  "\<not> Pattern_Match demo_engine
     \<lparr>AllowRegexp = [''^guest-[0-9]+$''], DenyRegexp = [], Allow = [''app-*''], Deny = [''app-root'']\<rparr> ''app-root''"
proof -
  have "part_holds demo_engine ''!app-root'' ''app-root''"
    by (simp add: part_holds_def part_body_def is_deny_def is_regexp_def TrimPrefix_def
        plain_or_star_def plain_def matchGlob_def path_Match_wild)
  then show ?thesis
    using pattern_list_semantics [OF demo_parts_parse, of "''app-root''"]
    by (auto simp: demo_parts_def is_deny_def)
qed

theorem glob_matches_reference_witness:
  "matchGlob ''app-*'' ''app-1'' \<and> \<not> matchGlob ''app-*'' ''app-1/x''"
  using glob_matches_reference [of "''app-*''" "''app-1''"] glob_matches_reference [of "''app-*''" "''app-1/x''"]
  by (simp add: plain_or_star_def plain_def)

theorem key_forms_witness:
  "\<exists>k. ParseSSHKey demo_keys '' ~/.ssh/id'' = Inr k \<and> Path k = ''/root/.ssh/id'' \<and> key_PublicKey k = Some ''pub-signer''"
proof -
  have trim: "TrimSpace '' ~/.ssh/id'' = ''~/.ssh/id''" by code_simp
  have lit: "\<not> looksLikeSSHKeyLiteral ''~/.ssh/id''" by code_simp
  obtain k where k: "ParseSSHKey demo_keys '' ~/.ssh/id'' = Inr k" "key_Signer k = Some ''signer''"
    using trim lit by (auto simp: ParseSSHKey_def expandHome_def parse_key_data_def demo_keys_def Let_def)
  show ?thesis
    using key_forms [OF k(1)] k trim lit by (simp add: expandHome_def demo_keys_def)
qed

theorem duration_round_trip_witness:
  "Duration_UnmarshalJSON (JString (Duration_String 90000000001)) = Inr 90000000001"
  using duration_round_trip [of 90000000001] by simp

end
