(* ===== verification/Guest_Idle.thy ===== *)
theory Guest_Idle
  imports Prelude "HOL-Library.Word"
begin

text \<open>
  The idle timer of the guest server (\<open>support/guest/main.go\<close>): the package variables guarded by
  \<open>idleMu\<close>, the functions that change them, and the interleaving of sessions, the clock and the
  timers of \<open>time.AfterFunc\<close>. Every function holds the mutex throughout, so each is one step. A
  timer fires in two steps, as in Go: at its deadline its callback is launched (after which
  \<open>Stop\<close> has no effect), and later the callback gets the mutex. Go's \<open>int\<close> is a 64 bit word here.
\<close>

section \<open>State\<close>

datatype timer_status = Armed | Stopped | Pending | Done

record timer =
  tm_generation :: "64 word"
  tm_deadline :: int
  tm_status :: timer_status

text \<open>
  \<open>timers\<close> lists every timer created so far and \<open>idleTimer\<close> is an index into it; \<open>handlers\<close> counts
  the invocations of \<open>handleSession\<close> between \<open>sessionStarted\<close> and the deferred \<open>sessionFinished\<close>.
\<close>

record idle_state =
  idleTimer :: "nat option"
  idleGeneration :: "64 word"
  activeSession :: "64 word"
  timers :: "timer list"
  handlers :: nat
  now :: int
  exited :: bool

definition Timer_Stop :: "nat \<Rightarrow> idle_state \<Rightarrow> idle_state" where
  "Timer_Stop i s =
     (if tm_status (timers s ! i) = Armed
      then s\<lparr>timers := (timers s)[i := (timers s ! i)\<lparr>tm_status := Stopped\<rparr>]\<rparr> else s)"

definition stop_idleTimer :: "idle_state \<Rightarrow> idle_state" where
  "stop_idleTimer s = (case idleTimer s of None \<Rightarrow> s | Some i \<Rightarrow> Timer_Stop i s)"

definition AfterFunc :: "int \<Rightarrow> 64 word \<Rightarrow> idle_state \<Rightarrow> idle_state" where
  "AfterFunc d generation s =
     s\<lparr>idleTimer := Some (length (timers s)),
       timers := timers s @ [\<lparr>tm_generation = generation, tm_deadline = now s + d, tm_status = Armed\<rparr>]\<rparr>"

section \<open>Operations\<close>

definition resetIdleTimerLocked :: "int \<Rightarrow> idle_state \<Rightarrow> idle_state" where
  "resetIdleTimerLocked guestIdleTimeout s =
     (let s1 = stop_idleTimer s;
          s2 = s1\<lparr>idleGeneration := idleGeneration s1 + 1\<rparr>
      in AfterFunc guestIdleTimeout (idleGeneration s2) s2)"

definition timer_callback :: "nat \<Rightarrow> idle_state \<Rightarrow> idle_state" where
  "timer_callback i s =
     (if activeSession s = 0 \<and> tm_generation (timers s ! i) = idleGeneration s
      then s\<lparr>exited := True\<rparr> else s)"

definition startIdleTimer :: "int \<Rightarrow> idle_state \<Rightarrow> idle_state" where
  "startIdleTimer guestIdleTimeout s = resetIdleTimerLocked guestIdleTimeout s"

definition sessionStarted :: "idle_state \<Rightarrow> idle_state" where
  "sessionStarted s =
     stop_idleTimer (s\<lparr>activeSession := activeSession s + 1, idleGeneration := idleGeneration s + 1\<rparr>)"

definition sessionFinished :: "int \<Rightarrow> idle_state \<Rightarrow> idle_state" where
  "sessionFinished guestIdleTimeout s =
     (let s1 = s\<lparr>activeSession := activeSession s - 1\<rparr> in
      if activeSession s1 \<le>s 0
      then resetIdleTimerLocked guestIdleTimeout (s1\<lparr>activeSession := 0\<rparr>)
      else s1)"

section \<open>Steps\<close>

datatype idle_event = Started | Finished | Tick nat | Fire nat | Callback nat

definition set_status :: "nat \<Rightarrow> timer_status \<Rightarrow> idle_state \<Rightarrow> idle_state" where
  "set_status i st s = s\<lparr>timers := (timers s)[i := (timers s ! i)\<lparr>tm_status := st\<rparr>]\<rparr>"

inductive idle_step :: "int \<Rightarrow> idle_state \<Rightarrow> idle_event \<Rightarrow> idle_state \<Rightarrow> bool"
  for guestIdleTimeout :: int where
  started: "\<not> exited s \<Longrightarrow> idle_step guestIdleTimeout s Started ((sessionStarted s)\<lparr>handlers := handlers s + 1\<rparr>)"
| finished: "\<not> exited s \<Longrightarrow> 0 < handlers s \<Longrightarrow>
    idle_step guestIdleTimeout s Finished ((sessionFinished guestIdleTimeout s)\<lparr>handlers := handlers s - 1\<rparr>)"
| tick: "\<not> exited s \<Longrightarrow> idle_step guestIdleTimeout s (Tick d) (s\<lparr>now := now s + int d\<rparr>)"
| fire: "\<not> exited s \<Longrightarrow> i < length (timers s) \<Longrightarrow> tm_status (timers s ! i) = Armed \<Longrightarrow>
    tm_deadline (timers s ! i) \<le> now s \<Longrightarrow> idle_step guestIdleTimeout s (Fire i) (set_status i Pending s)"
| callback: "\<not> exited s \<Longrightarrow> i < length (timers s) \<Longrightarrow> tm_status (timers s ! i) = Pending \<Longrightarrow>
    idle_step guestIdleTimeout s (Callback i) (timer_callback i (set_status i Done s))"

inductive_simps idle_step_simps:
  "idle_step d s Started t" "idle_step d s Finished t" "idle_step d s (Tick n) t"
  "idle_step d s (Fire i) t" "idle_step d s (Callback i) t"

text \<open>The state after \<open>startIdleTimer\<close> in \<open>main\<close>, before any session.\<close>

definition idle_init :: "int \<Rightarrow> idle_state" where
  "idle_init guestIdleTimeout =
     startIdleTimer guestIdleTimeout
       \<lparr>idleTimer = None, idleGeneration = 0, activeSession = 0, timers = [], handlers = 0,
        now = 0, exited = False\<rparr>"

section \<open>What a history says\<close>

text \<open>Histories list the latest event first: sessions under way, and time since the last session event.\<close>

fun live :: "idle_event list \<Rightarrow> int" where
  "live [] = 0"
| "live (Started # h) = live h + 1"
| "live (Finished # h) = live h - 1"
| "live (_ # h) = live h"

fun quiet :: "idle_event list \<Rightarrow> int" where
  "quiet [] = 0"
| "quiet (Started # h) = 0"
| "quiet (Finished # h) = 0"
| "quiet (Tick d # h) = quiet h + int d"
| "quiet (_ # h) = quiet h"

section \<open>The invariant\<close>

definition current :: "int \<Rightarrow> idle_state \<Rightarrow> idle_event list \<Rightarrow> timer \<Rightarrow> bool" where
  "current d s h tm \<longleftrightarrow> tm_generation tm = idleGeneration s \<and> tm_deadline tm = now s - quiet h + d"

text \<open>Counters are exact while the history is short enough for no counter to wrap.\<close>

definition idle_counters :: "idle_state \<Rightarrow> idle_event list \<Rightarrow> bool" where
  "idle_counters s h \<longleftrightarrow>
     unat (activeSession s) = handlers s \<and> int (handlers s) = live h \<and> handlers s \<le> length h \<and>
     unat (idleGeneration s) \<le> Suc (length h) \<and>
     (\<forall>tm \<in> set (timers s). tm_generation tm \<le> idleGeneration s)"

text \<open>
  A timer of the current generation exists exactly when no session is active; it is \<open>idleTimer\<close>,
  it is running, and its deadline counts from the last session event.
\<close>

definition idle_timers :: "int \<Rightarrow> idle_state \<Rightarrow> idle_event list \<Rightarrow> bool" where
  "idle_timers d s h \<longleftrightarrow>
     (\<forall>i. idleTimer s = Some i \<longrightarrow> i < length (timers s)) \<and>
     (\<forall>tm \<in> set (timers s). tm_status tm \<in> {Pending, Done} \<longrightarrow> tm_deadline tm \<le> now s) \<and>
     (\<forall>tm \<in> set (timers s). tm_generation tm = idleGeneration s \<longrightarrow> handlers s = 0 \<and> current d s h tm) \<and>
     (handlers s = 0 \<longrightarrow> (\<exists>i. idleTimer s = Some i \<and> i < length (timers s) \<and> current d s h (timers s ! i) \<and>
        tm_status (timers s ! i) \<noteq> Stopped \<and> (tm_status (timers s ! i) = Done \<longrightarrow> exited s)))"

definition idle_inv :: "int \<Rightarrow> idle_state \<times> idle_event list \<Rightarrow> bool" where
  "idle_inv d = (\<lambda>(s, h). length h < 2 ^ 62 \<longrightarrow>
     idle_counters s h \<and> idle_timers d s h \<and> (exited s \<longrightarrow> handlers s = 0 \<and> d \<le> quiet h))"

text \<open>The machine with its history.\<close>

definition hist_step :: "int \<Rightarrow> idle_state \<times> idle_event list \<Rightarrow> idle_event \<Rightarrow> idle_state \<times> idle_event list \<Rightarrow> bool" where
  "hist_step d = (\<lambda>(s, h) e (t, h'). idle_step d s e t \<and> h' = e # h)"

lemmas idle_defs = sessionStarted_def sessionFinished_def resetIdleTimerLocked_def stop_idleTimer_def
  Timer_Stop_def AfterFunc_def timer_callback_def set_status_def Let_def

lemma stop_fields [simp]:
  "idleGeneration (stop_idleTimer s) = idleGeneration s" "activeSession (stop_idleTimer s) = activeSession s"
  "handlers (stop_idleTimer s) = handlers s" "now (stop_idleTimer s) = now s" "exited (stop_idleTimer s) = exited s"
  "idleTimer (stop_idleTimer s) = idleTimer s" "length (timers (stop_idleTimer s)) = length (timers s)"
  by (auto simp: stop_idleTimer_def Timer_Stop_def split: option.splits)

lemma stop_timers:
  assumes "tm \<in> set (timers (stop_idleTimer s))" "\<And>i. idleTimer s = Some i \<Longrightarrow> i < length (timers s)"
  shows "\<exists>tm' \<in> set (timers s). tm_generation tm = tm_generation tm' \<and> tm_deadline tm = tm_deadline tm' \<and>
    (tm_status tm = tm_status tm' \<or> tm_status tm = Stopped)"
  using assms
  by (auto simp: stop_idleTimer_def Timer_Stop_def split: option.splits if_splits dest!: subsetD [OF set_update_subset_insert])

section \<open>Every step keeps it\<close>

lemma word_suc: "unat (w :: 64 word) < 2 ^ 63 \<Longrightarrow> unat (w + 1) = Suc (unat w)"
  by (simp add: unat_word_ariths)

lemma word_pred: "0 < unat (w :: 64 word) \<Longrightarrow> unat (w - 1) = unat w - 1"
  by (metis One_nat_def Suc_pred' add.right_neutral add_diff_cancel_left' add_Suc_right diff_add_cancel
      less_numeral_extra(3) unat_1 unat_minus_one unat_0)

lemma word_less_suc: "unat (w :: 64 word) < 2 ^ 63 \<Longrightarrow> w < w + 1"
  by (simp add: word_less_nat_alt word_suc)

lemma word_nonpos:
  assumes "unat (w :: 64 word) < 2 ^ 63"
  shows "w \<le>s 0 \<longleftrightarrow> unat w = 0"
proof -
  have u: "uint w < 2 ^ 63" using assms by (metis of_nat_less_iff of_nat_numeral of_nat_power uint_nat)
  have "sint w = uint w" using u signed_take_bit_int_eq_self [of 63 "uint w"] uint_ge_0 [of w]
    by (simp add: sint_uint del: uint_ge_0)
  then show ?thesis by (simp add: word_sle_eq unat_eq_0 uint_0_iff le_less)
qed

lemma timers_older:
  assumes "idle_counters s h" "unat (idleGeneration s) < 2 ^ 63" "tm \<in> set (timers s)"
  shows "tm_generation tm < idleGeneration s + 1"
  using assms word_less_suc [of "idleGeneration s"] by (auto simp: idle_counters_def)

lemma idle_small:
  assumes "idle_counters s h" "length (e # h) < 2 ^ 62"
  shows "unat (idleGeneration s) < 2 ^ 63" "unat (activeSession s) < 2 ^ 63"
  using assms by (auto simp: idle_counters_def)

lemma index_ok: "idle_timers d s h \<Longrightarrow> idleTimer s = Some i \<Longrightarrow> i < length (timers s)"
  by (simp add: idle_timers_def)

lemma keep_started:
  assumes "idle_counters s h" "idle_timers d s h" "length (Started # h) < 2 ^ 62"
  shows "idle_counters ((sessionStarted s)\<lparr>handlers := handlers s + 1\<rparr>) (Started # h) \<and>
    idle_timers d ((sessionStarted s)\<lparr>handlers := handlers s + 1\<rparr>) (Started # h)"
proof -
  let ?s1 = "s\<lparr>activeSession := activeSession s + 1, idleGeneration := idleGeneration s + 1\<rparr>"
  have older: "tm_generation tm < idleGeneration s + 1 \<and> (tm_status tm \<in> {Pending, Done} \<longrightarrow> tm_deadline tm \<le> now s)"
    if "tm \<in> set (timers (stop_idleTimer ?s1))" for tm
    using stop_timers [OF that] timers_older [OF assms(1) idle_small(1) [OF assms(1,3)]] assms(2)
    by (force simp: idle_timers_def)
  show ?thesis
    using assms idle_small [OF assms(1,3)]
    by (auto simp: idle_counters_def idle_timers_def sessionStarted_def word_suc dest!: older)
qed

text \<open>A reset with no active session installs the one current timer.\<close>

lemma reset_timers:
  assumes "\<forall>tm \<in> set (timers s). tm_generation tm < idleGeneration s + 1 \<and>
      (tm_status tm \<in> {Pending, Done} \<longrightarrow> tm_deadline tm \<le> now s)"
    and "\<And>i. idleTimer s = Some i \<Longrightarrow> i < length (timers s)" and "handlers s = 0" and "quiet h = 0"
  shows "idle_timers d (resetIdleTimerLocked d s) h \<and>
    (\<forall>tm \<in> set (timers (resetIdleTimerLocked d s)). tm_generation tm \<le> idleGeneration s + 1)"
proof -
  have older: "tm_generation tm < idleGeneration s + 1 \<and> (tm_status tm \<in> {Pending, Done} \<longrightarrow> tm_deadline tm \<le> now s)"
    if "tm \<in> set (timers (stop_idleTimer s))" for tm
    using stop_timers [OF that] assms(1,2) by force
  show ?thesis
    using assms(3,4)
    by (auto simp: idle_timers_def current_def resetIdleTimerLocked_def AfterFunc_def Let_def nth_append
        dest!: older)
qed

lemma keep_finished:
  assumes "idle_counters s h" "idle_timers d s h" "length (Finished # h) < 2 ^ 62" "0 < handlers s"
  shows "idle_counters ((sessionFinished d s)\<lparr>handlers := handlers s - 1\<rparr>) (Finished # h) \<and>
    idle_timers d ((sessionFinished d s)\<lparr>handlers := handlers s - 1\<rparr>) (Finished # h)"
proof (cases "handlers s = 1")
  case False
  have pred: "unat (activeSession s - 1) = handlers s - 1"
    using assms by (simp add: idle_counters_def word_pred)
  then have "\<not> activeSession s - 1 \<le>s 0"
    using False assms idle_small [OF assms(1,3)] by (subst word_nonpos) (auto simp: idle_counters_def)
  with False assms pred show ?thesis
    by (auto simp: sessionFinished_def idle_counters_def idle_timers_def Let_def)
next
  case True
  let ?s1 = "s\<lparr>activeSession := 0, handlers := 0\<rparr>"
  have a: "activeSession s - 1 = 0" using True assms word_pred [of "activeSession s"] by (simp add: idle_counters_def unat_eq_zero)
  have eq: "(sessionFinished d s)\<lparr>handlers := handlers s - 1\<rparr> = resetIdleTimerLocked d ?s1"
    using True a by (simp add: sessionFinished_def idle_defs split: option.splits)
  have "idle_timers d (resetIdleTimerLocked d ?s1) (Finished # h) \<and>
    (\<forall>tm \<in> set (timers (resetIdleTimerLocked d ?s1)). tm_generation tm \<le> idleGeneration ?s1 + 1)"
    using assms timers_older [OF assms(1) idle_small(1) [OF assms(1,3)]] index_ok [OF assms(2)]
    by (intro reset_timers) (auto simp: idle_timers_def)
  moreover have "idleGeneration (resetIdleTimerLocked d ?s1) = idleGeneration s + 1"
    "activeSession (resetIdleTimerLocked d ?s1) = 0" "handlers (resetIdleTimerLocked d ?s1) = 0"
    by (simp_all add: resetIdleTimerLocked_def AfterFunc_def Let_def)
  ultimately show ?thesis
    unfolding eq using True assms idle_small [OF assms(1,3)] by (auto simp: idle_counters_def word_suc)
qed

lemma keep_tick:
  assumes "idle_counters s h" "idle_timers d s h"
  shows "idle_counters (s\<lparr>now := now s + int n\<rparr>) (Tick n # h) \<and>
    idle_timers d (s\<lparr>now := now s + int n\<rparr>) (Tick n # h)"
  using assms by (fastforce simp: idle_counters_def idle_timers_def current_def)

text \<open>A change of one timer's status, the new status being justified.\<close>

lemma keep_status:
  assumes "idle_counters s h" "idle_timers d s h" "i < length (timers s)" "tm_deadline (timers s ! i) \<le> now s"
    and "st \<noteq> Stopped" "live (e # h) = live h" "quiet (e # h) = quiet h" "exited s \<longrightarrow> x"
    and "st = Done \<longrightarrow> handlers s = 0 \<longrightarrow> x \<or> tm_generation (timers s ! i) \<noteq> idleGeneration s"
  shows "idle_counters ((set_status i st s)\<lparr>exited := x\<rparr>) (e # h) \<and>
    idle_timers d ((set_status i st s)\<lparr>exited := x\<rparr>) (e # h)"
proof -
  let ?t = "(set_status i st s)\<lparr>exited := x\<rparr>"
  have gens: "\<exists>tm' \<in> set (timers s). tm_generation tm = tm_generation tm' \<and> tm_deadline tm = tm_deadline tm' \<and>
      (tm_status tm = tm_status tm' \<or> tm_deadline tm \<le> now s)" if "tm \<in> set (timers ?t)" for tm
    using that assms(3,4) by (auto simp: set_status_def dest!: subsetD [OF set_update_subset_insert])
  have 1: "idle_counters ?t (e # h)"
    using assms(1,6) gens by (force simp: idle_counters_def set_status_def)
  have 2: "tm_generation tm = idleGeneration s \<longrightarrow> handlers s = 0 \<and> current d s h tm"
    "tm_status tm \<in> {Pending, Done} \<longrightarrow> tm_deadline tm \<le> now s" if "tm \<in> set (timers ?t)" for tm
    using gens [OF that] assms(2) by (force simp: idle_timers_def current_def)+
  have 3: "\<exists>k. idleTimer s = Some k \<and> k < length (timers s) \<and> current d s h (timers ?t ! k) \<and>
      tm_status (timers ?t ! k) \<noteq> Stopped \<and> (tm_status (timers ?t ! k) = Done \<longrightarrow> x)" if "handlers s = 0"
    using that assms(2,3,5,8,9) by (auto simp: idle_timers_def set_status_def nth_list_update current_def)
  have "current d ?t (e # h) tm \<longleftrightarrow> current d s h tm" for tm
    using assms(7) by (simp add: current_def set_status_def)
  with 1 2 3 assms(2) show ?thesis by (auto simp: idle_timers_def set_status_def)
qed

lemma keep_fire:
  assumes "idle_counters s h" "idle_timers d s h" "i < length (timers s)" "tm_deadline (timers s ! i) \<le> now s"
  shows "idle_counters (set_status i Pending s) (Fire i # h) \<and> idle_timers d (set_status i Pending s) (Fire i # h)"
  using keep_status [OF assms, of Pending "Fire i" "exited s"] by (simp add: set_status_def)

lemma keep_callback:
  assumes "idle_counters s h" "idle_timers d s h" "i < length (timers s)" "tm_status (timers s ! i) = Pending"
    "\<not> exited s" "t = timer_callback i (set_status i Done s)"
  shows "idle_counters t (Callback i # h) \<and> idle_timers d t (Callback i # h) \<and>
    (exited t \<longrightarrow> handlers t = 0 \<and> d \<le> quiet (Callback i # h))"
proof -
  let ?x = "activeSession s = 0 \<and> tm_generation (timers s ! i) = idleGeneration s"
  have t: "t = (set_status i Done s)\<lparr>exited := ?x\<rparr>"
    using assms(3,5,6) by (simp add: timer_callback_def set_status_def)
  have mem: "timers s ! i \<in> set (timers s)" using assms(3) by simp
  have due: "tm_deadline (timers s ! i) \<le> now s" using assms(2,4) mem by (auto simp: idle_timers_def)
  have act: "handlers s = 0 \<longleftrightarrow> activeSession s = 0"
    using assms(1) by (auto simp: idle_counters_def unat_0_iff)
  have "handlers s = 0 \<and> d \<le> quiet h" if ?x
    using that assms(2) mem due by (auto simp: idle_timers_def current_def)
  with t act keep_status [OF assms(1-3) due, of Done "Callback i" ?x] assms(5) show ?thesis
    by (auto simp: set_status_def)
qed

lemma idle_start: "idle_inv d (idle_init d, [])"
  by (simp add: idle_inv_def idle_init_def startIdleTimer_def idle_defs idle_counters_def idle_timers_def current_def)

lemma idle_keep:
  assumes "idle_inv d (s, h)" "idle_step d s e t"
  shows "idle_inv d (t, e # h)"
proof (cases "length (e # h) < 2 ^ 62")
  case True
  with assms(1) have g: "idle_counters s h" "idle_timers d s h" by (auto simp: idle_inv_def)
  have "exited (sessionStarted s) = exited s" "exited (sessionFinished d s) = exited s"
    by (auto simp: sessionStarted_def sessionFinished_def resetIdleTimerLocked_def AfterFunc_def Let_def)
  with assms(2) show ?thesis
  proof cases
    case started
    with keep_started [OF g] True \<open>exited (sessionStarted s) = exited s\<close> show ?thesis by (simp add: idle_inv_def)
  next
    case finished
    with keep_finished [OF g] True \<open>exited (sessionFinished d s) = exited s\<close> show ?thesis
      by (simp add: idle_inv_def)
  next
    case (tick n)
    with keep_tick [OF g] show ?thesis by (simp add: idle_inv_def)
  next
    case (fire i)
    with keep_fire [OF g] show ?thesis by (simp add: idle_inv_def set_status_def)
  next
    case (callback i)
    show ?thesis
      using keep_callback [OF g callback(4,5,3,2)] unfolding idle_inv_def callback(1) by blast
  qed
qed (simp add: idle_inv_def)

interpretation idle: invariant_of "\<lambda>c. c = (idle_init d, [])" "hist_step d" "idle_inv d" for d
  by unfold_locales (auto simp: idle_start hist_step_def intro: idle_keep)

lemma run_hist: "run (idle_step d) s ls t \<Longrightarrow> run (hist_step d) (s, h) ls (t, rev ls @ h)"
  by (induction arbitrary: h rule: run.induct) (auto simp: run_cons_simp hist_step_def)

lemma idle_reachable:
  assumes "run (idle_step d) (idle_init d) ls t"
  shows "idle_inv d (t, rev ls)"
  using idle.run_good [OF refl run_hist [OF assms, of "[]"]] by simp

lemma idle_current_exits:
  assumes "idle_counters s h" "idle_timers d s h" "handlers s = 0" "\<not> exited s" "d \<le> quiet h + int n"
  shows "\<exists>i es u. (es = [Fire i, Callback i] \<or> es = [Callback i]) \<and>
    run (idle_step d) s (Tick n # es) u \<and> exited u"
proof -
  from assms(2-4) obtain i where i: "i < length (timers s)" "current d s h (timers s ! i)"
    "tm_status (timers s ! i) = Armed \<or> tm_status (timers s ! i) = Pending"
    by (auto simp: idle_timers_def) (metis timer_status.exhaust)+
  have a: "activeSession s = 0" using assms(1,3) by (simp add: idle_counters_def unat_0_iff)
  show ?thesis
  proof (cases "tm_status (timers s ! i) = Armed")
    case True
    have "\<exists>u. run (idle_step d) s (Tick n # [Fire i, Callback i]) u \<and> exited u"
      using True i a assms(4,5)
      by (auto simp: run_cons_simp idle_step_simps set_status_def timer_callback_def current_def)
    then show ?thesis by blast
  next
    case False
    have "\<exists>u. run (idle_step d) s (Tick n # [Callback i]) u \<and> exited u"
      using False i a assms(4,5)
      by (auto simp: run_cons_simp idle_step_simps set_status_def timer_callback_def current_def)
    then show ?thesis by blast
  qed
qed

section \<open>Properties\<close>

text \<open>
  C3: the guest only stops when it is idle. In every interleaving of sessions, clock and timer
  callbacks (short of \<open>2 ^ 62\<close> events, where a 64 bit counter could wrap), the server exits only
  with no session under way and not before \<open>guestIdleTimeout\<close> has passed since the last session
  started or finished; a stale callback that was already launched does no harm.
\<close>

theorem idle_exit_is_safe:
  assumes "run (idle_step d) (idle_init d) ls t" and "length ls < 2 ^ 62" and "exited t"
  shows "live (rev ls) = 0 \<and> handlers t = 0 \<and> d \<le> quiet (rev ls)"
  using idle_reachable [OF assms(1)] assms(2,3) by (simp add: idle_inv_def idle_counters_def)

text \<open>
  C21: an idle guest is never forgotten. In every reachable state with no session under way the
  current timer is running, so once the rest of the timeout has passed without a session its
  callback stops the server.
\<close>

theorem idle_guest_can_exit:
  assumes "run (idle_step d) (idle_init d) ls t" and "length ls < 2 ^ 62" and "\<not> exited t"
    and "live (rev ls) = 0" and "d \<le> quiet (rev ls) + int n"
  shows "\<exists>i es u. (es = [Fire i, Callback i] \<or> es = [Callback i]) \<and>
    run (idle_step d) t (Tick n # es) u \<and> exited u"
proof -
  from idle_reachable [OF assms(1)] assms(2) have "idle_counters t (rev ls)" "idle_timers d t (rev ls)"
    by (auto simp: idle_inv_def)
  moreover from this(1) assms(4) have "handlers t = 0" by (simp add: idle_counters_def)
  ultimately show ?thesis using idle_current_exits assms(3,5) by blast
qed

section \<open>Witnesses\<close>

text \<open>The first timer fires just before a session starts; its callback comes too late to matter.\<close>

definition demo_idle_run :: "idle_event list" where
  "demo_idle_run = [Tick 5, Fire 0, Started, Callback 0, Finished, Tick 5, Fire 1, Callback 1]"

fun idle_next :: "int \<Rightarrow> idle_state \<Rightarrow> idle_event \<Rightarrow> idle_state option" where
  "idle_next d s Started = (if exited s then None else Some ((sessionStarted s)\<lparr>handlers := handlers s + 1\<rparr>))"
| "idle_next d s Finished =
     (if exited s \<or> handlers s = 0 then None else Some ((sessionFinished d s)\<lparr>handlers := handlers s - 1\<rparr>))"
| "idle_next d s (Tick n) = (if exited s then None else Some (s\<lparr>now := now s + int n\<rparr>))"
| "idle_next d s (Fire i) =
     (if \<not> exited s \<and> i < length (timers s) \<and> tm_status (timers s ! i) = Armed \<and> tm_deadline (timers s ! i) \<le> now s
      then Some (set_status i Pending s) else None)"
| "idle_next d s (Callback i) =
     (if \<not> exited s \<and> i < length (timers s) \<and> tm_status (timers s ! i) = Pending
      then Some (timer_callback i (set_status i Done s)) else None)"

fun idle_exec :: "int \<Rightarrow> idle_state \<Rightarrow> idle_event list \<Rightarrow> idle_state option" where
  "idle_exec d s [] = Some s"
| "idle_exec d s (e # es) = (case idle_next d s e of None \<Rightarrow> None | Some t \<Rightarrow> idle_exec d t es)"

lemma idle_step_next: "idle_step d s e t \<longleftrightarrow> idle_next d s e = Some t"
  by (cases e) (auto simp: idle_step_simps)

lemma run_exec: "run (idle_step d) s es t \<longleftrightarrow> idle_exec d s es = Some t"
  by (induction es arbitrary: s) (auto simp: run_cons_simp idle_step_next split: option.splits)

lemma demo_idle: "map_option exited (idle_exec 5 (idle_init 5) demo_idle_run) = Some True"
  by code_simp

theorem idle_exit_is_safe_witness:
  "live (rev demo_idle_run) = 0 \<and> 5 \<le> quiet (rev demo_idle_run)"
proof -
  obtain t where "run (idle_step 5) (idle_init 5) demo_idle_run t" "exited t"
    using demo_idle by (auto simp: run_exec)
  then show ?thesis using idle_exit_is_safe [of 5 demo_idle_run t] by (simp add: demo_idle_run_def)
qed

theorem idle_guest_can_exit_witness:
  "\<exists>i es u. (es = [Fire i, Callback i] \<or> es = [Callback i]) \<and>
    run (idle_step 5) (idle_init 5) (Tick 5 # es) u \<and> exited u"
  by (rule idle_guest_can_exit [of 5 "[]" "idle_init 5" 5])
    (simp_all add: idle_init_def startIdleTimer_def idle_defs)

end
