(* ===== verification/Guest.thy ===== *)
theory Guest
  imports Session Guest_Idle "HOL-Library.Multiset"
begin

text \<open>
  The guest server (\<open>support/guest/config.go\<close>, \<open>support/guest/main.go\<close>): its configuration from
  environment variables, the key it admits, and the handling of one session as the ordered
  effects it has. Log lines are left out, except for the text \<open>terminalModesString\<close> puts in one.
  The environment, the process calls and the name of the allocated terminal are parameters.
\<close>

section \<open>Configuration\<close>

record guest_config =
  guestHostKey :: Signer
  guestAllowKey :: PublicKey
  guestIdleTimeout :: int
  guestShell :: string
  guestHome :: string

definition defaultShell :: string where "defaultShell = ''/bin/sh''"
definition defaultHome :: string where "defaultHome = ''/home/user''"
definition defaultGuestIdleTimeout :: int where "defaultGuestIdleTimeout = 60 * 1000000000"

type_synonym getenv = "string \<Rightarrow> string"

definition parseHostKey :: "key_env \<Rightarrow> getenv \<Rightarrow> Signer result" where
  "parseHostKey E getenv =
     (let hostKeyPEM = TrimSpace (getenv ''GUEST_HOST_KEY'') in
      if hostKeyPEM = [] then Inl (Errorf [T ''GUEST_HOST_KEY env var is not set''])
      else
        (case ParsePrivateKey E hostKeyPEM of
           Inl err \<Rightarrow> Inl (Wrapf [T ''parse GUEST_HOST_KEY: ''] err)
         | Inr hostKey \<Rightarrow> Inr hostKey))"

definition parseAllowKey :: "key_env \<Rightarrow> getenv \<Rightarrow> PublicKey result" where
  "parseAllowKey E getenv =
     (let allowKeyLine = TrimSpace (getenv ''GUEST_ALLOW_KEY'') in
      if allowKeyLine = [] then Inl (Errorf [T ''GUEST_ALLOW_KEY env var is not set''])
      else
        (case ParseAuthorizedKey E allowKeyLine of
           Inl err \<Rightarrow> Inl (Wrapf [T ''parse GUEST_ALLOW_KEY: ''] err)
         | Inr allowKey \<Rightarrow> Inr allowKey))"

definition parseIdleTimeout :: "getenv \<Rightarrow> int result" where
  "parseIdleTimeout getenv =
     (let raw = TrimSpace (getenv ''GUEST_IDLE_TIMEOUT'') in
      if raw = [] then Inr defaultGuestIdleTimeout
      else
        (case ParseDuration raw of
           Inl err \<Rightarrow> Inl (Wrapf [T ''parse GUEST_IDLE_TIMEOUT: ''] err)
         | Inr idleTimeout \<Rightarrow>
             if idleTimeout \<le> 0 then Inl (Errorf [T ''GUEST_IDLE_TIMEOUT must be positive''])
             else Inr idleTimeout))"

text \<open>\<open>init\<close>: an error is fatal (\<open>fatalConfig\<close> prints it and exits with status 1).\<close>

definition guest_init :: "key_env \<Rightarrow> getenv \<Rightarrow> guest_config result" where
  "guest_init E getenv =
     (case parseHostKey E getenv of
        Inl err \<Rightarrow> Inl err
      | Inr hostKey \<Rightarrow>
          (case parseAllowKey E getenv of
             Inl err \<Rightarrow> Inl err
           | Inr allowKey \<Rightarrow>
               (case parseIdleTimeout getenv of
                  Inl err \<Rightarrow> Inl err
                | Inr idleTimeout \<Rightarrow>
                    Inr \<lparr>guestHostKey = hostKey, guestAllowKey = allowKey, guestIdleTimeout = idleTimeout,
                      guestShell = cmp_Or [getenv ''SHELL'', defaultShell],
                      guestHome = cmp_Or [getenv ''HOME'', defaultHome]\<rparr>)))"

section \<open>Sessions\<close>

definition allowMuxKey :: "(PublicKey \<Rightarrow> PublicKey \<Rightarrow> bool) \<Rightarrow> guest_config \<Rightarrow> PublicKey \<Rightarrow> bool" where
  "allowMuxKey keys_equal g key = keys_equal key (guestAllowKey g)"

record guest_env =
  g_Environ :: "string list"
  g_PtyName :: string
  g_PtyStart :: "Cmd \<Rightarrow> error option"
  g_Start :: "Cmd \<Rightarrow> error option"
  g_Wait :: "Cmd \<Rightarrow> error option"

datatype guest_effect =
    GSessionStarted
  | GStartPTY Cmd
  | GStart Cmd
  | GWait
  | GStderr string error
  | GExit int
  | GSessionFinished

definition buildEnv :: "guest_env \<Rightarrow> guest_config \<Rightarrow> string \<Rightarrow> string list" where
  "buildEnv V g term =
     (let env = g_Environ V;
          env = (if term \<noteq> [] then env @ [''TERM='' @ term] else env)
      in env @ [''HOME='' @ guestHome g])"

text \<open>What \<open>runWithPTY\<close> and \<open>runDirect\<close> do with the result of \<open>Wait\<close>.\<close>

definition report_wait :: "error option \<Rightarrow> guest_effect list \<times> error option" where
  "report_wait waitErr =
     (case waitErr of
        None \<Rightarrow> ([GExit 0], None)
      | Some err \<Rightarrow>
          (case as_exec_exit err of
             Some c \<Rightarrow> ([GExit c], None)
           | None \<Rightarrow> ([GExit 1], Some err)))"

definition runWithPTY :: "guest_env \<Rightarrow> Cmd \<Rightarrow> guest_effect list \<times> error option" where
  "runWithPTY V cmd =
     (case g_PtyStart V cmd of
        Some err \<Rightarrow> ([GStartPTY cmd, GStderr ''start shell: '' err, GExit 1], Some err)
      | None \<Rightarrow> (case report_wait (g_Wait V cmd) of (ops, err) \<Rightarrow> ([GStartPTY cmd, GWait] @ ops, err)))"

definition runDirect :: "guest_env \<Rightarrow> Cmd \<Rightarrow> guest_effect list \<times> error option" where
  "runDirect V cmd =
     (case g_Start V cmd of
        Some err \<Rightarrow> ([GStart cmd, GStderr ''start: '' err, GExit 1], Some err)
      | None \<Rightarrow> (case report_wait (g_Wait V cmd) of (ops, err) \<Rightarrow> ([GStart cmd, GWait] @ ops, err)))"

text \<open>Lines 134 to 146: the command line and environment of the session.\<close>

definition session_cmd :: "guest_env \<Rightarrow> guest_config \<Rightarrow> Session \<Rightarrow> Cmd" where
  "session_cmd V g s =
     (let isPTY = (sess_Pty s \<noteq> None);
          term = (case sess_Pty s of None \<Rightarrow> [] | Some pty \<Rightarrow> pty_Term pty);
          args = (if isPTY then [''-li''] else [''-l'']);
          cmd = \<lparr>cmd_Args = guestShell g # args, cmd_Env = buildEnv V g term\<rparr>;
          cmd = (if isPTY then cmd\<lparr>cmd_Env := cmd_Env cmd @ [''SSH_TTY='' @ g_PtyName V]\<rparr> else cmd)
      in
      if sess_RawCommand s \<noteq> [] \<and> \<not> isPTY
      then \<lparr>cmd_Args = [guestShell g, ''-lc'', sess_RawCommand s], cmd_Env = buildEnv V g []\<rparr>
      else cmd)"

definition handleSession :: "guest_env \<Rightarrow> guest_config \<Rightarrow> Session \<Rightarrow> guest_effect list \<times> error option" where
  "handleSession V g s =
     (let cmd = session_cmd V g s in
      case (if sess_Pty s \<noteq> None then runWithPTY V cmd else runDirect V cmd) of
        (ops, sessionErr) \<Rightarrow> ([GSessionStarted] @ ops @ [GSessionFinished], sessionErr))"

definition isExpectedExit :: "error option \<Rightarrow> bool" where
  "isExpectedExit err =
     (case err of None \<Rightarrow> True | Some e \<Rightarrow> as_exec_exit e \<noteq> None)"

text \<open>A Go map has no order: \<open>modes\<close> lists its entries in the order a \<open>range\<close> happens to take.\<close>

definition terminalModesString :: "TerminalModes \<Rightarrow> string" where
  "terminalModesString modes =
     (if length modes = 0 then []
      else
        (let keys = sort (map (\<lambda>(op, _). unat op) modes);
             parts = map (\<lambda>op. fmtInt op @ ''='' @
               fmtInt (case map_of modes (word_of_nat op) of None \<Rightarrow> 0 | Some v \<Rightarrow> unat v)) keys
         in Join parts '',''))"

section \<open>Starting\<close>

record guest_server =
  srv_Addr :: string
  srv_PublicKeyHandler :: "PublicKey \<Rightarrow> bool"
  srv_Handler :: "Session \<Rightarrow> guest_effect list \<times> error option"
  srv_HostKeys :: "Signer list"

definition listenAddr :: string where "listenAddr = '':2222''"

text \<open>
  \<open>main\<close>: the server and the state of the idle timer with which it listens, or the error that
  \<open>fatalf\<close> reports. The results of \<open>ssh.AllocatePty\<close> and \<open>ListenAndServe\<close> are given.
\<close>

definition guest_main ::
    "(PublicKey \<Rightarrow> PublicKey \<Rightarrow> bool) \<Rightarrow> guest_env \<Rightarrow> guest_config \<Rightarrow> error option \<Rightarrow> error option
     \<Rightarrow> (guest_server \<times> idle_state) result" where
  "guest_main keys_equal V g allocErr listenErr =
     (case allocErr of
        Some err \<Rightarrow> Inl (Wrapf [T ''enable pty allocation: ''] err)
      | None \<Rightarrow>
          (let server = \<lparr>srv_Addr = listenAddr, srv_PublicKeyHandler = allowMuxKey keys_equal g,
                 srv_Handler = handleSession V g, srv_HostKeys = [guestHostKey g]\<rparr>;
               idle = idle_init (guestIdleTimeout g)
           in
           case listenErr of
             Some err \<Rightarrow> Inl (Wrapf [T ''listen: ''] err)
           | None \<Rightarrow> Inr (server, idle)))"

section \<open>Lemmas\<close>

definition guest_exits :: "guest_effect list \<Rightarrow> int list" where
  "guest_exits es = concat (map (\<lambda>e. case e of GExit c \<Rightarrow> [c] | _ \<Rightarrow> []) es)"

definition guest_started :: "guest_effect list \<Rightarrow> Cmd list" where
  "guest_started es = concat (map (\<lambda>e. case e of GStart c \<Rightarrow> [c] | GStartPTY c \<Rightarrow> [c] | _ \<Rightarrow> []) es)"

definition process_status :: "guest_env \<Rightarrow> Session \<Rightarrow> Cmd \<Rightarrow> int" where
  "process_status V s cmd =
     (case (if sess_Pty s \<noteq> None then g_PtyStart V cmd else g_Start V cmd) of
        Some _ \<Rightarrow> 1
      | None \<Rightarrow>
          (case g_Wait V cmd of
             None \<Rightarrow> 0
           | Some err \<Rightarrow> (case root_cause err of ExecExitError c \<Rightarrow> c | _ \<Rightarrow> 1)))"

lemma report_wait_exits:
  "guest_exits (fst (report_wait w)) =
   [case w of None \<Rightarrow> 0 | Some err \<Rightarrow> (case root_cause err of ExecExitError c \<Rightarrow> c | _ \<Rightarrow> 1)]"
  "guest_started (fst (report_wait w)) = []"
proof -
  have eq: "(case as_exec_exit err of Some c \<Rightarrow> c | None \<Rightarrow> 1) = (case root_cause err of ExecExitError c \<Rightarrow> c | _ \<Rightarrow> 1)" for err
    by (induction err) auto
  show "guest_exits (fst (report_wait w)) =
      [case w of None \<Rightarrow> 0 | Some err \<Rightarrow> (case root_cause err of ExecExitError c \<Rightarrow> c | _ \<Rightarrow> 1)]"
    by (auto simp: report_wait_def guest_exits_def eq [symmetric] split: option.splits)
  show "guest_started (fst (report_wait w)) = []"
    by (auto simp: report_wait_def guest_started_def split: option.splits)
qed

lemma report_wait_no_marks: "GSessionStarted \<notin> set (fst (report_wait w)) \<and> GSessionFinished \<notin> set (fst (report_wait w))"
  by (auto simp: report_wait_def split: option.splits)

lemma guest_lists_append [simp]:
  "guest_exits (xs @ ys) = guest_exits xs @ guest_exits ys"
  "guest_started (xs @ ys) = guest_started xs @ guest_started ys"
  by (simp_all add: guest_exits_def guest_started_def)

lemma guest_lists_Cons [simp]:
  "guest_exits (e # es) = (case e of GExit c \<Rightarrow> [c] | _ \<Rightarrow> []) @ guest_exits es"
  "guest_started (e # es) = (case e of GStart c \<Rightarrow> [c] | GStartPTY c \<Rightarrow> [c] | _ \<Rightarrow> []) @ guest_started es"
  "guest_exits [] = []" "guest_started [] = []"
  by (simp_all add: guest_exits_def guest_started_def)

section \<open>Properties\<close>

text \<open>
  C31: every session of the guest counts as active for exactly as long as it runs, starts one
  process, and reports one exit status: 1 if the process cannot be started, its own status if it
  exits, and 1 if waiting for it fails otherwise.
\<close>

theorem guest_session_shape:
  "\<exists>mid. fst (handleSession V g s) = GSessionStarted # mid @ [GSessionFinished] \<and>
     GSessionStarted \<notin> set mid \<and> GSessionFinished \<notin> set mid \<and>
     guest_started mid = [session_cmd V g s] \<and>
     guest_exits mid = [process_status V s (session_cmd V g s)]"
proof -
  let ?cmd = "session_cmd V g s"
  let ?r = "if sess_Pty s \<noteq> None then runWithPTY V ?cmd else runDirect V ?cmd"
  have "GSessionStarted \<notin> set (fst ?r) \<and> GSessionFinished \<notin> set (fst ?r) \<and> guest_started (fst ?r) = [?cmd] \<and>
      guest_exits (fst ?r) = [process_status V s ?cmd]"
    using report_wait_no_marks [of "g_Wait V ?cmd"] report_wait_exits [of "g_Wait V ?cmd"]
    by (auto simp: runWithPTY_def runDirect_def process_status_def split_beta split: option.splits)
  moreover have "fst (handleSession V g s) = GSessionStarted # fst ?r @ [GSessionFinished]"
    by (simp add: handleSession_def Let_def split_beta)
  ultimately show ?thesis by blast
qed

text \<open>
  C32: which process a session gets, for a session that asks for a command or for a terminal, not
  both. A requested command is run through \<open>-lc\<close> of the configured shell; without one there is a
  login shell, interactive with a terminal. With a terminal, \<open>TERM\<close> and \<open>SSH_TTY\<close> are set from it;
  \<open>HOME\<close> is the guest's in every case. (With a terminal, the code does not read the command.)
\<close>

theorem guest_session_command:
  assumes "sess_Pty s = None \<or> sess_RawCommand s = []"
  shows "cmd_Args (session_cmd V g s) =
     (if sess_RawCommand s \<noteq> [] then [guestShell g, ''-lc'', sess_RawCommand s]
      else if sess_Pty s \<noteq> None then [guestShell g, ''-li''] else [guestShell g, ''-l'']) \<and>
   env_lookup (cmd_Env (session_cmd V g s)) ''HOME'' = Some (guestHome g) \<and>
   (case sess_Pty s of
      None \<Rightarrow> cmd_Env (session_cmd V g s) = g_Environ V @ [''HOME='' @ guestHome g]
    | Some pty \<Rightarrow>
        env_lookup (cmd_Env (session_cmd V g s)) ''SSH_TTY'' = Some (g_PtyName V) \<and>
        env_lookup (cmd_Env (session_cmd V g s)) ''TERM'' =
          (if pty_Term pty = [] then env_lookup (g_Environ V) ''TERM'' else Some (pty_Term pty)))"
  using assms by (auto simp: session_cmd_def buildEnv_def env_lookup_def Let_def split: option.splits)

definition example_guest :: guest_config where
  "example_guest =
     \<lparr>guestHostKey = ''signer'', guestAllowKey = ''key'', guestIdleTimeout = 60000000000,
      guestShell = defaultShell, guestHome = defaultHome\<rparr>"

definition example_processes :: guest_env where
  "example_processes =
     \<lparr>g_Environ = [''PATH=/bin''], g_PtyName = ''/dev/pts/0'', g_PtyStart = (\<lambda>_. None), g_Start = (\<lambda>_. None),
      g_Wait = (\<lambda>_. None)\<rparr>"

definition example_session :: Session where
  "example_session =
     \<lparr>sess_id = 1, sess_User = ''guest-1'', sess_RawCommand = ''uptime'', sess_Environ = [],
      sess_Context = new_Context, sess_Pty = None\<rparr>"

theorem guest_session_command_witness:
  "cmd_Args (session_cmd example_processes example_guest example_session) = [''/bin/sh'', ''-lc'', ''uptime''] \<and>
   env_lookup (cmd_Env (session_cmd example_processes example_guest example_session)) ''HOME'' = Some ''/home/user''"
proof -
  have f: "sess_Pty example_session = None" "sess_RawCommand example_session = ''uptime''"
    "guestShell example_guest = ''/bin/sh''" "guestHome example_guest = ''/home/user''"
    by (simp_all add: example_session_def example_guest_def defaultShell_def defaultHome_def)
  note c = guest_session_command [OF disjI1 [OF f(1)], of example_processes example_guest]
  show ?thesis using conjunct1 [OF c] conjunct1 [OF conjunct2 [OF c]] by (simp add: f)
qed

text \<open>
  The text of the terminal modes does not depend on the order in which the map is read.
\<close>

lemma terminal_modes_order:
  assumes "distinct (map fst modes)" and "mset modes = mset modes'"
  shows "terminalModesString modes = terminalModesString modes'"
proof -
  have "mset (map fst modes) = mset (map fst modes')" using assms(2) by simp
  then have d: "distinct (map fst modes')" using assms(1) mset_eq_imp_distinct_iff by blast
  have "map_of modes = map_of modes'"
    using assms(1) d mset_eq_setD [OF assms(2)] by (rule map_of_inject_set [THEN iffD2])
  moreover have "sort (map (\<lambda>(op, _). unat op) modes) = sort (map (\<lambda>(op, _). unat op) modes')"
    by (rule properties_for_sort) (use assms in simp_all)
  moreover have "length modes = length modes'" using assms(2) by (rule mset_eq_length)
  ultimately show ?thesis by (simp add: terminalModesString_def)
qed

end
