(* ===== verification/GoCrypto.thy ===== *)
theory GoCrypto
  imports GoStrings "HOL-Library.Word"
begin

text \<open>
  The parts of Go's \<open>crypto\<close> and \<open>encoding\<close> packages that name instances and derive guest keys:
  \<open>sha256.Sum256\<close> (FIPS 180-4), \<open>hmac.New(sha256.New, key)\<close> (RFC 2104) and
  \<open>hex.EncodeToString\<close>. Byte strings are character lists.
\<close>

unbundle bit_operations_syntax

section \<open>SHA-256\<close>

type_synonym w32 = "32 word"

text \<open>
  The constants as the standard defines them: the first 32 bits of the fractional parts of the cube
  roots (for the rounds) and of the square roots (for the initial state) of the first primes. The
  root of \<open>p\<close>, scaled by \<open>2 ^ 32\<close>, is found bit by bit.
\<close>

definition first_primes :: "int list" where
  "first_primes =
     [2, 3, 5, 7, 11, 13, 17, 19, 23, 29, 31, 37, 41, 43, 47, 53,
      59, 61, 67, 71, 73, 79, 83, 89, 97, 101, 103, 107, 109, 113, 127, 131,
      137, 139, 149, 151, 157, 163, 167, 173, 179, 181, 191, 193, 197, 199, 211, 223,
      227, 229, 233, 239, 241, 251, 257, 263, 269, 271, 277, 281, 283, 293, 307, 311]"

fun root_bits :: "nat \<Rightarrow> nat \<Rightarrow> int \<Rightarrow> int \<Rightarrow> int" where
  "root_bits 0 e x r = r"
| "root_bits (Suc k) e x r = (let r' = r + 2 ^ k in root_bits k e x (if r' ^ e \<le> x then r' else r))"

definition scaled_root :: "nat \<Rightarrow> int \<Rightarrow> int" where
  "scaled_root e p = root_bits 35 e (p * 2 ^ (32 * e)) 0"

definition sha256_K :: "w32 list" where
  "sha256_K = map (\<lambda>p. word_of_int (scaled_root 3 p)) first_primes"

definition sha256_H :: "w32 list" where
  "sha256_H = map (\<lambda>p. word_of_int (scaled_root 2 p)) (take 8 first_primes)"

definition rotr :: "nat \<Rightarrow> w32 \<Rightarrow> w32" where
  "rotr n w = drop_bit n w OR push_bit (32 - n) w"

definition big_endian :: "string \<Rightarrow> w32" where
  "big_endian cs = foldl (\<lambda>w c. w * 256 + of_char c) 0 cs"

definition byte_at :: "'a::len word \<Rightarrow> nat \<Rightarrow> char" where
  "byte_at w k = char_of (uint (drop_bit (8 * k) w))"

fun words :: "nat \<Rightarrow> string \<Rightarrow> w32 list" where
  "words 0 s = []"
| "words (Suc n) s = big_endian (take 4 s) # words n (drop 4 s)"

text \<open>The message schedule, extended to the right one word at a time.\<close>

fun schedule :: "nat \<Rightarrow> w32 list \<Rightarrow> w32 list" where
  "schedule 0 w = w"
| "schedule (Suc n) w =
     (let t = length w;
          a = w ! (t - 15); b = w ! (t - 2);
          s0 = rotr 7 a XOR rotr 18 a XOR drop_bit 3 a;
          s1 = rotr 17 b XOR rotr 19 b XOR drop_bit 10 b
      in schedule n (w @ [w ! (t - 16) + s0 + w ! (t - 7) + s1]))"

definition sha256_round :: "w32 list \<Rightarrow> w32 \<times> w32 \<Rightarrow> w32 list" where
  "sha256_round hs kw =
     (case hs of
        [a, b, c, d, e, f, g, h] \<Rightarrow>
          (let S1 = rotr 6 e XOR rotr 11 e XOR rotr 25 e;
               ch = (e AND f) XOR (NOT e AND g);
               t1 = h + S1 + ch + fst kw + snd kw;
               S0 = rotr 2 a XOR rotr 13 a XOR rotr 22 a;
               maj = (a AND b) XOR (a AND c) XOR (b AND c)
           in [t1 + S0 + maj, a, b, c, d + t1, e, f, g])
      | _ \<Rightarrow> hs)"

definition sha256_block :: "w32 list \<Rightarrow> string \<Rightarrow> w32 list" where
  "sha256_block hs block =
     map2 (+) hs (foldl sha256_round hs (zip sha256_K (schedule 48 (words 16 block))))"

definition sha256_pad :: "string \<Rightarrow> string" where
  "sha256_pad m =
     (let n = length m; z = (119 - n mod 64) mod 64 in
      m @ [CHR 0x80] @ replicate z (CHR 0x00) @ map (byte_at (of_nat (8 * n) :: 64 word)) [7, 6, 5, 4, 3, 2, 1, 0])"

fun sha256_blocks :: "nat \<Rightarrow> w32 list \<Rightarrow> string \<Rightarrow> w32 list" where
  "sha256_blocks 0 hs s = hs"
| "sha256_blocks (Suc n) hs s = sha256_blocks n (sha256_block hs (take 64 s)) (drop 64 s)"

definition Sum256 :: "string \<Rightarrow> string" where
  "Sum256 m =
     (let s = sha256_pad m in
      concat (map (\<lambda>w. map (byte_at w) [3, 2, 1, 0])
        (sha256_blocks (length s div 64) sha256_H s)))"

section \<open>HMAC and hexadecimal text\<close>

definition xor_bytes :: "8 word \<Rightarrow> string \<Rightarrow> string" where
  "xor_bytes n s = map (\<lambda>c. char_of (uint (of_char c XOR n))) s"

definition hmac_sha256 :: "string \<Rightarrow> string \<Rightarrow> string" where
  "hmac_sha256 key m =
     (let k0 = (if 64 < length key then Sum256 key else key);
          k = k0 @ replicate (64 - length k0) (CHR 0x00)
      in Sum256 (xor_bytes 0x5c k @ Sum256 (xor_bytes 0x36 k @ m)))"

definition hex_digit :: "nat \<Rightarrow> char" where
  "hex_digit n = ''0123456789abcdef'' ! n"

definition hex_EncodeToString :: "string \<Rightarrow> string" where
  "hex_EncodeToString s = concat (map (\<lambda>c. [hex_digit (of_char c div 16), hex_digit (of_char c mod 16)]) s)"

section \<open>Lengths and alphabets\<close>

lemma length_sha256_round [simp]: "length (sha256_round hs kw) = length hs"
  by (auto simp: sha256_round_def Let_def split: list.splits)

lemma length_foldl_round [simp]: "length (foldl sha256_round hs kws) = length hs"
  by (induction kws arbitrary: hs) simp_all

lemma length_sha256_blocks [simp]: "length (sha256_blocks n hs s) = length hs"
  by (induction n arbitrary: hs s) (simp_all add: sha256_block_def)

lemma length_Sum256 [simp]: "length (Sum256 m) = 32"
proof -
  have "length (concat (map (\<lambda>w. map (byte_at w) [3, 2, 1, 0]) ws)) = 4 * length ws" for ws :: "w32 list"
    by (induction ws) simp_all
  then show ?thesis by (simp add: Sum256_def Let_def sha256_H_def first_primes_def)
qed

lemma length_hmac_sha256 [simp]: "length (hmac_sha256 key m) = 32"
  by (simp add: hmac_sha256_def Let_def)

lemma length_hex [simp]: "length (hex_EncodeToString s) = 2 * length s"
  by (induction s) (simp_all add: hex_EncodeToString_def)

definition hex_chars :: "char set" where
  "hex_chars = set ''0123456789abcdef''"

lemma hex_digit_chars: "n < 16 \<Longrightarrow> hex_digit n \<in> hex_chars"
  unfolding hex_digit_def hex_chars_def by (intro nth_mem) simp

lemma hex_alphabet: "set (hex_EncodeToString s) \<subseteq> hex_chars"
proof -
  have "(of_char c :: nat) div 16 < 16" for c
    by (rule less_mult_imp_div_less) simp
  then show ?thesis by (auto simp: hex_EncodeToString_def hex_digit_chars)
qed

lemma hex_inj: "hex_EncodeToString s = hex_EncodeToString t \<longleftrightarrow> s = t"
proof (induction s arbitrary: t)
  case Nil
  then show ?case by (cases t) (simp_all add: hex_EncodeToString_def)
next
  case (Cons c s)
  have digit_inj: "hex_digit m = hex_digit n \<longleftrightarrow> m = n" if "m < 16" "n < 16" for m n
    using that nth_eq_iff_index_eq [of "''0123456789abcdef''" m n] by (simp add: hex_digit_def)
  have byte: "(of_char c :: nat) div 16 < 16" for c
    by (rule less_mult_imp_div_less) simp
  show ?case
  proof (cases t)
    case (Cons d t')
    have "hex_EncodeToString (c # s) = hex_EncodeToString (d # t') \<longleftrightarrow>
        (of_char c :: nat) div 16 = of_char d div 16 \<and> (of_char c :: nat) mod 16 = of_char d mod 16 \<and>
        hex_EncodeToString s = hex_EncodeToString t'"
      by (auto simp: hex_EncodeToString_def digit_inj byte)
    also have "\<dots> \<longleftrightarrow> (of_char c :: nat) = of_char d \<and> s = t'"
      using Cons.IH by (metis div_mult_mod_eq)
    finally show ?thesis using Cons by simp
  qed (simp add: hex_EncodeToString_def)
qed

end
