(* ===== verification/GoErrors.thy ===== *)
theory GoErrors
  imports GoDuration
begin

text \<open>
  The text of an error, \<open>err.Error()\<close>, where the program looks at it or prints it. Quoting (\<open>%q\<close>) is
  \<open>strconv.Quote\<close>, an argument: its table of printable characters is not written out here.
\<close>

fun frag_text :: "(string \<Rightarrow> string) \<Rightarrow> frag \<Rightarrow> string" where
  "frag_text quote (T s) = s"
| "frag_text quote (Q s) = quote s"
| "frag_text quote (D n) = (if n < 0 then ''-'' @ fmtInt (nat (- n)) else fmtInt (nat n))"

text \<open>\<open>err.Error()\<close>\<close>

fun error_text :: "(string \<Rightarrow> string) \<Rightarrow> error \<Rightarrow> string" where
  "error_text quote (Errorf fs) = concat (map (frag_text quote) fs)"
| "error_text quote (External s) = s"
| "error_text quote (ExecExitError c) = ''exit status '' @ frag_text quote (D c)"
| "error_text quote (GosshExitError c) = ''Process exited with status '' @ frag_text quote (D c)"
| "error_text quote (Wrapf fs e) = concat (map (frag_text quote) fs) @ error_text quote e"

text \<open>The text of a wrapped error contains that of its cause.\<close>

lemma error_text_wrap: "Contains (error_text quote e) sub \<Longrightarrow> Contains (error_text quote (Wrapf fs e)) sub"
  using Contains_mono [of "error_text quote e" sub "concat (map (frag_text quote) fs)" "[]"] by simp

end
