(* ===== verification/Unikraft.thy ===== *)
theory Unikraft
  imports Guest GoCrypto GoErrors
begin

text \<open>
  The cloud provider: \<open>internal/cloud/provider.go\<close> and \<open>internal/cloud/unikraft.go\<close>. The Unikraft
  platform, the network and the clock are one outside world of type \<open>'w\<close>, which every call to
  them takes and returns; what they answer comes from the fields of \<open>cloud_env\<close>, together with the
  key functions of \<open>x/crypto/ssh\<close> and \<open>ed25519\<close>. SHA-256, HMAC and the text functions are written
  out in \<open>GoCrypto\<close>.
\<close>

section \<open>The platform's data\<close>

record platform_instance =
  pi_Uuid :: string
  pi_Name :: string
  pi_Domains :: "string list option"

text \<open>A response without data is \<open>None\<close> (\<open>resp == nil || resp.Data == nil\<close>).\<close>

type_synonym response = "platform_instance list option"

text \<open>The constants of the platform package the request uses.\<close>

datatype InstanceFeature = InstanceFeatureDeleteOnStop
datatype ConnectionHandler = ConnectionHandlerTls

record CreateInstanceRequest =
  cr_Name :: string
  cr_Image :: string
  cr_MemoryMb :: int
  cr_Autostart :: bool
  cr_TimeoutS :: int
  cr_Env :: "(string \<times> string) list"
  cr_Features :: "InstanceFeature list"
  cr_Port :: "32 word"
  cr_DestinationPort :: "32 word"
  cr_Handlers :: "ConnectionHandler list"

text \<open>What ends the \<open>select\<close> of \<open>Dial\<close>.\<close>

datatype wake = CtxDone error | DeadlineReached | BackoffElapsed

record 'w cloud_env =
  c_getenv :: "string \<Rightarrow> string"
  rand_Read :: "nat \<Rightarrow> string result"
  EndpointForMetro :: "string \<Rightarrow> string"
  GetInstance :: "string \<Rightarrow> 'w \<Rightarrow> 'w \<times> response result"
  ListInstances :: "'w \<Rightarrow> 'w \<times> response result"
  CreateInstance :: "CreateInstanceRequest \<Rightarrow> 'w \<Rightarrow> 'w \<times> response result"
  IsNotFound :: "error \<Rightarrow> bool"
  IsAlreadyExists :: "error \<Rightarrow> bool"
  NewKeyFromSeed :: "string \<Rightarrow> string"
  NewSignerFromKey :: "string \<Rightarrow> Signer result"
  SignerPublicKey :: "Signer \<Rightarrow> PublicKey"
  MarshalPrivateKeyPEM :: "string \<Rightarrow> string result"
  MarshalAuthorizedKey :: "PublicKey \<Rightarrow> string"
  url_Parse :: "string \<Rightarrow> string result"
  tls_Dial :: "string \<Rightarrow> string \<Rightarrow> 'w \<Rightarrow> 'w \<times> string result"
  NewClientConn :: "string \<Rightarrow> ClientConfig \<Rightarrow> 'w \<Rightarrow> 'w \<times> backend result"
  tls_Close :: "string \<Rightarrow> 'w \<Rightarrow> 'w"
  c_clock :: "'w \<Rightarrow> int"
  ctx_Err :: "'w \<Rightarrow> error option"
  c_block :: "int \<Rightarrow> int \<Rightarrow> 'w \<Rightarrow> 'w"
  select_choice :: "'w \<Rightarrow> nat"
  strconv_Quote :: "string \<Rightarrow> string"

section \<open>The provider\<close>

record UnikraftProvider =
  endpoint :: string
  image :: string
  memoryMB :: int
  idleTTL :: int
  maxInst :: int
  seed :: string

record unikraftInstance =
  ui_uuid :: string
  fqdn :: string
  dialAddr :: string
  ui_hostKey :: PublicKey
  ui_authKey :: Signer

definition unikraftInstancePrefix :: string where "unikraftInstancePrefix = ''sshmux-''"
definition unikraftReadyTimeout :: int where "unikraftReadyTimeout = 30 * 1000000000"
definition unikraftReadyBackoff :: int where "unikraftReadyBackoff = 500 * 1000000"

definition NewUnikraftProvider :: "'w cloud_env \<Rightarrow> nat \<Rightarrow> CloudEntry \<Rightarrow> UnikraftProvider result" where
  "NewUnikraftProvider V i entry =
     (let token = c_getenv V ''UKC_TOKEN'' in
      if token = [] then Inl (Errorf [T ''UKC_TOKEN is required''])
      else
        (let metro = cmp_Or [cloud_Metro entry, c_getenv V ''UKC_METRO'', ''fra''];
             img = cmp_Or [cloud_Image entry, c_getenv V ''UKC_IMAGE'', ''jedevc/sshmux-guest:latest''];
             memory = (if cloud_MemoryMB entry = 0 then 32 else cloud_MemoryMB entry);
             ttl = (if cloud_SessionTTL entry = 0 then 60 * 1000000000 else cloud_SessionTTL entry)
         in
         case rand_Read V i of
           Inl err \<Rightarrow> Inl (Wrapf [T ''generate unikraft provider seed: ''] err)
         | Inr sd \<Rightarrow>
             Inr \<lparr>endpoint = EndpointForMetro V metro, image = img, memoryMB = memory, idleTTL = ttl,
                  maxInst = cloud_MaxInstances entry, seed = sd\<rparr>))"

text \<open>\<open>BuildProviders\<close>: the loop over the routes; the map is keyed by the index of the route.\<close>

fun BuildProviders_from ::
    "'w cloud_env \<Rightarrow> nat \<Rightarrow> RouteEntry list \<Rightarrow> (nat \<rightharpoonup> UnikraftProvider) \<Rightarrow> (nat \<rightharpoonup> UnikraftProvider) result" where
  "BuildProviders_from V i [] providers = Inr providers"
| "BuildProviders_from V i (route # routes) providers =
     (let c = route_Cloud route in
      if cloud_Provider c = [] then BuildProviders_from V (Suc i) routes providers
      else if cloud_Provider c = ''unikraft'' then
        (case NewUnikraftProvider V i c of
           Inl err \<Rightarrow> Inl (Wrapf [T ''route '', D (int i), T '' unikraft provider: ''] err)
         | Inr provider \<Rightarrow> BuildProviders_from V (Suc i) routes (providers(i \<mapsto> provider)))
      else Inl (Errorf [T ''route '', D (int i), T '' cloud provider '', Q (cloud_Provider c), T '' is not supported'']))"

definition BuildProviders :: "'w cloud_env \<Rightarrow> Config \<Rightarrow> (nat \<rightharpoonup> UnikraftProvider) result" where
  "BuildProviders V cfg = BuildProviders_from V 0 (cfg_Routes cfg) Map.empty"

section \<open>Names and keys\<close>

definition name_message :: "UnikraftProvider \<Rightarrow> string \<Rightarrow> string" where
  "name_message p username = Join [''sshmux'', endpoint p, image p, username] [CHR 0x00]"

definition instanceName :: "UnikraftProvider \<Rightarrow> string \<Rightarrow> string" where
  "instanceName p username =
     unikraftInstancePrefix @ hex_EncodeToString (take 16 (Sum256 (name_message p username)))"

definition deriveSSHSigner :: "'w cloud_env \<Rightarrow> UnikraftProvider \<Rightarrow> string \<Rightarrow> string \<Rightarrow> Signer result" where
  "deriveSSHSigner V p label name =
     (let sd = hmac_sha256 (seed p) (''sshmux/unikraft/'' @ label @ ''/'' @ name)
      in NewSignerFromKey V (NewKeyFromSeed V (take 32 sd)))"

definition deriveHostKey :: "'w cloud_env \<Rightarrow> UnikraftProvider \<Rightarrow> string \<Rightarrow> (PublicKey \<times> string) result" where
  "deriveHostKey V p name =
     (let sd = hmac_sha256 (seed p) (''sshmux/unikraft/host/'' @ name);
          privKey = NewKeyFromSeed V (take 32 sd)
      in
      case NewSignerFromKey V privKey of
        Inl err \<Rightarrow> Inl err
      | Inr signer \<Rightarrow>
          (case MarshalPrivateKeyPEM V privKey of
             Inl err \<Rightarrow> Inl err
           | Inr pem \<Rightarrow> Inr (SignerPublicKey V signer, pem)))"

section \<open>Addresses\<close>

text \<open>
  \<open>URL.Hostname\<close> and \<open>URL.Port\<close> on the host part of the parsed URL: the text after the last colon is
  the port if it is all digits, and square brackets around the host are dropped.
\<close>

definition url_splitHostPort :: "string \<Rightarrow> string \<times> string" where
  "url_splitHostPort host =
     (let after = rev (takeWhile (\<lambda>c. c \<noteq> CHR '':'') (rev host));
          has_port = (CHR '':'' \<in> set host \<and> list_all digit after);
          h = (if has_port then take (length host - length after - 1) host else host);
          port = (if has_port then after else []);
          h' = (if HasPrefix h ''['' \<and> HasSuffix h '']'' then butlast (tl h) else h)
      in (h', port))"

text \<open>\<open>net.JoinHostPort\<close>\<close>

definition JoinHostPort :: "string \<Rightarrow> string \<Rightarrow> string" where
  "JoinHostPort host port =
     (if CHR '':'' \<in> set host then ''['' @ host @ '']:'' @ port else host @ '':'' @ port)"

definition unikraftDialAddr :: "'w cloud_env \<Rightarrow> string \<Rightarrow> string result" where
  "unikraftDialAddr V ep =
     (case url_Parse V ep of
        Inl err \<Rightarrow> Inl (Wrapf [T ''parse unikraft endpoint '', Q ep, T '': ''] err)
      | Inr host \<Rightarrow>
          (case url_splitHostPort host of
             (dialHost, port) \<Rightarrow>
               if dialHost = [] then Inl (Errorf [T ''unikraft endpoint '', Q ep, T '' has no hostname''])
               else Inr (JoinHostPort dialHost (if port = [] then ''2222'' else port))))"

definition isRetryableUnikraftDial :: "'w cloud_env \<Rightarrow> error \<Rightarrow> bool" where
  "isRetryableUnikraftDial V err =
     (let msg = error_text (strconv_Quote V) err in
      Contains msg ''EOF'' \<or> Contains msg ''connection refused'' \<or> Contains msg ''connection reset'')"

section \<open>Instances\<close>

definition instanceFromPlatform :: "'w cloud_env \<Rightarrow> UnikraftProvider \<Rightarrow> platform_instance \<Rightarrow> unikraftInstance result" where
  "instanceFromPlatform V p inst =
     (case pi_Domains inst of
        None \<Rightarrow> Inl (Errorf [T ''unikraft instance '', T (pi_Uuid inst), T '' has no service group domains''])
      | Some [] \<Rightarrow> Inl (Errorf [T ''unikraft instance '', T (pi_Uuid inst), T '' has no service group domains''])
      | Some (fq # _) \<Rightarrow>
          if fq = [] then
            Inl (Errorf [T ''unikraft instance '', T (pi_Uuid inst), T '' service group domain FQDN is empty''])
          else
            (case unikraftDialAddr V (endpoint p) of
               Inl err \<Rightarrow> Inl err
             | Inr addr \<Rightarrow>
                 (case deriveHostKey V p (pi_Name inst) of
                    Inl err \<Rightarrow> Inl (Wrapf [T ''derive guest host key: ''] err)
                  | Inr (hostKey, _) \<Rightarrow>
                      (case deriveSSHSigner V p ''auth'' (pi_Name inst) of
                         Inl err \<Rightarrow> Inl (Wrapf [T ''derive guest auth key: ''] err)
                       | Inr authKey \<Rightarrow>
                           Inr \<lparr>ui_uuid = pi_Uuid inst, fqdn = fq, dialAddr = addr,
                                ui_hostKey = hostKey, ui_authKey = authKey\<rparr>))))"

definition lookup :: "'w cloud_env \<Rightarrow> UnikraftProvider \<Rightarrow> string \<Rightarrow> 'w \<Rightarrow> 'w \<times> unikraftInstance option result" where
  "lookup V p name w =
     (case GetInstance V name w of
        (w1, Inl err) \<Rightarrow>
          (w1, if IsNotFound V err then Inr None
               else Inl (Wrapf [T ''unikraft get instance '', T name, T '': ''] err))
      | (w1, Inr None) \<Rightarrow> (w1, Inr None)
      | (w1, Inr (Some [])) \<Rightarrow> (w1, Inr None)
      | (w1, Inr (Some (inst # _))) \<Rightarrow>
          (w1, case instanceFromPlatform V p inst of Inl err \<Rightarrow> Inl err | Inr ui \<Rightarrow> Inr (Some ui)))"

definition count_instances :: "platform_instance list \<Rightarrow> nat" where
  "count_instances insts = length (filter (\<lambda>inst. HasPrefix (pi_Name inst) unikraftInstancePrefix) insts)"

definition checkInstanceLimit :: "'w cloud_env \<Rightarrow> UnikraftProvider \<Rightarrow> 'w \<Rightarrow> 'w \<times> error option" where
  "checkInstanceLimit V p w =
     (if maxInst p \<le> 0 then (w, None)
      else
        (case ListInstances V w of
           (w1, Inl err) \<Rightarrow> (w1, Some (Wrapf [T ''unikraft count instances: ''] err))
         | (w1, Inr None) \<Rightarrow> (w1, None)
         | (w1, Inr (Some insts)) \<Rightarrow>
             let total = int (count_instances insts) in
             (w1, if maxInst p \<le> total
                  then Some (Errorf [T ''unikraft instance limit reached: '', D total, T ''/'', D (maxInst p)])
                  else None)))"

definition create_request :: "UnikraftProvider \<Rightarrow> string \<Rightarrow> string \<Rightarrow> string \<Rightarrow> CreateInstanceRequest" where
  "create_request p name hostKeyPEM allowKey =
     \<lparr>cr_Name = name, cr_Image = image p, cr_MemoryMb = memoryMB p, cr_Autostart = True, cr_TimeoutS = -1,
      cr_Env = [(''GUEST_HOST_KEY'', hostKeyPEM), (''GUEST_ALLOW_KEY'', allowKey),
                (''GUEST_IDLE_TIMEOUT'', Duration_String (idleTTL p))],
      cr_Features = [InstanceFeatureDeleteOnStop], cr_Port = 2222, cr_DestinationPort = 2222,
      cr_Handlers = [ConnectionHandlerTls]\<rparr>"

definition create :: "'w cloud_env \<Rightarrow> UnikraftProvider \<Rightarrow> string \<Rightarrow> 'w \<Rightarrow> 'w \<times> unikraftInstance result" where
  "create V p name w =
     (case deriveHostKey V p name of
        Inl err \<Rightarrow> (w, Inl (Wrapf [T ''derive guest host key: ''] err))
      | Inr (_, hostKeyPEM) \<Rightarrow>
          (case deriveSSHSigner V p ''auth'' name of
             Inl err \<Rightarrow> (w, Inl (Wrapf [T ''derive guest auth key: ''] err))
           | Inr authKey \<Rightarrow>
               (let allowKey = MarshalAuthorizedKey V (SignerPublicKey V authKey) in
                case CreateInstance V (create_request p name hostKeyPEM allowKey) w of
                  (w1, Inl err) \<Rightarrow> (w1, Inl (Wrapf [T ''unikraft create instance: ''] err))
                | (w1, Inr None) \<Rightarrow> (w1, Inl (Errorf [T ''unikraft create instance: empty response'']))
                | (w1, Inr (Some [])) \<Rightarrow> (w1, Inl (Errorf [T ''unikraft create instance: empty response'']))
                | (w1, Inr (Some (inst # _))) \<Rightarrow> (w1, instanceFromPlatform V p inst))))"

definition getOrCreate :: "'w cloud_env \<Rightarrow> UnikraftProvider \<Rightarrow> string \<Rightarrow> 'w \<Rightarrow> 'w \<times> unikraftInstance result" where
  "getOrCreate V p name w =
     (case lookup V p name w of
        (w1, Inl err) \<Rightarrow> (w1, Inl err)
      | (w1, Inr (Some inst)) \<Rightarrow> (w1, Inr inst)
      | (w1, Inr None) \<Rightarrow>
          (case checkInstanceLimit V p w1 of
             (w2, Some err) \<Rightarrow> (w2, Inl err)
           | (w2, None) \<Rightarrow>
               (case create V p name w2 of
                  (w3, Inr inst) \<Rightarrow> (w3, Inr inst)
                | (w3, Inl err) \<Rightarrow>
                    if \<not> IsAlreadyExists V err then (w3, Inl err)
                    else
                      (case lookup V p name w3 of
                         (w4, Inl lookupErr) \<Rightarrow> (w4, Inl lookupErr)
                       | (w4, Inr None) \<Rightarrow> (w4, Inl err)
                       | (w4, Inr (Some inst)) \<Rightarrow> (w4, Inr inst)))))"

section \<open>Connecting\<close>

definition instance_dial :: "'w cloud_env \<Rightarrow> unikraftInstance \<Rightarrow> 'w \<Rightarrow> 'w \<times> string result" where
  "instance_dial V s w =
     (case tls_Dial V (dialAddr s) (fqdn s) w of
        (w1, Inl err) \<Rightarrow>
          (w1, Inl (Wrapf [T ''tls dial unikraft endpoint '', T (dialAddr s), T '' (sni='', T (fqdn s), T ''): ''] err))
      | (w1, Inr conn) \<Rightarrow> (w1, Inr conn))"

text \<open>\<open>gossh.FixedHostKey\<close> compares the encoded keys.\<close>

definition FixedHostKey :: "PublicKey \<Rightarrow> PublicKey \<Rightarrow> error option" where
  "FixedHostKey key presented =
     (if presented = key then None else Some (Errorf [T ''ssh: host key mismatch'']))"

definition sshClient :: "'w cloud_env \<Rightarrow> unikraftInstance \<Rightarrow> string \<Rightarrow> 'w \<Rightarrow> 'w \<times> backend result" where
  "sshClient V s username w =
     (case instance_dial V s w of
        (w1, Inl err) \<Rightarrow> (w1, Inl err)
      | (w1, Inr conn) \<Rightarrow>
          (case NewClientConn V conn
               \<lparr>cc_User = username, cc_Auth = [PublicKeys (ui_authKey s)],
                cc_HostKeyCallback = FixedHostKey (ui_hostKey s), cc_Timeout = 0\<rparr> w1 of
             (w2, Inl err) \<Rightarrow> (tls_Close V conn w2, Inl (Wrapf [T ''ssh handshake with unikraft guest: ''] err))
           | (w2, Inr client) \<Rightarrow> (w2, Inr client)))"

text \<open>
  The \<open>select\<close> of \<open>Dial\<close>. A channel is ready when the context is done or its timer's time has come;
  of several that are ready, \<open>select_choice\<close> stands for the pseudo-random choice of the runtime. If
  none is ready the goroutine blocks, and \<open>c_block\<close> is the world in which it is woken. The timer of
  \<open>time.After\<close> is started and the channels are polled at one instant: time passes in calls and
  while the goroutine is blocked. \<open>None\<close> stands for a goroutine that is never woken.
\<close>

definition select_ready :: "'w cloud_env \<Rightarrow> int \<Rightarrow> int \<Rightarrow> 'w \<Rightarrow> wake list" where
  "select_ready V deadline backoff w =
     (case ctx_Err V w of None \<Rightarrow> [] | Some err \<Rightarrow> [CtxDone err])
     @ (if deadline \<le> c_clock V w then [DeadlineReached] else [])
     @ (if backoff \<le> c_clock V w then [BackoffElapsed] else [])"

definition Dial_select :: "'w cloud_env \<Rightarrow> int \<Rightarrow> 'w \<Rightarrow> 'w \<times> wake option" where
  "Dial_select V deadline w =
     (let backoff = c_clock V w + unikraftReadyBackoff;
          w1 = (if select_ready V deadline backoff w = [] then c_block V deadline backoff w else w);
          ready = select_ready V deadline backoff w1
      in (w1, if ready = [] then None else Some (ready ! (select_choice V w1 mod length ready))))"

text \<open>
  The loop of \<open>Dial\<close>, with fuel for its rounds; \<open>None\<close> is running out of fuel or blocking for ever.
  The deadline is that of the timer started before the loop.
\<close>

fun Dial_loop :: "nat \<Rightarrow> 'w cloud_env \<Rightarrow> UnikraftProvider \<Rightarrow> string \<Rightarrow> string \<Rightarrow> int \<Rightarrow> 'w \<Rightarrow> ('w \<times> backend result) option" where
  "Dial_loop 0 V p name username deadline w = None"
| "Dial_loop (Suc fuel) V p name username deadline w =
     (case getOrCreate V p name w of
        (w1, Inl err) \<Rightarrow> Some (w1, Inl err)
      | (w1, Inr inst) \<Rightarrow>
          (case sshClient V inst username w1 of
             (w2, Inr client) \<Rightarrow> Some (w2, Inr client)
           | (w2, Inl err) \<Rightarrow>
               if \<not> isRetryableUnikraftDial V err then Some (w2, Inl err)
               else
                 (case Dial_select V deadline w2 of
                    (w3, None) \<Rightarrow> None
                  | (w3, Some (CtxDone e)) \<Rightarrow> Some (w3, Inl (Wrapf [T ''wait for unikraft guest ssh: ''] e))
                  | (w3, Some DeadlineReached) \<Rightarrow> Some (w3, Inl err)
                  | (w3, Some BackoffElapsed) \<Rightarrow> Dial_loop fuel V p name username deadline w3)))"

definition Dial :: "nat \<Rightarrow> 'w cloud_env \<Rightarrow> UnikraftProvider \<Rightarrow> string \<Rightarrow> 'w \<Rightarrow> ('w \<times> backend result) option" where
  "Dial fuel V p username w =
     Dial_loop fuel V p (instanceName p username) username (c_clock V w + unikraftReadyTimeout) w"

section \<open>Lemmas\<close>

lemma BuildProviders_from_keep:
  "BuildProviders_from V n rs m0 = Inr m' \<Longrightarrow> k < n \<Longrightarrow> m' k = m0 k"
  by (induction rs arbitrary: n m0) (auto simp: Let_def less_Suc_eq split: if_splits sum.splits)

lemma BuildProviders_from_ok:
  assumes "BuildProviders_from V i routes m = Inr m'" "k < length routes" "cloud_Provider (route_Cloud (routes ! k)) \<noteq> []"
  shows "\<exists>p. m' (i + k) = Some p \<and> NewUnikraftProvider V (i + k) (route_Cloud (routes ! k)) = Inr p"
  using assms
proof (induction routes arbitrary: i m k)
  case (Cons route routes)
  show ?case
  proof (cases k)
    case 0
    with Cons.prems obtain p where "NewUnikraftProvider V i (route_Cloud route) = Inr p"
      "BuildProviders_from V (Suc i) routes (m(i \<mapsto> p)) = Inr m'"
      by (auto simp: Let_def split: if_splits sum.splits)
    with 0 BuildProviders_from_keep [of V "Suc i" routes "m(i \<mapsto> p)" m' i] show ?thesis by simp
  next
    case (Suc n)
    from Cons.prems(1) obtain m1 where "BuildProviders_from V (Suc i) routes m1 = Inr m'"
      by (auto simp: Let_def split: if_splits sum.splits)
    from Cons.IH [OF this, of n] Suc Cons.prems show ?thesis by simp
  qed
qed simp

lemma BuildProviders_from_dom:
  assumes "BuildProviders_from V i routes m = Inr m'" "m' k = Some p" "m k = None"
  shows "i \<le> k \<and> k < i + length routes \<and> cloud_Provider (route_Cloud (routes ! (k - i))) \<noteq> []"
  using assms
proof (induction routes arbitrary: i m)
  case (Cons route routes)
  show ?case
  proof (cases "k = i")
    case True
    have "cloud_Provider (route_Cloud route) \<noteq> []"
    proof
      assume "cloud_Provider (route_Cloud route) = []"
      with Cons.prems(1) have "BuildProviders_from V (Suc i) routes m = Inr m'" by simp
      from BuildProviders_from_keep [OF this, of k] True Cons.prems(2,3) show False by simp
    qed
    with True show ?thesis by simp
  next
    case False
    with Cons.prems obtain m1 where "BuildProviders_from V (Suc i) routes m1 = Inr m'" "m1 k = None"
      by (auto simp: Let_def split: if_splits sum.splits)
    from Cons.IH [OF this(1) Cons.prems(2) this(2)] have
      k: "Suc i \<le> k" "k < Suc i + length routes" "cloud_Provider (route_Cloud (routes ! (k - Suc i))) \<noteq> []" by auto
    then have "k - i = Suc (k - Suc i)" by arith
    with k show ?thesis by simp
  qed
qed simp

lemma BuildProviders_from_succeeds:
  assumes "\<forall>route \<in> set routes. valid_route route"
    "\<exists>route \<in> set routes. cloud_Provider (route_Cloud route) \<noteq> [] \<Longrightarrow> c_getenv V ''UKC_TOKEN'' \<noteq> []"
    "\<And>j. \<exists>sd. rand_Read V j = Inr sd"
  shows "\<exists>m'. BuildProviders_from V i routes m = Inr m'"
  using assms(1,2)
proof (induction routes arbitrary: i m)
  case (Cons route routes)
  show ?case
  proof (cases "cloud_Provider (route_Cloud route) = []")
    case True
    with Cons show ?thesis by simp
  next
    case False
    with Cons.prems(2) obtain p where p: "NewUnikraftProvider V i (route_Cloud route) = Inr p"
      using assms(3) [of i] by (auto simp: NewUnikraftProvider_def Let_def split: sum.splits)
    have "cloud_Provider (route_Cloud route) = ''unikraft''" using Cons.prems(1) False by (simp add: valid_route_def)
    moreover have "\<exists>m'. BuildProviders_from V (Suc i) routes (m(i \<mapsto> p)) = Inr m'"
      using Cons.prems by (intro Cons.IH) auto
    ultimately show ?thesis using p by simp
  qed
qed simp

lemma BuildProviders_total:
  assumes "valid_config cfg"
    "\<exists>route \<in> set (cfg_Routes cfg). cloud_Provider (route_Cloud route) \<noteq> [] \<Longrightarrow> c_getenv V ''UKC_TOKEN'' \<noteq> []"
    "\<And>j. \<exists>sd. rand_Read V j = Inr sd"
  shows "\<exists>m. BuildProviders V cfg = Inr m \<and>
    dom m = {k. k < length (cfg_Routes cfg) \<and> cloud_Provider (route_Cloud (cfg_Routes cfg ! k)) \<noteq> []} \<and>
    (\<forall>k p. m k = Some p \<longrightarrow> NewUnikraftProvider V k (route_Cloud (cfg_Routes cfg ! k)) = Inr p)"
proof -
  from BuildProviders_from_succeeds [of "cfg_Routes cfg" V 0 Map.empty] assms
  obtain m where m: "BuildProviders_from V 0 (cfg_Routes cfg) Map.empty = Inr m" by (auto simp: valid_config_def)
  have in_dom: "k < length (cfg_Routes cfg) \<and> cloud_Provider (route_Cloud (cfg_Routes cfg ! k)) \<noteq> []"
    if "m k = Some p" for k p
    using BuildProviders_from_dom [OF m that] by simp
  have "\<exists>p. m k = Some p \<and> NewUnikraftProvider V k (route_Cloud (cfg_Routes cfg ! k)) = Inr p"
    if "k < length (cfg_Routes cfg)" "cloud_Provider (route_Cloud (cfg_Routes cfg ! k)) \<noteq> []" for k
    using BuildProviders_from_ok [OF m that] by simp
  with in_dom m show ?thesis unfolding BuildProviders_def by (fastforce simp: dom_def)
qed

text \<open>No byte of the hashed message is ambiguous: the fields are separated by zero bytes.\<close>

lemma name_message_inj:
  assumes "CHR 0x00 \<notin> set (endpoint p)" "CHR 0x00 \<notin> set (image p)" "CHR 0x00 \<notin> set u"
    "CHR 0x00 \<notin> set (endpoint q)" "CHR 0x00 \<notin> set (image q)" "CHR 0x00 \<notin> set v"
  shows "name_message p u = name_message q v \<longleftrightarrow> endpoint p = endpoint q \<and> image p = image q \<and> u = v"
  using assms Join_inj [of "[''sshmux'', endpoint p, image p, u]" "[''sshmux'', endpoint q, image q, v]" "CHR 0x00"]
  by (auto simp: name_message_def)

lemma Duration_String_trimmed: "TrimSpace (Duration_String d) = Duration_String d"
proof -
  let ?b = "duration_body (nat \<bar>d\<bar>)"
  obtain q where q: "?b = q @ ''s''" using duration_body_last by blast
  have hd: "?b \<noteq> []" "digit (hd ?b)" using duration_body_hd by auto
  then have "visible (hd ?b)" by (auto simp: digit_def visible_def)
  moreover have "visible (last ?b)" using q by (simp add: visible_def)
  moreover have "visible (CHR ''-'')" by (simp add: visible_def)
  ultimately show ?thesis using hd(1) by (auto simp: Duration_String_body intro!: TrimSpace_visible)
qed

lemma Duration_String_nonempty: "Duration_String d \<noteq> []"
  using duration_body_hd by (auto simp: Duration_String_body)

text \<open>The guest's reading of the provider's idle timeout.\<close>

lemma parse_printed_timeout:
  assumes "- (2 ^ 63) \<le> ttl" "ttl < 2 ^ 63" "getenv ''GUEST_IDLE_TIMEOUT'' = Duration_String ttl"
  shows "parseIdleTimeout getenv =
    (if 0 < ttl then Inr ttl else Inl (Errorf [T ''GUEST_IDLE_TIMEOUT must be positive'']))"
  using assms by (simp add: parseIdleTimeout_def Duration_String_trimmed Duration_String_nonempty ParseDuration_String)

lemma Dial_loop_more_fuel:
  "Dial_loop n V p name u deadline w = Some r \<Longrightarrow> n \<le> m \<Longrightarrow> Dial_loop m V p name u deadline w = Some r"
proof (induction n arbitrary: m w)
  case (Suc n)
  then obtain k where "m = Suc k" "n \<le> k" by (cases m) auto
  with Suc show ?case by (auto split: prod.splits sum.splits if_splits option.splits wake.splits)
qed simp

end
