(* ===== verification/Cloud.thy ===== *)
theory Cloud
  imports Unikraft Demo
begin

text \<open>
  Properties of the cloud provider, and of the provider together with the guest it creates: the
  instance limit for one session after the other, the bound on the rounds of \<open>Dial\<close>, the agreement
  of keys and idle timeout between \<open>internal/cloud/unikraft.go\<close> and \<open>support/guest\<close>, and instance
  names. At the end a concrete platform for the witnesses.
\<close>

section \<open>Lemmas\<close>

lemma lookup_world:
  assumes "\<And>n w w' r. GetInstance V n w = (w', r) \<Longrightarrow> R w w'" "lookup V p name w = (w', r)"
  shows "R w w'"
  using assms by (auto simp: lookup_def split: prod.splits sum.splits option.splits list.splits)

lemma create_world:
  assumes "\<And>rq w w' r. CreateInstance V rq w = (w', r) \<Longrightarrow> R w w'" "\<And>w. R w w" "create V p name w = (w', r)"
  shows "R w w'"
  using assms
  by (auto simp: create_def Let_def split: prod.splits sum.splits option.splits list.splits)

lemma limit_passed:
  assumes "checkInstanceLimit V p w = (w', None)" "0 < maxInst p" "ListInstances V w = (w1, Inr (Some insts))"
  shows "w' = w1 \<and> int (count_instances insts) < maxInst p"
  using assms by (auto simp: checkInstanceLimit_def Let_def split: if_splits)

lemma instanceName_prefix: "HasPrefix (instanceName p u) unikraftInstancePrefix"
  by (simp add: instanceName_def)

text \<open>The environment the platform gives to the guest it boots from a request.\<close>

definition guest_getenv :: "CreateInstanceRequest \<Rightarrow> string \<Rightarrow> string" where
  "guest_getenv rq k = (case map_of (cr_Env rq) k of None \<Rightarrow> [] | Some v \<Rightarrow> v)"

lemma instanceFromPlatform_keys:
  assumes "instanceFromPlatform V p inst = Inr ui"
  shows "\<exists>pem. deriveHostKey V p (pi_Name inst) = Inr (ui_hostKey ui, pem)"
    and "deriveSSHSigner V p ''auth'' (pi_Name inst) = Inr (ui_authKey ui)"
  using assms
  by (auto simp: instanceFromPlatform_def split: option.splits list.splits if_splits sum.splits)

lemma deriveHostKey_pem:
  "deriveHostKey V p name = Inr (k, pem) \<Longrightarrow>
   \<exists>key signer. NewSignerFromKey V key = Inr signer \<and> MarshalPrivateKeyPEM V key = Inr pem \<and> k = SignerPublicKey V signer"
  by (auto simp: deriveHostKey_def Let_def split: sum.splits)

section \<open>The instance limit\<close>

text \<open>
  What the limit relies on: \<open>cnt\<close> counts the platform's \<open>sshmux-\<close> instances, reads add none, a
  successful listing reports the count, and creating adds at most one.
\<close>

definition counts_instances :: "'w cloud_env \<Rightarrow> ('w \<Rightarrow> nat) \<Rightarrow> bool" where
  "counts_instances V cnt \<longleftrightarrow>
     (\<forall>n w w' r. GetInstance V n w = (w', r) \<longrightarrow> cnt w' \<le> cnt w) \<and>
     (\<forall>w w' r. ListInstances V w = (w', r) \<longrightarrow> cnt w' \<le> cnt w) \<and>
     (\<forall>w w' r. ListInstances V w = (w', Inr r) \<longrightarrow> (\<exists>insts. r = Some insts \<and> count_instances insts = cnt w')) \<and>
     (\<forall>rq w w' r. CreateInstance V rq w = (w', r) \<longrightarrow> cnt w' \<le> Suc (cnt w))"

lemma counts_instancesD:
  assumes "counts_instances V cnt"
  shows "GetInstance V n w = (w', r) \<Longrightarrow> cnt w' \<le> cnt w"
    and "ListInstances V w = (w', r) \<Longrightarrow> cnt w' \<le> cnt w"
    and "ListInstances V w = (w', Inr r2) \<Longrightarrow> \<exists>insts. r2 = Some insts \<and> count_instances insts = cnt w'"
    and "CreateInstance V rq w = (w', r) \<Longrightarrow> cnt w' \<le> Suc (cnt w)"
  using assms unfolding counts_instances_def by metis+

lemma lookup_count: "counts_instances V cnt \<Longrightarrow> lookup V p name w = (w', r) \<Longrightarrow> cnt w' \<le> cnt w"
  using lookup_world [where R = "\<lambda>w w'. cnt w' \<le> cnt w"] counts_instancesD(1) by metis

lemma create_count: "counts_instances V cnt \<Longrightarrow> create V p name w = (w', r) \<Longrightarrow> cnt w' \<le> Suc (cnt w)"
  using create_world [where R = "\<lambda>w w'. cnt w' \<le> Suc (cnt w)"] counts_instancesD(4) by (metis le_SucI order_refl)

text \<open>The check lets a session pass only below the limit.\<close>

lemma limit_count:
  assumes "counts_instances V cnt" "checkInstanceLimit V p w = (w', r)"
  shows "cnt w' \<le> cnt w" and "0 < maxInst p \<Longrightarrow> r = None \<Longrightarrow> int (cnt w') < maxInst p"
proof -
  note D = counts_instancesD [OF assms(1)]
  show "cnt w' \<le> cnt w"
    using assms(2) D(2) by (auto simp: checkInstanceLimit_def Let_def split: if_splits prod.splits sum.splits option.splits)
  show "int (cnt w') < maxInst p" if "0 < maxInst p" "r = None"
  proof -
    obtain w5 r5 where li: "ListInstances V w = (w5, r5)" by fastforce
    with assms(2) that obtain x where "r5 = Inr x" by (cases r5) (auto simp: checkInstanceLimit_def split: if_splits)
    with D(3) [of w w5] li obtain insts where "r5 = Inr (Some insts)" "count_instances insts = cnt w5" by auto
    with limit_passed [of V p w w'] assms(2) that li show ?thesis by simp
  qed
qed

text \<open>\<open>getOrCreate\<close> on its own: every path adds at most one instance, and only after the check.\<close>

lemma getOrCreate_count:
  assumes "counts_instances V cnt" "0 < maxInst p" "int (cnt w) \<le> maxInst p" "getOrCreate V p name w = (w', r)"
  shows "int (cnt w') \<le> maxInst p"
proof -
  obtain w1 r1 where l: "lookup V p name w = (w1, r1)" by fastforce
  obtain w2 r2 where ch: "checkInstanceLimit V p w1 = (w2, r2)" by fastforce
  obtain w3 r3 where cr: "create V p name w2 = (w3, r3)" by fastforce
  obtain w4 r4 where l4: "lookup V p name w3 = (w4, r4)" by fastforce
  have "w' = w1 \<or> w' = w2 \<or> (r2 = None \<and> (w' = w3 \<or> w' = w4))"
    using assms(4) l ch cr l4 by (auto simp: getOrCreate_def split: sum.splits option.splits if_splits)
  with lookup_count [OF assms(1) l] limit_count [OF assms(1) ch] create_count [OF assms(1) cr]
    lookup_count [OF assms(1) l4] assms(2,3) show ?thesis by auto
qed

text \<open>
  C27: the instance limit holds for sessions that come one after the other. Let \<open>cnt\<close> count the
  platform's \<open>sshmux-\<close> instances, reads add none, a successful listing reports the count, and
  creating adds at most one; then \<open>getOrCreate\<close> never takes the count beyond \<open>max_instances\<close>.
\<close>

theorem instance_limit_respected:
  assumes get: "\<And>n w w' r. GetInstance V n w = (w', r) \<Longrightarrow> cnt w' \<le> cnt w"
    and listing: "\<And>w w' r. ListInstances V w = (w', r) \<Longrightarrow> cnt w' \<le> cnt w"
    and reports: "\<And>w w' r. ListInstances V w = (w', Inr r) \<Longrightarrow>
      \<exists>insts. r = Some insts \<and> count_instances insts = cnt w'"
    and creating: "\<And>rq w w' r. CreateInstance V rq w = (w', r) \<Longrightarrow> cnt w' \<le> Suc (cnt w)"
    and "0 < maxInst p" and "int (cnt w) \<le> maxInst p" and run: "getOrCreate V p name w = (w', r)"
  shows "int (cnt w') \<le> maxInst p"
proof -
  have "counts_instances V cnt" unfolding counts_instances_def using get listing reports creating by blast
  from getOrCreate_count [OF this assms(5-7)] show ?thesis .
qed

section \<open>The rounds of Dial\<close>

text \<open>What the calls to the platform and the network do to the clock.\<close>

definition clock_advances :: "'w cloud_env \<Rightarrow> bool" where
  "clock_advances V \<longleftrightarrow>
     (\<forall>n w w' r. GetInstance V n w = (w', r) \<longrightarrow> c_clock V w \<le> c_clock V w') \<and>
     (\<forall>w w' r. ListInstances V w = (w', r) \<longrightarrow> c_clock V w \<le> c_clock V w') \<and>
     (\<forall>rq w w' r. CreateInstance V rq w = (w', r) \<longrightarrow> c_clock V w \<le> c_clock V w') \<and>
     (\<forall>a sni w w' r. tls_Dial V a sni w = (w', r) \<longrightarrow> c_clock V w \<le> c_clock V w') \<and>
     (\<forall>c cc w w' r. NewClientConn V c cc w = (w', r) \<longrightarrow> c_clock V w \<le> c_clock V w') \<and>
     (\<forall>c w. c_clock V w \<le> c_clock V (tls_Close V c w)) \<and>
     (\<forall>d u w. c_clock V w \<le> c_clock V (c_block V d u w))"

lemma clock_advancesD:
  assumes "clock_advances V"
  shows "GetInstance V n w = (w', r) \<Longrightarrow> c_clock V w \<le> c_clock V w'"
    and "ListInstances V w = (w', r) \<Longrightarrow> c_clock V w \<le> c_clock V w'"
    and "CreateInstance V rq w = (w', r) \<Longrightarrow> c_clock V w \<le> c_clock V w'"
    and "tls_Dial V a sni w = (w', r2) \<Longrightarrow> c_clock V w \<le> c_clock V w'"
    and "NewClientConn V c cc w = (w', r3) \<Longrightarrow> c_clock V w \<le> c_clock V w'"
    and "c_clock V w \<le> c_clock V (tls_Close V conn w)" and "c_clock V w \<le> c_clock V (c_block V d u w)"
  using assms unfolding clock_advances_def by metis+

lemma getOrCreate_clock:
  assumes "clock_advances V" "getOrCreate V p name w = (w', r)"
  shows "c_clock V w \<le> c_clock V w'"
proof -
  let ?R = "\<lambda>w w'. c_clock V w \<le> c_clock V w'"
  note D = clock_advancesD [OF assms(1)]
  obtain w1 r1 where l: "lookup V p name w = (w1, r1)" by fastforce
  have c1: "?R w w1" by (rule lookup_world [where R = ?R, OF D(1) l])
  obtain w2 r2 where ch: "checkInstanceLimit V p w1 = (w2, r2)" by fastforce
  have c2: "?R w1 w2"
    using ch D(2) by (auto simp: checkInstanceLimit_def Let_def split: if_splits prod.splits sum.splits option.splits)
  obtain w3 r3 where cr: "create V p name w2 = (w3, r3)" by fastforce
  have c3: "?R w2 w3" by (rule create_world [where R = ?R, OF D(3) _ cr]) simp_all
  obtain w4 r4 where l4: "lookup V p name w3 = (w4, r4)" by fastforce
  have c4: "?R w3 w4" by (rule lookup_world [where R = ?R, OF D(1) l4])
  have "w' = w1 \<or> w' = w2 \<or> w' = w3 \<or> w' = w4"
    using assms(2) l ch cr l4 by (auto simp: getOrCreate_def split: sum.splits option.splits if_splits)
  with c1 c2 c3 c4 show ?thesis by auto
qed

lemma sshClient_clock:
  assumes "clock_advances V" "sshClient V ui u w = (w', r)"
  shows "c_clock V w \<le> c_clock V w'"
proof -
  note D = clock_advancesD [OF assms(1)]
  obtain w1 r1 where d: "tls_Dial V (dialAddr ui) (fqdn ui) w = (w1, r1)" by fastforce
  have "c_clock V w1 \<le> c_clock V w'"
  proof (cases r1)
    case (Inr conn)
    let ?cc = "\<lparr>cc_User = u, cc_Auth = [PublicKeys (ui_authKey ui)],
        cc_HostKeyCallback = FixedHostKey (ui_hostKey ui), cc_Timeout = 0\<rparr>"
    obtain w2 r2 where n: "NewClientConn V conn ?cc w1 = (w2, r2)" by fastforce
    then have "w' = w2 \<or> w' = tls_Close V conn w2"
      using assms(2) d Inr by (auto simp: sshClient_def instance_dial_def split: sum.splits)
    with D(5) [OF n] D(6) [of w2 conn] show ?thesis by auto
  qed (use assms(2) d in \<open>simp add: sshClient_def instance_dial_def\<close>)
  with D(4) [OF d] show ?thesis by simp
qed

text \<open>
  The back-off ends a \<open>select\<close> only after 500 ms, and only if the deadline had not passed when the
  \<open>select\<close> was reached.
\<close>

lemma Dial_select_backoff:
  assumes "clock_advances V" "Dial_select V deadline w = (w', Some BackoffElapsed)"
  shows "c_clock V w < deadline \<and> c_clock V w + unikraftReadyBackoff \<le> c_clock V w'"
proof -
  let ?u = "c_clock V w + unikraftReadyBackoff"
  let ?ready = "select_ready V deadline ?u w'"
  have w': "w' = (if select_ready V deadline ?u w = [] then c_block V deadline ?u w else w)"
    and "?ready \<noteq> []" and "?ready ! (select_choice V w' mod length ?ready) = BackoffElapsed"
    using assms(2) by (auto simp: Dial_select_def Let_def split: if_splits)
  then have "BackoffElapsed \<in> set ?ready" by (metis length_greater_0_conv mod_less_divisor nth_mem)
  then have late: "?u \<le> c_clock V w'" by (auto simp: select_ready_def split: if_splits option.splits)
  then have "select_ready V deadline ?u w = []"
    using w' by (auto simp: unikraftReadyBackoff_def split: if_splits)
  with late show ?thesis by (auto simp: select_ready_def split: if_splits)
qed

lemma Dial_select_wakes:
  "(\<And>d u w. select_ready V d u (c_block V d u w) \<noteq> []) \<Longrightarrow> Dial_select V deadline w = (w', r) \<Longrightarrow> r \<noteq> None"
  by (auto simp: Dial_select_def Let_def split: if_splits)

lemma Dial_loop_rounds:
  assumes "clock_advances V" and "\<And>d u w. select_ready V d u (c_block V d u w) \<noteq> []"
    and "deadline - c_clock V w \<le> int n * unikraftReadyBackoff"
  shows "Dial_loop (Suc n) V p name u deadline w \<noteq> None"
  using assms(3)
proof (induction n arbitrary: w)
  case (0 w)
  obtain w1 r1 where g: "getOrCreate V p name w = (w1, r1)" by fastforce
  show ?case
  proof (cases r1)
    case (Inr ui)
    obtain w2 r2 where s: "sshClient V ui u w1 = (w2, r2)" by fastforce
    obtain w3 r3 where d: "Dial_select V deadline w2 = (w3, r3)" by fastforce
    have "c_clock V w \<le> c_clock V w2"
      using getOrCreate_clock [OF assms(1) g] sshClient_clock [OF assms(1) s] by simp
    then have "r3 \<noteq> Some BackoffElapsed" using Dial_select_backoff [OF assms(1)] d 0 by fastforce
    with g s d Inr Dial_select_wakes [OF assms(2) d] show ?thesis by (auto split: sum.splits wake.splits)
  qed (use g in simp)
next
  case (Suc n w)
  obtain w1 r1 where g: "getOrCreate V p name w = (w1, r1)" by fastforce
  show ?case
  proof (cases r1)
    case (Inr ui)
    obtain w2 r2 where s: "sshClient V ui u w1 = (w2, r2)" by fastforce
    obtain w3 r3 where d: "Dial_select V deadline w2 = (w3, r3)" by fastforce
    have "c_clock V w \<le> c_clock V w2"
      using getOrCreate_clock [OF assms(1) g] sshClient_clock [OF assms(1) s] by simp
    then have "Dial_loop (Suc n) V p name u deadline w3 \<noteq> None" if "r3 = Some BackoffElapsed"
      using Dial_select_backoff [OF assms(1) d [unfolded that]] Suc.prems
      by (intro Suc.IH) (auto simp: algebra_simps)
    with g s d Inr Dial_select_wakes [OF assms(2) d] show ?thesis
      by (subst Dial_loop.simps) (auto simp del: Dial_loop.simps split: sum.splits wake.splits)
  qed (use g in simp)
qed

text \<open>
  C8: \<open>Dial\<close> always returns, after at most 61 rounds, whatever the platform and the network answer
  and whichever ready channel the \<open>select\<close> picks. The hypotheses are that no call turns the clock
  back and that a blocked \<open>select\<close> is woken with a channel ready. The timer of the back-off is
  started at the instant the \<open>select\<close> polls, as in \<open>Dial_select\<close>. The result does not depend on
  the fuel.
\<close>

theorem dial_terminates:
  assumes "clock_advances V" and "\<And>d u w. select_ready V d u (c_block V d u w) \<noteq> []"
  shows "\<exists>r. \<forall>fuel \<ge> 61. Dial fuel V p username w = Some r"
proof -
  have "Dial_loop (Suc 60) V p (instanceName p username) username (c_clock V w + unikraftReadyTimeout) w \<noteq> None"
    by (rule Dial_loop_rounds [OF assms]) (auto simp: unikraftReadyBackoff_def unikraftReadyTimeout_def)
  then obtain r where "Dial 61 V p username w = Some r" by (auto simp: Dial_def simp del: Dial_loop.simps)
  then have "\<forall>fuel \<ge> 61. Dial fuel V p username w = Some r"
    unfolding Dial_def by (intro allI impI) (erule (1) Dial_loop_more_fuel)
  then show ?thesis ..
qed

section \<open>The provider and its guest\<close>

text \<open>
  C28: the idle timeout survives the trip to the guest. For every duration the provider prints
  into \<open>GUEST_IDLE_TIMEOUT\<close>, the guest reads the same duration back if it is positive and refuses
  to start if it is not.
\<close>

theorem idle_timeout_agrees:
  assumes "- (2 ^ 63) \<le> idleTTL p" and "idleTTL p < 2 ^ 63"
  shows "parseIdleTimeout (guest_getenv (create_request p name pem allow)) =
    (if 0 < idleTTL p then Inr (idleTTL p) else Inl (Errorf [T ''GUEST_IDLE_TIMEOUT must be positive'']))"
  using assms by (intro parse_printed_timeout) (simp_all add: guest_getenv_def create_request_def)

text \<open>
  C5: the guest and the server agree on keys. If the key encoders and parsers are inverse to each
  other up to surrounding white space, then a guest booted from the request that \<open>create\<close> sends
  starts, presents the host key that the server pins for an instance of that name, admits exactly
  the key the server authenticates with, and keeps the configured idle timeout.
\<close>

theorem guest_and_server_agree:
  assumes pem_parses: "\<And>key pem signer. MarshalPrivateKeyPEM V key = Inr pem \<Longrightarrow> NewSignerFromKey V key = Inr signer \<Longrightarrow>
      TrimSpace pem \<noteq> [] \<and> ParsePrivateKey E (TrimSpace pem) = Inr signer"
    and line_parses: "\<And>pk. TrimSpace (MarshalAuthorizedKey V pk) \<noteq> [] \<and>
      ParseAuthorizedKey E (TrimSpace (MarshalAuthorizedKey V pk)) = Inr pk"
    and "instanceFromPlatform V p inst = Inr ui"
    and "deriveHostKey V p (pi_Name inst) = Inr (hostKey, pem)"
    and "deriveSSHSigner V p ''auth'' (pi_Name inst) = Inr authKey"
    and "0 < idleTTL p" and "idleTTL p < 2 ^ 63"
  shows "\<exists>g. guest_init E (guest_getenv (create_request p (pi_Name inst) pem
        (MarshalAuthorizedKey V (SignerPublicKey V authKey)))) = Inr g \<and>
      SignerPublicKey V (guestHostKey g) = ui_hostKey ui \<and>
      (\<forall>key. allowMuxKey (=) g key \<longleftrightarrow> key = SignerPublicKey V (ui_authKey ui)) \<and>
      guestIdleTimeout g = idleTTL p"
proof -
  let ?env = "guest_getenv (create_request p (pi_Name inst) pem (MarshalAuthorizedKey V (SignerPublicKey V authKey)))"
  have env: "?env ''GUEST_HOST_KEY'' = pem" "?env ''GUEST_ALLOW_KEY'' = MarshalAuthorizedKey V (SignerPublicKey V authKey)"
    "?env ''GUEST_IDLE_TIMEOUT'' = Duration_String (idleTTL p)"
    by (simp_all add: guest_getenv_def create_request_def)
  from deriveHostKey_pem [OF assms(4)] obtain key signer where
    k: "NewSignerFromKey V key = Inr signer" "MarshalPrivateKeyPEM V key = Inr pem" "hostKey = SignerPublicKey V signer"
    by blast
  have "parseHostKey E ?env = Inr signer"
    using pem_parses [OF k(2,1)] env by (simp add: parseHostKey_def Let_def)
  moreover have "parseAllowKey E ?env = Inr (SignerPublicKey V authKey)"
    using line_parses env by (simp add: parseAllowKey_def Let_def)
  moreover have "parseIdleTimeout ?env = Inr (idleTTL p)"
    using parse_printed_timeout [of "idleTTL p" ?env] assms(6,7) env by simp
  moreover have "hostKey = ui_hostKey ui" "authKey = ui_authKey ui"
    using instanceFromPlatform_keys [OF assms(3)] assms(4,5) by auto
  ultimately show ?thesis using k(3) by (simp add: guest_init_def allowMuxKey_def)
qed

text \<open>
  C26: instance names. A name is \<open>sshmux-\<close> and 32 lower-case hexadecimal digits, so it is counted
  by the instance limit; and two users, images or endpoints (without zero bytes) share a name only
  if two different messages agree in the first 16 bytes of their SHA-256 digests.
\<close>

theorem instance_names:
  assumes "CHR 0x00 \<notin> set (endpoint p)" and "CHR 0x00 \<notin> set (image p)" and "CHR 0x00 \<notin> set u"
    and "CHR 0x00 \<notin> set (endpoint q)" and "CHR 0x00 \<notin> set (image q)" and "CHR 0x00 \<notin> set v"
  shows "HasPrefix (instanceName p u) ''sshmux-'' \<and> length (instanceName p u) = 39 \<and>
    set (drop 7 (instanceName p u)) \<subseteq> hex_chars \<and>
    (instanceName p u = instanceName q v \<longleftrightarrow>
      (endpoint p = endpoint q \<and> image p = image q \<and> u = v) \<or>
      (name_message p u \<noteq> name_message q v \<and>
       take 16 (Sum256 (name_message p u)) = take 16 (Sum256 (name_message q v))))"
proof -
  have "instanceName p u = instanceName q v \<longleftrightarrow>
      take 16 (Sum256 (name_message p u)) = take 16 (Sum256 (name_message q v))"
    by (simp add: instanceName_def hex_inj)
  with name_message_inj [OF assms] show ?thesis
    using hex_alphabet by (auto simp: instanceName_def unikraftInstancePrefix_def)
qed

section \<open>A concrete platform\<close>

text \<open>The instances that exist and the clock; guests accept SSH from the third second on.\<close>

type_synonym demo_world = "platform_instance list \<times> int"

definition demo_cloud :: "demo_world cloud_env" where
  "demo_cloud =
     \<lparr>c_getenv = (\<lambda>k. if k = ''UKC_TOKEN'' then ''token'' else []),
      rand_Read = (\<lambda>i. Inr (replicate 32 (CHR ''r''))),
      EndpointForMetro = (\<lambda>m. ''https://api.'' @ m @ ''.unikraft.cloud''),
      GetInstance = (\<lambda>n (is, t). ((is, t), Inr (Some (filter (\<lambda>i. pi_Name i = n) is)))),
      ListInstances = (\<lambda>(is, t). ((is, t), Inr (Some is))),
      CreateInstance = (\<lambda>rq (is, t).
        if cr_Name rq \<in> pi_Name ` set is then ((is, t), Inl (External ''already exists''))
        else let i = \<lparr>pi_Uuid = ''uuid'', pi_Name = cr_Name rq, pi_Domains = Some [''guest.unikraft.app'']\<rparr>
             in ((i # is, t), Inr (Some [i]))),
      IsNotFound = (\<lambda>err. False), IsAlreadyExists = (\<lambda>err. root_cause err = External ''already exists''),
      NewKeyFromSeed = (\<lambda>s. ''key''), NewSignerFromKey = (\<lambda>k. Inr (''signer-'' @ k)),
      SignerPublicKey = (\<lambda>s. ''pub-'' @ s), MarshalPrivateKeyPEM = (\<lambda>k. Inr (''BEGIN'' @ k @ ''END'')),
      MarshalAuthorizedKey = (\<lambda>pk. ''ssh-'' @ pk @ ''==''), url_Parse = (\<lambda>s. Inr ''api.fra.unikraft.cloud''),
      tls_Dial = (\<lambda>addr sni w. (w, Inr ''conn'')),
      NewClientConn = (\<lambda>conn cc (is, t).
        ((is, t), if 3000000000 \<le> t then Inr demo_backend else Inl (External ''EOF''))),
      tls_Close = (\<lambda>conn w. w), c_clock = snd, ctx_Err = (\<lambda>w. None),
      c_block = (\<lambda>d u (is, t). (is, max t (min d u))), select_choice = nat \<circ> snd,
      strconv_Quote = (\<lambda>s. CHR 0x22 # s @ [CHR 0x22])\<rparr>"

definition demo_provider :: UnikraftProvider where
  "demo_provider =
     \<lparr>endpoint = ''https://api.fra.unikraft.cloud'', image = ''jedevc/sshmux-guest:latest'', memoryMB = 32,
      idleTTL = 60000000000, maxInst = 1, seed = replicate 32 (CHR ''r'')\<rparr>"

definition demo_guest_keys :: key_env where
  "demo_guest_keys = demo_keys
     \<lparr>ParsePrivateKey := (\<lambda>s. Inr (''signer-'' @ take (length s - 8) (drop 5 s))),
      ParseAuthorizedKey := (\<lambda>s. Inr (take (length s - 6) (drop 4 s)))\<rparr>"

definition demo_instance :: platform_instance where
  "demo_instance = \<lparr>pi_Uuid = ''uuid'', pi_Name = ''sshmux-1'', pi_Domains = Some [''guest.unikraft.app'']\<rparr>"

lemma demo_derive:
  "deriveHostKey demo_cloud demo_provider n = Inr (''pub-signer-key'', ''BEGINkeyEND'')"
  "deriveSSHSigner demo_cloud demo_provider l n = Inr ''signer-key''"
  by (simp_all add: deriveHostKey_def deriveSSHSigner_def demo_cloud_def)

lemma demo_dialAddr: "unikraftDialAddr demo_cloud e = Inr ''api.fra.unikraft.cloud:2222''"
  by (simp add: unikraftDialAddr_def demo_cloud_def url_splitHostPort_def JoinHostPort_def)

lemma demo_from_platform:
  "instanceFromPlatform demo_cloud demo_provider
     \<lparr>pi_Uuid = ''uuid'', pi_Name = n, pi_Domains = Some [''guest.unikraft.app'']\<rparr> =
   Inr \<lparr>ui_uuid = ''uuid'', fqdn = ''guest.unikraft.app'', dialAddr = ''api.fra.unikraft.cloud:2222'',
        ui_hostKey = ''pub-signer-key'', ui_authKey = ''signer-key''\<rparr>"
  by (simp add: instanceFromPlatform_def demo_dialAddr demo_derive)

lemma demo_CreateInstance:
  "cr_Name rq \<notin> pi_Name ` set is \<Longrightarrow> CreateInstance demo_cloud rq (is, t) =
   ((\<lparr>pi_Uuid = ''uuid'', pi_Name = cr_Name rq, pi_Domains = Some [''guest.unikraft.app'']\<rparr> # is, t),
    Inr (Some [\<lparr>pi_Uuid = ''uuid'', pi_Name = cr_Name rq, pi_Domains = Some [''guest.unikraft.app'']\<rparr>]))"
  by (simp add: demo_cloud_def Let_def)

lemma demo_create:
  "n \<notin> pi_Name ` set is \<Longrightarrow> fst (create demo_cloud demo_provider n (is, t)) =
   (\<lparr>pi_Uuid = ''uuid'', pi_Name = n, pi_Domains = Some [''guest.unikraft.app'']\<rparr> # is, t)"
  by (simp add: create_def demo_derive demo_CreateInstance create_request_def Let_def demo_from_platform)

section \<open>Witnesses\<close>

theorem instance_limit_respected_witness:
  "int (count_instances (fst (fst (getOrCreate demo_cloud demo_provider ''sshmux-1'' ([], 0))))) \<le> 1"
proof -
  let ?cnt = "\<lambda>w :: demo_world. count_instances (fst w)"
  let ?r = "getOrCreate demo_cloud demo_provider ''sshmux-1'' ([], 0)"
  have "int (?cnt (fst ?r)) \<le> maxInst demo_provider"
  proof (rule instance_limit_respected [where V = demo_cloud and cnt = ?cnt and w = "([], 0)" and r = "snd ?r"])
    show "getOrCreate demo_cloud demo_provider ''sshmux-1'' ([], 0) = (fst ?r, snd ?r)" by simp
  qed (auto simp: demo_cloud_def demo_provider_def count_instances_def Let_def split: if_splits)
  then show ?thesis by (simp add: demo_provider_def)
qed

theorem dial_terminates_witness:
  "\<exists>r. \<forall>fuel \<ge> 61. Dial fuel demo_cloud demo_provider ''guest-1'' ([], 0) = Some r"
proof (rule dial_terminates)
  show "clock_advances demo_cloud"
    unfolding clock_advances_def by (simp add: demo_cloud_def Let_def split: prod.splits)
qed (auto simp: demo_cloud_def select_ready_def split: prod.splits)

theorem idle_timeout_agrees_witness:
  "parseIdleTimeout (guest_getenv (create_request demo_provider ''sshmux-1'' ''PEM'' ''line'')) = Inr 60000000000"
  using idle_timeout_agrees [of demo_provider "''sshmux-1''" "''PEM''" "''line''"] by (simp add: demo_provider_def)

theorem guest_and_server_agree_witness:
  "\<exists>g. guest_init demo_guest_keys (guest_getenv (create_request demo_provider ''sshmux-1'' ''BEGINkeyEND''
        ''ssh-pub-signer-key=='')) = Inr g \<and> guestIdleTimeout g = 60000000000"
proof -
  have pem: "TrimSpace pem \<noteq> [] \<and> ParsePrivateKey demo_guest_keys (TrimSpace pem) = Inr signer"
    if "MarshalPrivateKeyPEM demo_cloud key = Inr pem" "NewSignerFromKey demo_cloud key = Inr signer" for key pem signer
    using that TrimSpace_visible [of "''BEGIN'' @ key @ ''END''"]
    by (auto simp: demo_cloud_def demo_guest_keys_def visible_def)
  have line: "TrimSpace (MarshalAuthorizedKey demo_cloud pk) \<noteq> [] \<and>
      ParseAuthorizedKey demo_guest_keys (TrimSpace (MarshalAuthorizedKey demo_cloud pk)) = Inr pk" for pk
    using TrimSpace_visible [of "''ssh-'' @ pk @ ''==''"]
    by (auto simp: demo_cloud_def demo_guest_keys_def visible_def)
  obtain ui where ui: "instanceFromPlatform demo_cloud demo_provider demo_instance = Inr ui"
    by (simp add: demo_instance_def demo_from_platform)
  have "\<exists>g. guest_init demo_guest_keys (guest_getenv (create_request demo_provider (pi_Name demo_instance) ''BEGINkeyEND''
        (MarshalAuthorizedKey demo_cloud (SignerPublicKey demo_cloud ''signer-key'')))) = Inr g \<and>
      SignerPublicKey demo_cloud (guestHostKey g) = ui_hostKey ui \<and>
      (\<forall>key. allowMuxKey (=) g key \<longleftrightarrow> key = SignerPublicKey demo_cloud (ui_authKey ui)) \<and>
      guestIdleTimeout g = idleTTL demo_provider"
  proof (rule guest_and_server_agree [OF _ _ ui demo_derive])
    show "TrimSpace pem \<noteq> [] \<and> ParsePrivateKey demo_guest_keys (TrimSpace pem) = Inr signer"
      if "MarshalPrivateKeyPEM demo_cloud key = Inr pem" "NewSignerFromKey demo_cloud key = Inr signer" for key pem signer
      using that by (rule pem)
  qed (use line in \<open>simp_all add: demo_provider_def\<close>)
  moreover have "MarshalAuthorizedKey demo_cloud (SignerPublicKey demo_cloud ''signer-key'') = ''ssh-pub-signer-key==''"
    "pi_Name demo_instance = ''sshmux-1''" "idleTTL demo_provider = 60000000000"
    by (simp_all add: demo_cloud_def demo_instance_def demo_provider_def)
  ultimately show ?thesis by auto
qed

theorem instance_names_witness:
  "length (instanceName demo_provider ''guest-1'') = 39"
  using instance_names [of demo_provider "''guest-1''" demo_provider "''guest-2''"] by (simp add: demo_provider_def)

end
