(* ===== verification/CloudSessions.thy ===== *)
theory CloudSessions
  imports Cloud
begin

text \<open>
  Sessions that ask for an instance at the same time (\<open>internal/cloud/unikraft.go\<close>). The server runs
  every session in a goroutine of its own and \<open>getOrCreate\<close> holds no lock, so between two of its
  calls to the platform other sessions make theirs. Here \<open>getOrCreate\<close> is cut at these calls into
  steps; one session taking all of its steps alone is \<open>getOrCreate\<close>.
\<close>

section \<open>Steps\<close>

text \<open>Where a session is: before one of the calls, or returned.\<close>

datatype goc_pc =
    AtLookup
  | AtLimit
  | AtCreate
  | AtRelookup error
  | Ended "unikraftInstance result"

fun goc_next :: "'w cloud_env \<Rightarrow> UnikraftProvider \<Rightarrow> string \<Rightarrow> goc_pc \<Rightarrow> 'w \<Rightarrow> 'w \<times> goc_pc" where
  "goc_next V p name AtLookup w =
     (case lookup V p name w of
        (w1, Inl err) \<Rightarrow> (w1, Ended (Inl err))
      | (w1, Inr (Some inst)) \<Rightarrow> (w1, Ended (Inr inst))
      | (w1, Inr None) \<Rightarrow> (w1, AtLimit))"
| "goc_next V p name AtLimit w =
     (case checkInstanceLimit V p w of
        (w1, Some err) \<Rightarrow> (w1, Ended (Inl err))
      | (w1, None) \<Rightarrow> (w1, AtCreate))"
| "goc_next V p name AtCreate w =
     (case create V p name w of
        (w1, Inr inst) \<Rightarrow> (w1, Ended (Inr inst))
      | (w1, Inl err) \<Rightarrow> (w1, if \<not> IsAlreadyExists V err then Ended (Inl err) else AtRelookup err))"
| "goc_next V p name (AtRelookup err) w =
     (case lookup V p name w of
        (w1, Inl lookupErr) \<Rightarrow> (w1, Ended (Inl lookupErr))
      | (w1, Inr None) \<Rightarrow> (w1, Ended (Inl err))
      | (w1, Inr (Some inst)) \<Rightarrow> (w1, Ended (Inr inst)))"
| "goc_next V p name (Ended r) w = (w, Ended r)"

fun returned :: "goc_pc \<Rightarrow> bool" where
  "returned (Ended r) = True"
| "returned _ = False"

definition in_flight :: "(string \<times> goc_pc) list \<Rightarrow> nat" where
  "in_flight ss = length (filter (\<lambda>(_, pc). \<not> returned pc) ss)"

text \<open>
  A session arrives, as long as fewer than \<open>k\<close> are in \<open>getOrCreate\<close>, or one of those that have not
  returned makes its next call.
\<close>

datatype goc_event = Arrives string | Moves nat

inductive goc_step ::
    "'w cloud_env \<Rightarrow> UnikraftProvider \<Rightarrow> nat \<Rightarrow> 'w \<times> (string \<times> goc_pc) list \<Rightarrow> goc_event
     \<Rightarrow> 'w \<times> (string \<times> goc_pc) list \<Rightarrow> bool" for V p k where
  arrives: "in_flight ss < k \<Longrightarrow> goc_step V p k (w, ss) (Arrives name) (w, ss @ [(name, AtLookup)])"
| moves: "i < length ss \<Longrightarrow> ss ! i = (name, pc) \<Longrightarrow> \<not> returned pc \<Longrightarrow> goc_next V p name pc w = (w', pc') \<Longrightarrow>
    goc_step V p k (w, ss) (Moves i) (w', ss[i := (name, pc')])"

inductive_simps goc_arrives: "goc_step V p k (w, ss) (Arrives name) t"
inductive_simps goc_moves: "goc_step V p k (w, ss) (Moves i) t"
inductive_cases goc_stepE: "goc_step V p k s e t"

section \<open>One session alone\<close>

text \<open>What is left of \<open>getOrCreate\<close> from a point on.\<close>

fun goc_rest :: "'w cloud_env \<Rightarrow> UnikraftProvider \<Rightarrow> string \<Rightarrow> goc_pc \<Rightarrow> 'w \<Rightarrow> nat \<Rightarrow> 'w \<times> goc_pc" where
  "goc_rest V p name pc w 0 = (w, pc)"
| "goc_rest V p name pc w (Suc n) = (case goc_next V p name pc w of (w', pc') \<Rightarrow> goc_rest V p name pc' w' n)"

lemma goc_rest_finished [simp]: "goc_rest V p name (Ended r) w n = (w, Ended r)"
  by (induction n) simp_all

lemma getOrCreate_steps:
  "getOrCreate V p name w = (w', r) \<longleftrightarrow> goc_rest V p name AtLookup w 4 = (w', Ended r)"
  by (auto simp: getOrCreate_def eval_nat_numeral split: prod.splits sum.splits option.splits)

lemma goc_rest_run:
  "goc_rest V p name pc w n = (w', pc') \<Longrightarrow>
   \<exists>evs. run (goc_step V p (Suc k)) (w, [(name, pc)]) evs (w', [(name, pc')])"
proof (induction n arbitrary: pc w)
  case 0
  then show ?case by (intro exI [of _ "[]"]) simp
next
  case (Suc n)
  show ?case
  proof (cases "returned pc")
    case True
    then obtain r where "pc = Ended r" by (cases pc) auto
    with Suc.prems show ?thesis by (intro exI [of _ "[]"]) simp
  next
    case False
    obtain w1 pc1 where n: "goc_next V p name pc w = (w1, pc1)" by fastforce
    with Suc.prems Suc.IH obtain evs where
      "run (goc_step V p (Suc k)) (w1, [(name, pc1)]) evs (w', [(name, pc')])" by auto
    moreover have "goc_step V p (Suc k) (w, [(name, pc)]) (Moves 0) (w1, [(name, pc1)])"
      using n False goc_step.moves [of 0 "[(name, pc)]" name pc] by simp
    ultimately show ?thesis by (blast intro: run_cons)
  qed
qed

text \<open>The steps of a session that nobody interrupts are \<open>getOrCreate\<close>.\<close>

lemma alone_is_getOrCreate:
  assumes "getOrCreate V p name w = (w', r)"
  shows "\<exists>evs. run (goc_step V p 1) (w, []) (Arrives name # evs) (w', [(name, Ended r)])"
proof -
  from assms have "goc_rest V p name AtLookup w 4 = (w', Ended r)" by (simp add: getOrCreate_steps)
  from goc_rest_run [OF this] obtain evs where
    "run (goc_step V p 1) (w, [(name, AtLookup)]) evs (w', [(name, Ended r)])" by auto
  moreover have "goc_step V p 1 (w, []) (Arrives name) (w, [(name, AtLookup)])"
    by (simp add: goc_arrives in_flight_def)
  ultimately show ?thesis by (blast intro: run_cons)
qed

section \<open>What concurrent sessions can add\<close>

definition past_check :: "(string \<times> goc_pc) list \<Rightarrow> nat" where
  "past_check ss = length (filter (\<lambda>(_, pc). pc = AtCreate) ss)"

text \<open>
  The invariant: the sessions that have passed the check are counted as if they had created
  already, and all but one of the \<open>k\<close> may have been overtaken since.
\<close>

definition goc_inv :: "UnikraftProvider \<Rightarrow> nat \<Rightarrow> ('w \<Rightarrow> nat) \<Rightarrow> 'w \<times> (string \<times> goc_pc) list \<Rightarrow> bool" where
  "goc_inv p k cnt = (\<lambda>(w, ss). in_flight ss \<le> k \<and> int (cnt w + past_check ss) \<le> maxInst p + int k - 1)"

lemma filter_update:
  "i < length ss \<Longrightarrow> length (filter P (ss[i := x])) + (if P (ss ! i) then 1 else 0) = length (filter P ss) + (if P x then 1 else 0)"
proof (induction ss arbitrary: i)
  case (Cons a ss)
  then show ?case by (cases i) auto
qed simp

lemma past_check_in_flight: "past_check ss \<le> in_flight ss"
  unfolding past_check_def in_flight_def by (induction ss) auto

lemma goc_next_count:
  assumes "counts_instances V cnt" "0 < maxInst p" "goc_next V p name pc w = (w', pc')" "\<not> returned pc"
  shows "cnt w' \<le> cnt w + (if pc = AtCreate then 1 else 0) \<and> (pc' = AtCreate \<longrightarrow> int (cnt w') < maxInst p)"
proof (cases pc)
  case AtLookup
  obtain w1 r1 where "lookup V p name w = (w1, r1)" by fastforce
  with lookup_count [OF assms(1) this] assms(3) AtLookup show ?thesis by (auto split: sum.splits option.splits)
next
  case AtLimit
  obtain w1 r1 where "checkInstanceLimit V p w = (w1, r1)" by fastforce
  with limit_count [OF assms(1) this] assms(2,3) AtLimit show ?thesis by (auto split: option.splits)
next
  case AtCreate
  obtain w1 r1 where "create V p name w = (w1, r1)" by fastforce
  with create_count [OF assms(1) this] assms(3) AtCreate show ?thesis by (auto split: sum.splits if_splits)
next
  case (AtRelookup err)
  obtain w1 r1 where "lookup V p name w = (w1, r1)" by fastforce
  with lookup_count [OF assms(1) this] assms(3) AtRelookup show ?thesis by (auto split: sum.splits option.splits)
qed (use assms(4) in simp)

lemma goc_inv_step:
  assumes "counts_instances V cnt" "0 < maxInst p" "goc_inv p k cnt s" "goc_step V p k s e t"
  shows "goc_inv p k cnt t"
  using assms(4)
proof cases
  case (arrives ss w name)
  with assms(3) show ?thesis by (simp add: goc_inv_def in_flight_def past_check_def)
next
  case (moves i ss name pc w w' pc')
  let ?ss = "ss[i := (name, pc')]"
  note c = goc_next_count [OF assms(1,2) moves(7,6)]
  have "in_flight ?ss \<le> in_flight ss"
    using filter_update [OF moves(4), of "\<lambda>(_, pc). \<not> returned pc" "(name, pc')"] moves(5,6)
    by (simp add: in_flight_def split: if_splits)
  moreover have "past_check ?ss + (if pc = AtCreate then 1 else 0) = past_check ss + (if pc' = AtCreate then 1 else 0)"
    using filter_update [OF moves(4), of "\<lambda>(_, pc). pc = AtCreate" "(name, pc')"] moves(5)
    by (simp add: past_check_def)
  moreover have "past_check ?ss \<le> in_flight ?ss" by (rule past_check_in_flight)
  ultimately show ?thesis using assms(3) c moves(1,3) by (auto simp: goc_inv_def split: if_splits)
qed

interpretation sessions: invariant_of
    "\<lambda>s. counts_instances V cnt \<and> 0 < maxInst p \<and> 0 < k \<and> (\<exists>w. s = (w, [] :: (string \<times> goc_pc) list) \<and> int (cnt w) \<le> maxInst p)"
    "goc_step V p k" "\<lambda>s. counts_instances V cnt \<and> 0 < maxInst p \<and> goc_inv p k cnt s" for V p k cnt
proof unfold_locales
  fix s assume "counts_instances V cnt \<and> 0 < maxInst p \<and> 0 < k \<and> (\<exists>w. s = (w, [] :: (string \<times> goc_pc) list) \<and> int (cnt w) \<le> maxInst p)"
  then show "counts_instances V cnt \<and> 0 < maxInst p \<and> goc_inv p k cnt s"
    by (auto simp: goc_inv_def in_flight_def past_check_def)
qed (blast intro: goc_inv_step)

text \<open>
  C15: how far concurrent sessions can exceed the instance limit. If at most \<open>k\<close> sessions are in
  \<open>getOrCreate\<close> at a time, in any interleaving of their calls to the platform, for any number of
  sessions and whatever they find, the platform never has more than \<open>max_instances + k - 1\<close>
  instances. The platform is as for the sequential limit (\<open>counts_instances\<close>): reads add no
  instance, a successful listing reports their number, creating adds at most one.
\<close>

theorem instance_limit_concurrent:
  assumes "counts_instances V cnt" and "0 < maxInst p" and "0 < k" and "int (cnt w0) \<le> maxInst p"
    and "run (goc_step V p k) (w0, []) evs (w, ss)"
  shows "int (cnt w) \<le> maxInst p + int k - 1"
proof -
  have "goc_inv p k cnt (w, ss)"
    using sessions.run_good [where V = V and cnt = cnt and p = p and k = k, OF _ assms(5)] assms(1-4) by simp
  then show ?thesis by (simp add: goc_inv_def)
qed

section \<open>The race\<close>

text \<open>
  A platform that keeps a list of instances, finds them by name, lists them, and adds the one
  that is created unless its name is taken.
\<close>

definition instance_store :: "'w cloud_env \<Rightarrow> ('w \<Rightarrow> platform_instance list) \<Rightarrow> bool" where
  "instance_store V insts \<longleftrightarrow>
     (\<forall>n w. GetInstance V n w = (w, Inr (Some (filter (\<lambda>i. pi_Name i = n) (insts w))))) \<and>
     (\<forall>w. ListInstances V w = (w, Inr (Some (insts w)))) \<and>
     (\<forall>rq w. cr_Name rq \<notin> pi_Name ` set (insts w) \<longrightarrow>
        (\<exists>w' i. CreateInstance V rq w = (w', Inr (Some [i])) \<and> pi_Name i = cr_Name rq \<and> insts w' = i # insts w)) \<and>
     (\<forall>rq w. cr_Name rq \<in> pi_Name ` set (insts w) \<longrightarrow> (\<exists>err. CreateInstance V rq w = (w, Inl err)))"

lemma store_counts:
  assumes "instance_store V insts"
  shows "counts_instances V (\<lambda>w. count_instances (insts w))"
proof -
  have "count_instances (insts w') \<le> Suc (count_instances (insts w))" if "CreateInstance V rq w = (w', r)" for rq w w' r
    using assms that unfolding instance_store_def
    by (cases "cr_Name rq \<in> pi_Name ` set (insts w)") (fastforce simp: count_instances_def)+
  then show ?thesis using assms by (auto simp: counts_instances_def instance_store_def)
qed

lemma store_lookup:
  "instance_store V insts \<Longrightarrow> name \<notin> pi_Name ` set (insts w) \<Longrightarrow> lookup V p name w = (w, Inr None)"
proof -
  assume s: "instance_store V insts" and n: "name \<notin> pi_Name ` set (insts w)"
  from n have "filter (\<lambda>i. pi_Name i = name) (insts w) = []" by (auto simp: filter_empty_conv)
  with s show ?thesis by (simp add: instance_store_def lookup_def)
qed

lemma store_limit:
  "instance_store V insts \<Longrightarrow> int (count_instances (insts w)) < maxInst p \<Longrightarrow> checkInstanceLimit V p w = (w, None)"
  by (simp add: instance_store_def checkInstanceLimit_def Let_def)

lemma store_create:
  assumes "instance_store V insts" "name \<notin> pi_Name ` set (insts w)" "HasPrefix name unikraftInstancePrefix"
    and "\<exists>k pem. deriveHostKey V p name = Inr (k, pem)" and "\<exists>signer. deriveSSHSigner V p ''auth'' name = Inr signer"
  shows "\<exists>w' r. create V p name w = (w', r) \<and> pi_Name ` set (insts w') = insert name (pi_Name ` set (insts w)) \<and>
    count_instances (insts w') = Suc (count_instances (insts w))"
proof -
  from assms(4,5) obtain k pem signer where
    "deriveHostKey V p name = Inr (k, pem)" "deriveSSHSigner V p ''auth'' name = Inr signer" by blast
  moreover define rq where "rq = create_request p name pem (MarshalAuthorizedKey V (SignerPublicKey V signer))"
  then have "cr_Name rq = name" by (simp add: create_request_def)
  with assms(1,2) obtain w' i where "CreateInstance V rq w = (w', Inr (Some [i]))" "pi_Name i = name" "insts w' = i # insts w"
    unfolding instance_store_def by metis
  ultimately show ?thesis using assms(3) by (simp add: create_def Let_def rq_def count_instances_def)
qed

text \<open>All sessions arrive; then each of them makes the call it is at, in order.\<close>

lemma all_arrive:
  "length as + length ns \<le> k \<Longrightarrow>
   run (goc_step V p k) (w, map (\<lambda>n. (n, AtLookup)) as) (map Arrives ns) (w, map (\<lambda>n. (n, AtLookup)) (as @ ns))"
proof (induction ns arbitrary: as)
  case (Cons n ns)
  have "in_flight (map (\<lambda>n. (n, AtLookup)) as) = length as" by (simp add: in_flight_def comp_def)
  with Cons.prems have "goc_step V p k (w, map (\<lambda>n. (n, AtLookup)) as) (Arrives n) (w, map (\<lambda>n. (n, AtLookup)) (as @ [n]))"
    by (simp add: goc_arrives)
  with Cons.IH [of "as @ [n]"] Cons.prems show ?case by (auto intro: run_cons)
qed simp

lemma move_next:
  "\<not> returned pc \<Longrightarrow> goc_next V p n pc w = (w', pc') \<Longrightarrow>
   goc_step V p k (w, ds @ (n, pc) # ss) (Moves (length ds)) (w', ds @ (n, pc') # ss)"
  using goc_step.moves [of "length ds" "ds @ (n, pc) # ss" n pc V p w w' pc' k] by simp

lemma sweep:
  assumes "\<not> returned pc" "\<And>n. n \<in> set ns \<Longrightarrow> goc_next V p n pc w = (w, pc')"
  shows "\<exists>evs. run (goc_step V p k) (w, ds @ map (\<lambda>n. (n, pc)) ns) evs (w, ds @ map (\<lambda>n. (n, pc')) ns)"
  using assms(2)
proof (induction ns arbitrary: ds)
  case (Cons n ns)
  from Cons.IH [of "ds @ [(n, pc')]"] Cons.prems obtain evs where
    "run (goc_step V p k) (w, ds @ (n, pc') # map (\<lambda>n. (n, pc)) ns) evs (w, ds @ (n, pc') # map (\<lambda>n. (n, pc')) ns)"
    by auto
  moreover have "goc_step V p k (w, ds @ (n, pc) # map (\<lambda>n. (n, pc)) ns) (Moves (length ds))
      (w, ds @ (n, pc') # map (\<lambda>n. (n, pc)) ns)"
    by (rule move_next [OF assms(1) Cons.prems]) simp
  ultimately show ?case by (auto intro: run_cons)
qed (auto intro: run_nil)

lemma all_create:
  assumes "instance_store V insts" "\<And>n. n \<in> set ns \<Longrightarrow> HasPrefix n unikraftInstancePrefix"
    and "\<And>n. \<exists>k pem. deriveHostKey V p n = Inr (k, pem)" "\<And>n. \<exists>signer. deriveSSHSigner V p ''auth'' n = Inr signer"
    and "distinct ns" "set ns \<inter> pi_Name ` set (insts w) = {}"
  shows "\<exists>evs w' ss. run (goc_step V p k) (w, ds @ map (\<lambda>n. (n, AtCreate)) ns) evs (w', ss) \<and>
    count_instances (insts w') = count_instances (insts w) + length ns"
  using assms(2,5,6)
proof (induction ns arbitrary: ds w)
  case (Cons n ns)
  then obtain w1 r where c: "create V p n w = (w1, r)" "pi_Name ` set (insts w1) = insert n (pi_Name ` set (insts w))"
    "count_instances (insts w1) = Suc (count_instances (insts w))"
    using store_create [OF assms(1) _ _ assms(3,4), of n w] by auto
  obtain pc where n: "goc_next V p n AtCreate w = (w1, pc)" using c(1) by (cases r) simp_all
  from Cons.IH [of w1 "ds @ [(n, pc)]"] Cons.prems c(2,3) obtain evs w' ss where
    "run (goc_step V p k) (w1, ds @ (n, pc) # map (\<lambda>n. (n, AtCreate)) ns) evs (w', ss)"
    "count_instances (insts w') = count_instances (insts w) + length (n # ns)" by auto
  moreover have "goc_step V p k (w, ds @ map (\<lambda>n. (n, AtCreate)) (n # ns)) (Moves (length ds))
      (w1, ds @ (n, pc) # map (\<lambda>n. (n, AtCreate)) ns)"
    using move_next [of AtCreate, OF _ n] by simp
  ultimately show ?case by (blast intro: run_cons)
qed (auto intro: run_nil)

text \<open>
  C40: the instance limit is not kept by concurrent sessions. On a platform that keeps a list of
  instances, with room for at least one more, let any number of sessions ask at the same time for
  instances of different names that do not exist yet. Some interleaving of their \<open>getOrCreate\<close>
  creates an instance for every one of them, although \<open>getOrCreate\<close> alone keeps the limit for each.
  With one place left, two sessions exceed it.
\<close>

theorem instance_limit_race:
  assumes "instance_store V insts" and "\<And>n. \<exists>k pem. deriveHostKey V p n = Inr (k, pem)"
    and "\<And>n. \<exists>signer. deriveSSHSigner V p ''auth'' n = Inr signer"
    and "0 < maxInst p" and "int (count_instances (insts w)) < maxInst p"
    and "distinct names" and "\<And>n. n \<in> set names \<Longrightarrow> HasPrefix n ''sshmux-'' \<and> n \<notin> pi_Name ` set (insts w)"
  shows "(\<exists>evs w' ss. run (goc_step V p (length names)) (w, []) evs (w', ss) \<and>
      count_instances (insts w') = count_instances (insts w) + length names) \<and>
    (\<forall>n w1 r. getOrCreate V p n w = (w1, r) \<longrightarrow> int (count_instances (insts w1)) \<le> maxInst p)"
proof -
  let ?step = "goc_step V p (length names)" and ?at = "\<lambda>pc. map (\<lambda>n. (n, pc)) names"
  have fresh: "n \<notin> pi_Name ` set (insts w)" "HasPrefix n unikraftInstancePrefix" if "n \<in> set names" for n
    using assms(7) [OF that] by (simp_all add: unikraftInstancePrefix_def)
  have r1: "run ?step (w, []) (map Arrives names) (w, ?at AtLookup)"
    using all_arrive [of "[]" names "length names" V p w] by simp
  have "goc_next V p n AtLookup w = (w, AtLimit)" if "n \<in> set names" for n
    using store_lookup [OF assms(1) fresh(1) [OF that]] by simp
  from sweep [where pc = AtLookup and k = "length names" and ds = "[]", OF _ this]
  obtain e2 where r2: "run ?step (w, ?at AtLookup) e2 (w, ?at AtLimit)" by auto
  have "goc_next V p n AtLimit w = (w, AtCreate)" for n
    using store_limit [OF assms(1,5)] by simp
  from sweep [where pc = AtLimit and ns = names and k = "length names" and ds = "[]", OF _ this]
  obtain e3 where r3: "run ?step (w, ?at AtLimit) e3 (w, ?at AtCreate)" by auto
  have "set names \<inter> pi_Name ` set (insts w) = {}" using fresh(1) by blast
  from all_create [OF assms(1) fresh(2) assms(2,3,6) this, of "length names" "[]"]
  obtain e4 w' ss where r4: "run ?step (w, ?at AtCreate) e4 (w', ss)"
    "count_instances (insts w') = count_instances (insts w) + length names" by auto
  have "run ?step (w, []) (map Arrives names @ e2 @ e3 @ e4) (w', ss)"
    using r1 r2 r3 r4(1) unfolding run_append by blast
  moreover have "int (count_instances (insts w1)) \<le> maxInst p" if "getOrCreate V p n w = (w1, r)" for n w1 r
    using getOrCreate_count [OF store_counts [OF assms(1)] assms(4) _ that] assms(5) by simp
  ultimately show ?thesis using r4(2) by blast
qed

section \<open>Witnesses\<close>

definition demo_insts :: "demo_world \<Rightarrow> platform_instance list" where
  "demo_insts w = fst w"

lemma demo_store: "instance_store demo_cloud demo_insts"
  by (auto simp: instance_store_def demo_insts_def demo_cloud_def Let_def)

theorem instance_limit_concurrent_witness:
  "\<exists>evs w ss. run (goc_step demo_cloud demo_provider 2) (([], 0), []) (Arrives ''sshmux-1'' # evs) (w, ss) \<and>
     int (count_instances (demo_insts w)) \<le> 2"
proof -
  have "goc_step demo_cloud demo_provider 2 (([], 0), []) (Arrives ''sshmux-1'') (([], 0), [(''sshmux-1'', AtLookup)])"
    by (simp add: goc_arrives in_flight_def)
  then have r: "run (goc_step demo_cloud demo_provider 2) (([], 0), []) [Arrives ''sshmux-1'']
      (([], 0), [(''sshmux-1'', AtLookup)])"
    by (rule run_cons) (rule run_nil)
  have "int (count_instances (demo_insts ([], 0))) \<le> maxInst demo_provider + int 2 - 1"
    by (rule instance_limit_concurrent [OF store_counts [OF demo_store] _ _ _ r])
      (simp_all add: demo_provider_def demo_insts_def count_instances_def)
  with r show ?thesis by (auto simp: demo_provider_def)
qed

theorem instance_limit_race_witness:
  "maxInst demo_provider = 1 \<and>
   (\<exists>evs w' ss. run (goc_step demo_cloud demo_provider 2) (([], 0), []) evs (w', ss) \<and> count_instances (demo_insts w') = 2)"
proof -
  have "(\<exists>evs w' ss. run (goc_step demo_cloud demo_provider (length [''sshmux-a'', ''sshmux-b''])) (([], 0), []) evs (w', ss) \<and>
      count_instances (demo_insts w') = count_instances (demo_insts ([], 0)) + length [''sshmux-a'', ''sshmux-b'']) \<and>
    (\<forall>n w1 r. getOrCreate demo_cloud demo_provider n ([], 0) = (w1, r) \<longrightarrow>
      int (count_instances (demo_insts w1)) \<le> maxInst demo_provider)"
  proof (rule instance_limit_race [OF demo_store])
    show "\<exists>k pem. deriveHostKey demo_cloud demo_provider n = Inr (k, pem)"
      "\<exists>signer. deriveSSHSigner demo_cloud demo_provider ''auth'' n = Inr signer" for n
      by (simp_all add: demo_derive)
  qed (auto simp: demo_provider_def count_instances_def demo_insts_def)
  then show ?thesis by (auto simp: demo_insts_def count_instances_def demo_provider_def numeral_2_eq_2)
qed

end
