(* ===== verification/ServerRun.thy ===== *)
theory ServerRun
  imports Cloud
begin

text \<open>
  Starting and stopping: \<open>Run\<close> and \<open>ServerOptions\<close> of \<open>internal/server/server.go\<close> and
  \<open>cmd/sshmux/main.go\<close>. The set-up is a function; from the moment the goroutines run, \<open>Run\<close> is a
  step relation between the operating system's signals, the goroutine that counts them, the
  goroutine that serves, and the main goroutine in its \<open>select\<close> and in \<open>Shutdown\<close>.
\<close>

section \<open>Set-up\<close>

text \<open>The middleware of the handler; \<open>logging.Middleware\<close> is the library's and only logs.\<close>

datatype middleware = MuxMiddleware Config "nat \<rightharpoonup> UnikraftProvider" | LoggingMiddleware

datatype ssh_option =
    WithAddress string
  | WithPtyRequests
  | WithAuth Config
  | WithSessionRoutingPolicy Config
  | WithMiddleware "middleware list"
  | HostKeyFile string
  | WithHostKeyPath string

definition ServerOptions :: "Config \<Rightarrow> (nat \<rightharpoonup> UnikraftProvider) \<Rightarrow> string \<Rightarrow> string list \<Rightarrow> ssh_option list" where
  "ServerOptions cfg providers host hostKeys =
     [WithAddress host, WithPtyRequests, WithAuth cfg, WithSessionRoutingPolicy cfg,
      WithMiddleware [MuxMiddleware cfg providers, LoggingMiddleware]]
     @ map HostKeyFile hostKeys
     @ (if length hostKeys = 0 then [WithHostKeyPath ''.ssh/id_sshmux''] else [])"

record Options =
  opt_Host :: string
  opt_HostKeys :: "string list"
  opt_Config :: Config
  opt_Provider :: "(nat \<rightharpoonup> UnikraftProvider) option"

text \<open>\<open>Run\<close> up to \<open>wish.NewServer\<close>, whose error, if any, is a parameter.\<close>

definition Run_setup :: "'w cloud_env \<Rightarrow> (ssh_option list \<Rightarrow> error option) \<Rightarrow> Options \<Rightarrow> ssh_option list result" where
  "Run_setup V newServer opts =
     (case (case opt_Provider opts of
              Some providers \<Rightarrow> Inr providers
            | None \<Rightarrow> BuildProviders V (opt_Config opts)) of
        Inl err \<Rightarrow> Inl err
      | Inr providers \<Rightarrow>
          let sshOpts = ServerOptions (opt_Config opts) providers (opt_Host opts) (opt_HostKeys opts) in
          (case newServer sshOpts of
             Some err \<Rightarrow> Inl (Wrapf [T ''create server: ''] err)
           | None \<Rightarrow> Inr sshOpts))"

record CLI =
  cli_Host :: string
  cli_Config :: string
  cli_HostKey :: "string list"

text \<open>\<open>run\<close> of \<open>cmd/sshmux/main.go\<close>, up to the same point.\<close>

definition main_run ::
    "'w cloud_env \<Rightarrow> (ssh_option list \<Rightarrow> error option) \<Rightarrow> (string \<Rightarrow> string result) \<Rightarrow> (string \<Rightarrow> Config result)
     \<Rightarrow> CLI \<Rightarrow> ssh_option list result" where
  "main_run V newServer read_file unmarshalStrict cli =
     (case Load read_file unmarshalStrict (cli_Config cli) of
        Inl err \<Rightarrow> Inl err
      | Inr cfg \<Rightarrow>
          Run_setup V newServer
            \<lparr>opt_Host = cli_Host cli, opt_HostKeys = cli_HostKey cli, opt_Config = cfg, opt_Provider = None\<rparr>)"

text \<open>The exit status of \<open>main\<close>.\<close>

definition main_status :: "error option \<Rightarrow> int" where
  "main_status r = (if r \<noteq> None then 1 else 0)"

section \<open>Serving and shutting down\<close>

datatype main_pc = Selecting | ShuttingDown | Returned "error option"

record run_state =
  sig_buffer :: nat
  sig_count :: nat
  shutdown_closes :: nat
  close_calls :: nat
  sig_goroutine :: bool
  serverErr :: "error option"
  serving :: bool
  main_at :: main_pc

text \<open>
  \<open>Notify\<close> drops a signal when the channel, of capacity 3, is full. \<open>ServeReturns None\<close> is a return
  of \<open>ListenAndServe\<close> with nil or \<open>ErrServerClosed\<close>; the main goroutine calls \<open>Shutdown\<close>, whose
  result ends \<open>Run\<close>.
\<close>

datatype run_event =
    Signal
  | CountSignal
  | ServeReturns "error option"
  | SelectShutdown
  | SelectServerErr error
  | ShutdownReturns "error option"

definition signal_arrives :: "run_state \<Rightarrow> run_state" where
  "signal_arrives s = (if sig_buffer s < 3 then s\<lparr>sig_buffer := sig_buffer s + 1\<rparr> else s)"

text \<open>One round of the loop over \<open>signals\<close>.\<close>

definition count_signal :: "run_state \<Rightarrow> run_state" where
  "count_signal s =
     (let s1 = s\<lparr>sig_buffer := sig_buffer s - 1, sig_count := sig_count s + 1\<rparr> in
      if sig_count s1 = 1 then s1\<lparr>shutdown_closes := shutdown_closes s1 + 1\<rparr>
      else if sig_count s1 = 2 then s1
      else s1\<lparr>close_calls := close_calls s1 + 1, sig_goroutine := False\<rparr>)"

inductive run_step :: "run_state \<Rightarrow> run_event \<Rightarrow> run_state \<Rightarrow> bool" where
  signal: "(\<forall>r. main_at s \<noteq> Returned r) \<Longrightarrow> run_step s Signal (signal_arrives s)"
| count: "0 < sig_buffer s \<Longrightarrow> sig_goroutine s \<Longrightarrow> run_step s CountSignal (count_signal s)"
| serve: "serving s \<Longrightarrow> run_step s (ServeReturns err) (s\<lparr>serving := False, serverErr := err\<rparr>)"
| sel_shutdown: "main_at s = Selecting \<Longrightarrow> 0 < shutdown_closes s \<Longrightarrow>
    run_step s SelectShutdown (s\<lparr>main_at := ShuttingDown\<rparr>)"
| sel_err: "main_at s = Selecting \<Longrightarrow> serverErr s = Some err \<Longrightarrow>
    run_step s (SelectServerErr err)
      (s\<lparr>serverErr := None, main_at := Returned (Some (Wrapf [T ''server error: ''] err))\<rparr>)"
| shut: "main_at s = ShuttingDown \<Longrightarrow>
    run_step s (ShutdownReturns err)
      (s\<lparr>main_at := Returned (map_option (Wrapf [T ''shutdown server: '']) err)\<rparr>)"

inductive_simps run_step_simps:
  "run_step s Signal t" "run_step s CountSignal t" "run_step s (ServeReturns e) t"
  "run_step s SelectShutdown t" "run_step s (SelectServerErr e) t" "run_step s (ShutdownReturns e) t"

definition run_init :: run_state where
  "run_init =
     \<lparr>sig_buffer = 0, sig_count = 0, shutdown_closes = 0, close_calls = 0, sig_goroutine = True,
      serverErr = None, serving = True, main_at = Selecting\<rparr>"

section \<open>The invariant\<close>

definition signals_in :: "run_event list \<Rightarrow> nat" where
  "signals_in h = length (filter (\<lambda>e. e = Signal) h)"

definition returned_for :: "run_event list \<Rightarrow> main_pc \<Rightarrow> bool" where
  "returned_for h pc =
     (case pc of
        Selecting \<Rightarrow> True
      | ShuttingDown \<Rightarrow> 1 \<le> signals_in h
      | Returned None \<Rightarrow> 1 \<le> signals_in h \<and> ShutdownReturns None \<in> set h
      | Returned (Some err) \<Rightarrow>
          (\<exists>e. err = Wrapf [T ''server error: ''] e \<and> ServeReturns (Some e) \<in> set h) \<or>
          (\<exists>e. err = Wrapf [T ''shutdown server: ''] e \<and> ShutdownReturns (Some e) \<in> set h \<and> 1 \<le> signals_in h))"

definition run_inv :: "run_state \<times> run_event list \<Rightarrow> bool" where
  "run_inv = (\<lambda>(s, h).
     sig_buffer s \<le> 3 \<and> sig_count s + sig_buffer s \<le> signals_in h \<and> sig_count s \<le> 3 \<and>
     (sig_goroutine s \<longleftrightarrow> sig_count s < 3) \<and>
     shutdown_closes s = (if sig_count s = 0 then 0 else 1) \<and>
     close_calls s = (if sig_count s < 3 then 0 else 1) \<and>
     (\<forall>e. serverErr s = Some e \<longrightarrow> ServeReturns (Some e) \<in> set h) \<and>
     returned_for h (main_at s))"

definition run_hist :: "run_state \<times> run_event list \<Rightarrow> run_event \<Rightarrow> run_state \<times> run_event list \<Rightarrow> bool" where
  "run_hist = (\<lambda>(s, h) e (t, h'). run_step s e t \<and> h' = e # h)"

lemma signals_in_Cons [simp]: "signals_in (e # h) = (if e = Signal then Suc (signals_in h) else signals_in h)"
  by (simp add: signals_in_def)

lemma returned_for_Cons: "returned_for h pc \<Longrightarrow> returned_for (e # h) pc"
  by (auto simp: returned_for_def split: main_pc.splits option.splits)

lemma run_keep:
  assumes "run_inv (s, h)" "run_step s e t"
  shows "run_inv (t, e # h)"
  using assms(2)
proof cases
  case signal
  with assms(1) show ?thesis by (auto simp: run_inv_def signal_arrives_def intro: returned_for_Cons)
next
  case count
  then have "sig_count s < 3" using assms(1) by (auto simp: run_inv_def)
  then consider "sig_count s = 0" | "sig_count s = 1" | "sig_count s = 2" by linarith
  then show ?thesis
    by cases (use count assms(1) in \<open>auto simp: run_inv_def count_signal_def Let_def intro: returned_for_Cons\<close>)
next
  case (serve err)
  with assms(1) show ?thesis by (auto simp: run_inv_def intro: returned_for_Cons)
next
  case sel_shutdown
  with assms(1) show ?thesis by (auto simp: run_inv_def returned_for_def split: if_splits)
next
  case (sel_err err)
  with assms(1) show ?thesis by (auto simp: run_inv_def returned_for_def)
next
  case (shut err)
  with assms(1) show ?thesis by (cases err) (auto simp: run_inv_def returned_for_def)
qed

lemma run_start: "run_inv (run_init, [])"
  by (simp add: run_init_def run_inv_def signals_in_def returned_for_def)

interpretation server: invariant_of "\<lambda>c. c = (run_init, [])" run_hist run_inv
  by unfold_locales (auto simp: run_start run_hist_def intro: run_keep)

lemma run_with_history: "run run_step s ls t \<Longrightarrow> run run_hist (s, h) ls (t, rev ls @ h)"
  by (induction arbitrary: h rule: run.induct) (auto simp: run_cons_simp run_hist_def)

lemma run_reachable: "run run_step run_init ls t \<Longrightarrow> run_inv (t, rev ls)"
  using server.run_good [OF refl run_with_history [of run_init ls t "[]"]] by simp

lemma signals_in_rev [simp]: "signals_in (rev ls) = signals_in ls"
  by (simp add: signals_in_def rev_filter [symmetric])

section \<open>Properties\<close>

text \<open>
  C9: signals and shutdown, in every interleaving. The shutdown channel is closed at most once
  (a second close would panic) and only after a signal; connections are closed by force at most
  once and only after three signals; and the process ends with status 0 only after a signal
  and a clean shutdown; \<open>Run\<close> returns \<open>server error\<close> only if serving failed with that error, and
  \<open>shutdown server\<close> only if \<open>Shutdown\<close> did.
\<close>

theorem shutdown_protocol:
  assumes "run run_step run_init ls t"
  shows "shutdown_closes t \<le> 1 \<and> (shutdown_closes t = 1 \<longrightarrow> 1 \<le> signals_in ls) \<and>
    close_calls t \<le> 1 \<and> (close_calls t = 1 \<longrightarrow> 3 \<le> signals_in ls) \<and>
    (\<forall>r. main_at t = Returned r \<and> main_status r = 0 \<longrightarrow> 1 \<le> signals_in ls \<and> ShutdownReturns None \<in> set ls) \<and>
    (\<forall>err. main_at t = Returned (Some err) \<longrightarrow>
      (\<exists>e. err = Wrapf [T ''server error: ''] e \<and> ServeReturns (Some e) \<in> set ls) \<or>
      (\<exists>e. err = Wrapf [T ''shutdown server: ''] e \<and> ShutdownReturns (Some e) \<in> set ls \<and> 1 \<le> signals_in ls))"
proof -
  have i: "run_inv (t, rev ls)" by (rule run_reachable [OF assms])
  then have "returned_for (rev ls) (main_at t)" by (simp add: run_inv_def)
  then have "(\<forall>r. main_at t = Returned r \<and> main_status r = 0 \<longrightarrow> 1 \<le> signals_in ls \<and> ShutdownReturns None \<in> set ls) \<and>
    (\<forall>err. main_at t = Returned (Some err) \<longrightarrow>
      (\<exists>e. err = Wrapf [T ''server error: ''] e \<and> ServeReturns (Some e) \<in> set ls) \<or>
      (\<exists>e. err = Wrapf [T ''shutdown server: ''] e \<and> ShutdownReturns (Some e) \<in> set ls \<and> 1 \<le> signals_in ls))"
    by (auto simp: returned_for_def main_status_def split: main_pc.splits option.splits if_splits)
  moreover have "shutdown_closes t \<le> 1 \<and> (shutdown_closes t = 1 \<longrightarrow> 1 \<le> signals_in ls) \<and>
      close_calls t \<le> 1 \<and> (close_calls t = 1 \<longrightarrow> 3 \<le> signals_in ls)"
    using i by (auto simp: run_inv_def split: if_splits)
  ultimately show ?thesis by simp
qed

text \<open>
  C34: starting up. When the configuration loads, the token is set if there are cloud routes,
  randomness works and the library accepts the options, the server starts with a handler whose providers cover exactly the
  cloud routes of the validated configuration, with authentication and the routing policy of that
  configuration, and with the given host keys, or the default one if none is given.
\<close>

theorem startup_options:
  assumes "Load read_file unmarshalStrict (cli_Config cli) = Inr cfg"
    and "\<exists>route \<in> set (cfg_Routes cfg). cloud_Provider (route_Cloud route) \<noteq> [] \<Longrightarrow> c_getenv V ''UKC_TOKEN'' \<noteq> []"
    and "\<And>j. \<exists>sd. rand_Read V j = Inr sd" and "\<And>os. newServer os = None"
  shows "valid_config cfg \<and>
    (\<exists>m. main_run V newServer read_file unmarshalStrict cli =
        Inr ([WithAddress (cli_Host cli), WithPtyRequests, WithAuth cfg, WithSessionRoutingPolicy cfg, WithMiddleware [MuxMiddleware cfg m, LoggingMiddleware]] @
          (if cli_HostKey cli = [] then [WithHostKeyPath ''.ssh/id_sshmux''] else map HostKeyFile (cli_HostKey cli))) \<and>
      dom m = {k. k < length (cfg_Routes cfg) \<and> cloud_Provider (route_Cloud (cfg_Routes cfg ! k)) \<noteq> []})"
proof -
  have v: "valid_config cfg" by (rule Load_valid [OF assms(1)])
  from BuildProviders_total [OF v assms(2,3)] obtain m where "BuildProviders V cfg = Inr m"
    "dom m = {k. k < length (cfg_Routes cfg) \<and> cloud_Provider (route_Cloud (cfg_Routes cfg ! k)) \<noteq> []}" by blast
  with v assms(1,4) show ?thesis by (auto simp: main_run_def Run_setup_def ServerOptions_def Let_def)
qed

section \<open>Witnesses\<close>

theorem shutdown_protocol_witness:
  "\<exists>t. run run_step run_init [Signal, CountSignal, SelectShutdown, Signal, CountSignal, ShutdownReturns None] t \<and>
     main_at t = Returned None \<and> shutdown_closes t \<le> 1"
proof -
  have "\<exists>t. run run_step run_init [Signal, CountSignal, SelectShutdown, Signal, CountSignal, ShutdownReturns None] t \<and>
     main_at t = Returned None"
    by (simp add: run_cons_simp run_step_simps run_init_def signal_arrives_def count_signal_def Let_def)
  then show ?thesis using shutdown_protocol by blast
qed

theorem startup_options_witness:
  "\<exists>m. main_run demo_cloud (\<lambda>os. None) (\<lambda>path. Inr []) (\<lambda>data. Inr demo_config)
      \<lparr>cli_Host = ''0.0.0.0:22'', cli_Config = ''config.yaml'', cli_HostKey = [''key'']\<rparr> =
    Inr [WithAddress ''0.0.0.0:22'', WithPtyRequests, WithAuth demo_config, WithSessionRoutingPolicy demo_config,
      WithMiddleware [MuxMiddleware demo_config m, LoggingMiddleware], HostKeyFile ''key'']"
proof -
  have "Load (\<lambda>path. Inr []) (\<lambda>data. Inr demo_config) ''config.yaml'' = Inr demo_config"
    using demo_valid by (simp add: Load_def Config_validate_None [symmetric])
  then show ?thesis
    using startup_options [of "\<lambda>path. Inr []" "\<lambda>data. Inr demo_config"
        "\<lparr>cli_Host = ''0.0.0.0:22'', cli_Config = ''config.yaml'', cli_HostKey = [''key'']\<rparr>" demo_config demo_cloud "\<lambda>os. None"]
    by (auto simp: demo_cloud_def)
qed

end
