(* ===== verification/GoPath.thy ===== *)
theory GoPath
  imports GoStrings
begin

text \<open>
  Go's \<open>path\<close> package: \<open>Clean\<close>, \<open>Join\<close>, \<open>Base\<close>, \<open>Dir\<close> and \<open>IsAbs\<close>. \<open>Clean\<close> processes the
  slash-separated elements with a stack, as its documentation and its code do. The lemmas
  compute the functions on clean names, which are lists of good components.
\<close>

abbreviation slash :: char where
  "slash \<equiv> CHR ''/''"

section \<open>The functions\<close>

definition path_IsAbs :: "string \<Rightarrow> bool" where
  "path_IsAbs p \<longleftrightarrow> HasPrefix p ''/''"

text \<open>One element: the stack holds the elements kept so far, the last one first.\<close>

definition clean_elem :: "bool \<Rightarrow> string list \<Rightarrow> string \<Rightarrow> string list" where
  "clean_elem rooted st w =
     (if w = [] \<or> w = ''.'' then st
      else if w = ''..'' then
        (case st of
           [] \<Rightarrow> if rooted then [] else [''..'']
         | v # vs \<Rightarrow> if v = ''..'' then ''..'' # st else vs)
      else w # st)"

definition clean_elems :: "bool \<Rightarrow> string \<Rightarrow> string list" where
  "clean_elems rooted p = rev (foldl (clean_elem rooted) [] (Split p slash))"

definition path_Clean :: "string \<Rightarrow> string" where
  "path_Clean p =
     (if path_IsAbs p then slash # Join (clean_elems True p) [slash]
      else let body = Join (clean_elems False p) [slash] in if body = [] then ''.'' else body)"

definition path_Join :: "string list \<Rightarrow> string" where
  "path_Join es =
     (if concat es = [] then []
      else path_Clean (Join (dropWhile (\<lambda>e. e = []) es) [slash]))"

definition path_Base :: "string \<Rightarrow> string" where
  "path_Base p =
     (if p = [] then ''.''
      else let b = rev (takeWhile (\<lambda>c. c \<noteq> slash) (rev (TrimRight p slash)))
           in if b = [] then ''/'' else b)"

definition path_Dir :: "string \<Rightarrow> string" where
  "path_Dir p = path_Clean (rev (dropWhile (\<lambda>c. c \<noteq> slash) (rev p)))"

section \<open>Clean names\<close>

definition good_comp :: "string \<Rightarrow> bool" where
  "good_comp w \<longleftrightarrow> w \<noteq> [] \<and> w \<noteq> ''.'' \<and> w \<noteq> ''..'' \<and> slash \<notin> set w"

abbreviation good_comps :: "string list \<Rightarrow> bool" where
  "good_comps ws \<equiv> \<forall>w \<in> set ws. good_comp w"

text \<open>The relative name of a list of components; the root is \<open>"."\<close>.\<close>

definition rel_name :: "string list \<Rightarrow> string" where
  "rel_name ws = (if ws = [] then ''.'' else Join ws [slash])"

definition abs_name :: "string list \<Rightarrow> string" where
  "abs_name ws = slash # Join ws [slash]"

lemma good_compD: "good_comp w \<Longrightarrow> w \<noteq> [] \<and> w \<noteq> ''.'' \<and> w \<noteq> ''..'' \<and> slash \<notin> set w"
  by (simp add: good_comp_def)

lemma clean_elem_good [path_simps]: "good_comp w \<Longrightarrow> clean_elem r st w = w # st"
  by (auto simp: clean_elem_def good_comp_def)

lemma clean_elem_skip [path_simps]: "clean_elem r st [] = st" "clean_elem r st ''.'' = st"
  by (simp_all add: clean_elem_def)

lemma foldl_clean_good: "good_comps ws \<Longrightarrow> foldl (clean_elem r) st ws = rev ws @ st"
  by (induction ws arbitrary: st) (auto simp: path_simps)

lemma Join_good_nonempty: "ws \<noteq> [] \<Longrightarrow> good_comps ws \<Longrightarrow> Join ws sep \<noteq> []"
  by (cases ws) (auto simp: Join_Cons good_comp_def)

lemma Split_good: "ws \<noteq> [] \<Longrightarrow> good_comps ws \<Longrightarrow> Split (Join ws [slash]) slash = ws"
  by (rule Split_Join) (auto simp: good_comp_def)

lemma hd_Join: "ws \<noteq> [] \<Longrightarrow> hd ws \<noteq> [] \<Longrightarrow> hd (Join ws sep) = hd (hd ws)"
  by (cases ws) (auto simp: Join_Cons)

lemma Join_not_abs: "ws \<noteq> [] \<Longrightarrow> good_comps ws \<Longrightarrow> \<not> path_IsAbs (Join ws [slash])"
proof -
  assume a: "ws \<noteq> []" "good_comps ws"
  then have h: "good_comp (hd ws)" by simp
  then have "hd (hd ws) \<in> set (hd ws)" by (auto simp: good_comp_def)
  with h a have "hd (Join ws [slash]) \<noteq> slash"
    by (metis good_compD hd_Join)
  with Join_good_nonempty [OF a] show ?thesis
    by (cases "Join ws [slash]") (auto simp: path_IsAbs_def)
qed

lemma path_Clean_good [path_simps]:
  "ws \<noteq> [] \<Longrightarrow> good_comps ws \<Longrightarrow> path_Clean (Join ws [slash]) = Join ws [slash]"
  by (simp add: path_Clean_def Join_not_abs clean_elems_def Split_good foldl_clean_good
      Join_good_nonempty)

lemma foldl_rooted_good:
  "good_comps st \<Longrightarrow> \<forall>w \<in> set ws. slash \<notin> set w \<Longrightarrow> good_comps (foldl (clean_elem True) st ws)"
proof (induction ws arbitrary: st)
  case (Cons w ws)
  have "good_comps (clean_elem True st w)"
    using Cons.prems by (cases st) (auto simp: clean_elem_def good_comp_def)
  with Cons show ?case by simp
qed simp

lemma clean_elems_good: "good_comps (clean_elems True p)"
  using foldl_rooted_good [of "[]" "Split p slash"] by (simp add: clean_elems_def Split_no_sep)

lemma Split_slash_Cons [simp]: "Split (slash # p) slash = [] # Split p slash"
  by simp

lemma clean_elems_slash [path_simps]: "clean_elems r (slash # p) = clean_elems r p"
  by (simp add: clean_elems_def path_simps)

lemma clean_elems_Join [path_simps]: "good_comps ws \<Longrightarrow> clean_elems r (Join ws [slash]) = ws"
  by (cases "ws = []") (simp_all add: clean_elems_def path_simps Split_good foldl_clean_good)

lemma clean_elems_rel_name [path_simps]: "good_comps ws \<Longrightarrow> clean_elems r (rel_name ws) = ws"
  by (simp add: rel_name_def clean_elems_Join) (simp add: clean_elems_def path_simps)

lemma path_Clean_abs: "path_Clean (slash # p) = abs_name (clean_elems True p)"
  by (simp add: path_Clean_def path_IsAbs_def abs_name_def path_simps)

lemma path_Clean_abs_name [path_simps]: "good_comps ws \<Longrightarrow> path_Clean (abs_name ws) = abs_name ws"
  by (simp add: abs_name_def path_Clean_abs path_simps)

section \<open>Dir, Base and Join of clean names\<close>

lemma Join_snoc_slash:
  "ws \<noteq> [] \<Longrightarrow> Join (ws @ [w]) [slash] = Join ws [slash] @ slash # w"
  by (simp add: Join_snoc)

lemma dropWhile_rev_slash:
  "slash \<notin> set w \<Longrightarrow> rev (dropWhile (\<lambda>c. c \<noteq> slash) (rev (p @ slash # w))) = p @ [slash]"
  by (simp add: dropWhile_append)

lemma Split_trailing: "slash \<notin> set w \<Longrightarrow> Split (w @ [slash]) slash = [w, []]"
  using Split_append_sep [of slash w "[]"] by simp

lemma Split_Join_trailing:
  "ws \<noteq> [] \<Longrightarrow> good_comps ws \<Longrightarrow> Split (Join ws [slash] @ [slash]) slash = ws @ [[]]"
proof (induction ws)
  case (Cons w ws)
  then have "slash \<notin> set w" by (auto simp: good_comp_def)
  with Cons show ?case
    by (cases "ws = []") (simp_all add: Join_Cons Split_trailing Split_append_sep)
qed simp

lemma path_Dir_rel_name [path_simps]:
  assumes "good_comps ws" "good_comp w"
  shows "path_Dir (rel_name (ws @ [w])) = rel_name ws"
proof (cases "ws = []")
  case True
  have "dropWhile (\<lambda>c. c \<noteq> slash) (rev w) = []"
    using assms(2) by (auto simp: good_comp_def dropWhile_eq_Nil_conv)
  then have "path_Dir (rel_name [w]) = path_Clean []"
    by (simp add: path_Dir_def rel_name_def del: dropWhile_eq_Nil_conv)
  also have "\<dots> = ''.''"
    by (simp add: path_Clean_def path_IsAbs_def clean_elems_def path_simps)
  finally show ?thesis using True by (simp add: rel_name_def)
next
  case False
  let ?d = "Join ws [slash] @ [slash]"
  have nabs: "\<not> path_IsAbs ?d"
    using Join_not_abs [OF False assms(1)] Join_good_nonempty [OF False assms(1)]
    by (cases "Join ws [slash]") (auto simp: path_IsAbs_def)
  have "path_Dir (rel_name (ws @ [w])) = path_Clean ?d"
    using False assms by (simp add: path_Dir_def rel_name_def Join_snoc_slash
        dropWhile_rev_slash good_comp_def del: rev_append)
  also have "\<dots> = Join ws [slash]"
    using False assms nabs
    by (simp add: path_Clean_def clean_elems_def Split_Join_trailing foldl_clean_good
        clean_elem_skip Join_good_nonempty)
  finally show ?thesis using False by (simp add: rel_name_def)
qed

lemma path_Dir_dot [path_simps]: "path_Dir ''.'' = ''.''"
  by (simp add: path_Dir_def path_Clean_def path_IsAbs_def clean_elems_def path_simps)

lemma TrimRight_other: "s \<noteq> [] \<Longrightarrow> last s \<noteq> c \<Longrightarrow> TrimRight s c = s"
  by (cases s rule: rev_cases) (auto simp: TrimRight_def)

lemma path_Base_rel_name [path_simps]:
  assumes "good_comps ws" "good_comp w"
  shows "path_Base (rel_name (ws @ [w])) = w"
proof -
  have w: "w \<noteq> []" "slash \<notin> set w" using assms(2) by (auto simp: good_comp_def)
  obtain pre where pre: "rel_name (ws @ [w]) = pre @ w" "pre = [] \<or> last pre = slash"
  proof (cases "ws = []")
    case True
    then show ?thesis using that [of "[]"] by (simp add: rel_name_def)
  next
    case False
    then show ?thesis using that [of "Join ws [slash] @ [slash]"]
      by (simp add: rel_name_def Join_snoc_slash)
  qed
  have "last (pre @ w) \<noteq> slash" using w last_in_set [of w] by (metis last_appendR)
  then have t: "TrimRight (pre @ w) slash = pre @ w" using w by (simp add: TrimRight_other)
  have "takeWhile (\<lambda>c. c \<noteq> slash) (rev pre) = []"
    using pre(2) by (cases pre rule: rev_cases) auto
  moreover have "takeWhile (\<lambda>c. c \<noteq> slash) (rev w @ rev pre)
      = rev w @ takeWhile (\<lambda>c. c \<noteq> slash) (rev pre)"
    using w by (intro takeWhile_append2) auto
  ultimately show ?thesis
    using w t by (simp add: path_Base_def pre(1) Let_def)
qed

lemma path_Join_rel_name [path_simps]:
  assumes "good_comps ws" "good_comp w"
  shows "path_Join [rel_name ws, w] = rel_name (ws @ [w])"
proof -
  have w: "w \<noteq> []" using assms(2) by (simp add: good_comp_def)
  have ne: "rel_name ws \<noteq> []" using assms(1) by (simp add: rel_name_def Join_good_nonempty)
  show ?thesis
  proof (cases "ws = []")
    case True
    have "Split (''.'' @ slash # w) slash = [''.'', w]"
      using assms(2) by (simp add: Split_clean good_comp_def)
    then show ?thesis
      using True w assms(2)
      by (simp add: path_Join_def rel_name_def path_Clean_def path_IsAbs_def clean_elems_def
          path_simps del: Split.simps)
  next
    case False
    then have "path_Join [rel_name ws, w] = path_Clean (Join (ws @ [w]) [slash])"
      using ne w by (simp add: path_Join_def rel_name_def Join_snoc_slash)
    also have "\<dots> = Join (ws @ [w]) [slash]"
      by (rule path_Clean_good) (use assms in auto)
    finally show ?thesis by (simp add: rel_name_def)
  qed
qed

lemma rel_name_inj: "good_comps ws \<Longrightarrow> good_comps vs \<Longrightarrow> rel_name ws = rel_name vs \<longleftrightarrow> ws = vs"
  by (metis clean_elems_rel_name)

end
