(* ===== verification/WriteFS.thy ===== *)
theory WriteFS
  imports GoPath GoGlob "HOL-Library.AList"
begin

text \<open>
  The writable file system of the demonstration shell (\<open>support/hello-world-shell/fs.go\<close>): an
  overlay of files, directories and deletion marks over a read-only tree. Go's maps are an
  association list for \<open>files\<close> (its contents are summed up and listed), a list for the keys of
  \<open>dirs\<close> (its values are only ever true) and a predicate for \<open>deleted\<close>. A path error is a wrapped
  error whose cause tells what \<open>errors.Is\<close> finds.
\<close>

section \<open>The embedded tree\<close>

text \<open>
  \<open>embed.FS\<close> under \<open>fs.Sub\<close>: the embedded files by their relative names; a directory exists when a
  file lies below it, and the root always does.
\<close>

type_synonym embed = "(string \<times> string) list"

definition comps :: "string \<Rightarrow> string list" where
  "comps name = (if name = ''.'' then [] else Split name slash)"

definition ErrNotExist :: error where "ErrNotExist = External ''file does not exist''"
definition ErrInvalid :: error where "ErrInvalid = External ''invalid argument''"

definition PathError :: "string \<Rightarrow> string \<Rightarrow> error \<Rightarrow> error" where
  "PathError op name err = Wrapf [T op, T '' '', T name, T '': ''] err"

definition errors_Is :: "error \<Rightarrow> error \<Rightarrow> bool" where
  "errors_Is err target \<longleftrightarrow> root_cause err = target"

definition ValidPath :: "string \<Rightarrow> bool" where
  "ValidPath name \<longleftrightarrow> ValidString name \<and> (name = ''.'' \<or> list_all good_comp (Split name slash))"

definition embed_is_dir :: "embed \<Rightarrow> string \<Rightarrow> bool" where
  "embed_is_dir b name \<longleftrightarrow> name = ''.'' \<or> list_ex (\<lambda>(f, _). strict_prefix (comps name) (comps f)) b"

record DirEntry =
  de_name :: string
  de_size :: nat
  de_dir :: bool

text \<open>The entry that a file below a directory gives rise to: itself, or the directory it is in.\<close>

definition embed_child :: "string \<Rightarrow> string \<times> string \<Rightarrow> (string \<times> DirEntry) list" where
  "embed_child name = (\<lambda>(f, content).
     if strict_prefix (comps name) (comps f) then
       (let rest = drop (length (comps name)) (comps f);
            is_dir = (1 < length rest)
        in [(hd rest, \<lparr>de_name = hd rest, de_size = (if is_dir then 0 else length content), de_dir = is_dir\<rparr>)])
     else [])"

definition entries_of :: "(string \<times> DirEntry) list \<Rightarrow> DirEntry list" where
  "entries_of seen =
     map (\<lambda>n. case map_of seen n of Some e \<Rightarrow> e | None \<Rightarrow> \<lparr>de_name = n, de_size = 0, de_dir = False\<rparr>)
       (sort_Strings (remdups (map fst seen)))"

definition base_ReadDir :: "embed \<Rightarrow> string \<Rightarrow> DirEntry list result" where
  "base_ReadDir b name =
     (if \<not> ValidPath name then Inl (PathError ''read'' name ErrInvalid)
      else if map_of b name \<noteq> None then Inl (PathError ''read'' name (External ''not a directory''))
      else if embed_is_dir b name then Inr (entries_of (concat (map (embed_child name) b)))
      else Inl (PathError ''open'' name ErrNotExist))"

definition base_ReadFile :: "embed \<Rightarrow> string \<Rightarrow> string result" where
  "base_ReadFile b name =
     (if \<not> ValidPath name then Inl (PathError ''read'' name ErrInvalid)
      else
        (case map_of b name of
           Some content \<Rightarrow> Inr content
         | None \<Rightarrow>
             if embed_is_dir b name then Inl (PathError ''read'' name (External ''is a directory''))
             else Inl (PathError ''open'' name ErrNotExist)))"

text \<open>Open files: overlay files and directories, and the two kinds of the embedded tree.\<close>

datatype fs_file =
    File_write string string
  | Dir_write string "DirEntry list"
  | File_base string string
  | Dir_base string

definition base_Open :: "embed \<Rightarrow> string \<Rightarrow> fs_file result" where
  "base_Open b name =
     (if \<not> ValidPath name then Inl (PathError ''open'' name ErrInvalid)
      else
        (case map_of b name of
           Some content \<Rightarrow> Inr (File_base (path_Base name) content)
         | None \<Rightarrow>
             if embed_is_dir b name then Inr (Dir_base (path_Base name))
             else Inl (PathError ''open'' name ErrNotExist)))"

section \<open>The overlay\<close>

record writeFS =
  base :: embed
  files :: "(string \<times> string) list"
  dirs :: "string list"
  deleted :: "string \<Rightarrow> bool"

definition newWriteFS :: "embed \<Rightarrow> writeFS" where
  "newWriteFS b = \<lparr>base = b, files = [], dirs = [], deleted = (\<lambda>_. False)\<rparr>"

definition maxFilesystemBytes :: nat where
  "maxFilesystemBytes = 64 * 1024"

definition fsName :: "string \<Rightarrow> string" where
  "fsName name0 =
     (let name = TrimPrefix (path_Clean (''/'' @ name0)) ''/'' in
      if name = [] then ''.'' else name)"

definition displayPath :: "string \<Rightarrow> string" where
  "displayPath name = (if name = ''.'' then ''/'' else ''/'' @ name)"

definition file_entry :: "string \<times> string \<Rightarrow> string \<times> DirEntry" where
  "file_entry = (\<lambda>(f, content). (path_Base f, \<lparr>de_name = path_Base f, de_size = length content, de_dir = False\<rparr>))"

definition dir_entry :: "string \<Rightarrow> string \<times> DirEntry" where
  "dir_entry d = (path_Base d, \<lparr>de_name = path_Base d, de_size = 0, de_dir = True\<rparr>)"

text \<open>
  The map \<open>seen\<close>, later entries in front: the embedded entries that are not deleted, then the
  overlay's files, then its directories.
\<close>

definition ReadDir_seen :: "writeFS \<Rightarrow> string \<Rightarrow> DirEntry list \<Rightarrow> (string \<times> DirEntry) list" where
  "ReadDir_seen w name entries =
     map dir_entry (filter (\<lambda>d. d \<noteq> name \<and> path_Dir d = name \<and> \<not> deleted w d) (dirs w))
     @ map file_entry (filter (\<lambda>(f, _). path_Dir f = name \<and> \<not> deleted w f) (files w))
     @ map (\<lambda>e. (de_name e, e)) (filter (\<lambda>e. \<not> deleted w (path_Join [name, de_name e])) entries)"

definition writeFS_ReadDir :: "writeFS \<Rightarrow> string \<Rightarrow> DirEntry list result" where
  "writeFS_ReadDir w name0 =
     (let name = fsName name0 in
      case base_ReadDir (base w) name of
        Inl err \<Rightarrow>
          if name \<notin> set (dirs w) then Inl err else Inr (entries_of (ReadDir_seen w name []))
      | Inr entries \<Rightarrow> Inr (entries_of (ReadDir_seen w name entries)))"

definition writeFS_Open :: "writeFS \<Rightarrow> string \<Rightarrow> fs_file result" where
  "writeFS_Open w name0 =
     (let name = fsName name0 in
      if deleted w name then Inl (PathError ''open'' name ErrNotExist)
      else if name \<in> set (dirs w) then
        (case writeFS_ReadDir w name of
           Inl err \<Rightarrow> Inl err
         | Inr entries \<Rightarrow> Inr (Dir_write (path_Base name) entries))
      else
        (case map_of (files w) name of
           Some data \<Rightarrow> Inr (File_write (path_Base name) data)
         | None \<Rightarrow> base_Open (base w) name))"

section \<open>io/fs on the overlay\<close>

record FileInfo =
  fi_name :: string
  fi_size :: nat
  fi_dir :: bool

fun file_Stat :: "fs_file \<Rightarrow> FileInfo" where
  "file_Stat (File_write n data) = \<lparr>fi_name = n, fi_size = length data, fi_dir = False\<rparr>"
| "file_Stat (Dir_write n es) = \<lparr>fi_name = n, fi_size = 0, fi_dir = True\<rparr>"
| "file_Stat (File_base n data) = \<lparr>fi_name = n, fi_size = length data, fi_dir = False\<rparr>"
| "file_Stat (Dir_base n) = \<lparr>fi_name = n, fi_size = 0, fi_dir = True\<rparr>"

definition fs_Stat :: "writeFS \<Rightarrow> string \<Rightarrow> FileInfo result" where
  "fs_Stat w name = map_sum id file_Stat (writeFS_Open w name)"

definition stat_is_dir :: "FileInfo result \<Rightarrow> bool" where
  "stat_is_dir r = (case r of Inl _ \<Rightarrow> False | Inr info \<Rightarrow> fi_dir info)"

text \<open>
  \<open>fs.ReadFile\<close> reads the opened file to its end: a \<open>writeDir\<close> is at its end at once, an embedded
  directory cannot be read.
\<close>

fun file_ReadAll :: "fs_file \<Rightarrow> string result" where
  "file_ReadAll (File_write n data) = Inr data"
| "file_ReadAll (Dir_write n es) = Inr []"
| "file_ReadAll (File_base n data) = Inr data"
| "file_ReadAll (Dir_base n) = Inl (PathError ''read'' n (External ''is a directory''))"

definition fs_ReadFile :: "writeFS \<Rightarrow> string \<Rightarrow> string result" where
  "fs_ReadFile w name =
     (case writeFS_Open w name of Inl err \<Rightarrow> Inl err | Inr f \<Rightarrow> file_ReadAll f)"

text \<open>\<open>ReadDir(n)\<close> of an opened overlay directory: the entries from an offset on, and the new offset.\<close>

definition writeDir_ReadDir :: "DirEntry list \<Rightarrow> nat \<Rightarrow> int \<Rightarrow> nat \<times> DirEntry list result" where
  "writeDir_ReadDir entries offset n =
     (if length entries \<le> offset \<and> 0 < n then (offset, Inl (External ''EOF''))
      else
        (let n' = (if n \<le> 0 \<or> int (length entries) < int offset + n
                   then length entries - offset else nat n)
         in (offset + n', Inr (take n' (drop offset entries)))))"

section \<open>Changing the overlay\<close>

definition used_space :: "(string \<times> string) list \<Rightarrow> string \<Rightarrow> nat" where
  "used_space fs name = sum_list (map (\<lambda>(f, content). if f \<noteq> name then length content else 0) fs)"

definition checkSpace :: "writeFS \<Rightarrow> string \<Rightarrow> string \<Rightarrow> error option" where
  "checkSpace w name data =
     (if maxFilesystemBytes < used_space (files w) name + length data
      then Some (Errorf [T ''filesystem is full: '', D (int maxFilesystemBytes), T '' byte limit exceeded''])
      else None)"

lemma checkSpace_code [code]:
  "checkSpace w name data =
     (if (65536 :: int) < int (used_space (files w) name + length data)
      then Some (Errorf [T ''filesystem is full: '', D 65536, T '' byte limit exceeded''])
      else None)"
  by (simp add: checkSpace_def maxFilesystemBytes_def)

text \<open>
  Lines 131 to 140: what is appended to. \<open>append([]byte(nil), x...)\<close> is nil when \<open>x\<close> is empty, so
  an empty overlay file counts as none.
\<close>

definition append_base :: "writeFS \<Rightarrow> string \<Rightarrow> string" where
  "append_base w name =
     (let current = (case map_of (files w) name of None \<Rightarrow> [] | Some c \<Rightarrow> c) in
      if current = [] \<and> \<not> deleted w name then
        (case base_ReadFile (base w) name of Inl _ \<Rightarrow> [] | Inr content \<Rightarrow> content)
      else current)"

definition writeFS_WriteFile :: "writeFS \<Rightarrow> string \<Rightarrow> string \<Rightarrow> bool \<Rightarrow> writeFS result" where
  "writeFS_WriteFile w name0 data0 appendData =
     (let name = fsName name0; dir = path_Dir name in
      if deleted w dir then Inl (Errorf [T (displayPath dir), T '': no such directory''])
      else if stat_is_dir (fs_Stat w name) then Inl (Errorf [T (displayPath name), T '': is a directory''])
      else if dir \<noteq> ''.'' \<and> \<not> stat_is_dir (fs_Stat w dir) then
        Inl (Errorf [T (displayPath dir), T '': no such directory''])
      else
        (let data = (if appendData then append_base w name @ data0 else data0) in
         case checkSpace w name data of
           Some err \<Rightarrow> Inl err
         | None \<Rightarrow> Inr (w\<lparr>deleted := (deleted w)(name := False), files := AList.update name data (files w)\<rparr>)))"

definition writeFS_Remove :: "writeFS \<Rightarrow> string \<Rightarrow> writeFS result" where
  "writeFS_Remove w name0 =
     (let name = fsName name0 in
      case fs_Stat w name of
        Inl err \<Rightarrow> Inl (Errorf [T (displayPath name), T '': no such file''])
      | Inr info \<Rightarrow>
          if fi_dir info then Inl (Errorf [T (displayPath name), T '': is a directory''])
          else Inr (w\<lparr>files := AList.delete name (files w), deleted := (deleted w)(name := True)\<rparr>))"

definition writeFS_Mkdir :: "writeFS \<Rightarrow> string \<Rightarrow> writeFS result" where
  "writeFS_Mkdir w name0 =
     (let name = fsName name0 in
      if name = ''.'' then Inl (Errorf [T (displayPath name), T '': file exists''])
      else
        (case fs_Stat w name of
           Inr _ \<Rightarrow> Inl (Errorf [T (displayPath name), T '': file exists''])
         | Inl _ \<Rightarrow>
             (let parent = path_Dir name in
              if \<not> stat_is_dir (fs_Stat w parent)
              then Inl (Errorf [T (displayPath parent), T '': no such directory''])
              else Inr (w\<lparr>deleted := (deleted w)(name := False), dirs := List.insert name (dirs w)\<rparr>))))"

definition writeFS_Rmdir :: "writeFS \<Rightarrow> string \<Rightarrow> writeFS result" where
  "writeFS_Rmdir w name0 =
     (let name = fsName name0 in
      if name = ''.'' then Inl (Errorf [T (displayPath name), T '': cannot remove root''])
      else
        (case fs_Stat w name of
           Inl err \<Rightarrow> Inl (Errorf [T (displayPath name), T '': no such directory''])
         | Inr info \<Rightarrow>
             if \<not> fi_dir info then Inl (Errorf [T (displayPath name), T '': not a directory''])
             else
               (case writeFS_ReadDir w name of
                  Inl err \<Rightarrow> Inl err
                | Inr entries \<Rightarrow>
                    if length entries \<noteq> 0 then Inl (Errorf [T (displayPath name), T '': directory not empty''])
                    else Inr (w\<lparr>dirs := removeAll name (dirs w), deleted := (deleted w)(name := True)\<rparr>))))"

definition writeFS_Rename :: "writeFS \<Rightarrow> string \<Rightarrow> string \<Rightarrow> writeFS result" where
  "writeFS_Rename w oldName0 newName0 =
     (let oldName = fsName oldName0;
          newName1 = fsName newName0;
          newName = (if stat_is_dir (fs_Stat w newName1)
                     then path_Join [newName1, path_Base oldName] else newName1)
      in
      case fs_ReadFile w oldName of
        Inl err \<Rightarrow> Inl (Errorf [T (displayPath oldName), T '': no such file''])
      | Inr data \<Rightarrow>
          (case writeFS_WriteFile w newName data False of
             Inl err \<Rightarrow> Inl err
           | Inr w1 \<Rightarrow>
               Inr (w1\<lparr>files := AList.delete oldName (files w1), deleted := (deleted w1)(oldName := True)\<rparr>)))"

definition writeFS_Touch :: "writeFS \<Rightarrow> string \<Rightarrow> writeFS result" where
  "writeFS_Touch w name0 =
     (let name = fsName name0 in
      case fs_Stat w name of
        Inr info \<Rightarrow>
          if fi_dir info then Inl (Errorf [T (displayPath name), T '': is a directory'']) else Inr w
      | Inl err \<Rightarrow>
          if \<not> errors_Is err ErrNotExist then Inl err else writeFS_WriteFile w name [] False)"

end
