(* ===== verification/FSProperties.thy ===== *)
theory FSProperties
  imports WriteFS
begin

text \<open>
  The library of the writable file system: clean names, the space that files take, the invariant of
  the overlay and its preservation, the view of the overlay as a map of names to nodes and what the
  operations do to it, the interface of a file store, and what a directory lists.
\<close>

section \<open>Names\<close>

lemma fsName_rel_name: "fsName s = rel_name (clean_elems True s)"
  using Join_good_nonempty [OF _ clean_elems_good, of s "[slash]"]
  by (auto simp: fsName_def path_Clean_abs abs_name_def rel_name_def TrimPrefix_def Let_def)

lemma fsName_clean [path_simps]: "good_comps ws \<Longrightarrow> fsName (rel_name ws) = rel_name ws"
  by (simp add: fsName_rel_name path_simps)

lemma fsName_idem [simp]: "fsName (fsName s) = fsName s"
  by (simp add: fsName_rel_name clean_elems_good path_simps)

definition clean_name :: "string \<Rightarrow> bool" where
  "clean_name n \<longleftrightarrow> fsName n = n"

lemma clean_name_fsName [simp]: "clean_name (fsName s)"
  by (simp add: clean_name_def)

lemma clean_nameE:
  assumes "clean_name n"
  obtains ws where "good_comps ws" "n = rel_name ws"
  using assms clean_elems_good [of n] unfolding clean_name_def fsName_rel_name by metis

lemma clean_name_rel [simp]: "good_comps ws \<Longrightarrow> clean_name (rel_name ws)"
  by (simp add: clean_name_def path_simps)

lemma comps_rel_name: "good_comps ws \<Longrightarrow> comps (rel_name ws) = ws"
proof (cases "ws = []")
  case False
  assume "good_comps ws"
  moreover have "Join ws [slash] \<noteq> ''.''"
  proof
    assume "Join ws [slash] = ''.''"
    then have "Split ''.'' slash = ws" using Split_good [OF False \<open>good_comps ws\<close>] by metis
    then have "ws = [''.'']" by (simp add: Split_clean)
    with \<open>good_comps ws\<close> show False by (simp add: good_comp_def)
  qed
  ultimately show ?thesis using False by (simp add: comps_def rel_name_def Split_good)
qed (simp add: comps_def rel_name_def)

section \<open>Space\<close>

definition total_space :: "(string \<times> string) list \<Rightarrow> nat" where
  "total_space fs = sum_list (map (\<lambda>(f, content). length content) fs)"

lemma total_space_update:
  "distinct (map fst fs) \<Longrightarrow> total_space (AList.update name data fs) = used_space fs name + length data"
proof (induction fs)
  case (Cons fc fs)
  obtain f c where fc: "fc = (f, c)" by (cases fc)
  show ?case
  proof (cases "f = name")
    case True
    then have "name \<notin> fst ` set fs" using Cons.prems fc by simp
    then have "used_space fs name = total_space fs"
      unfolding used_space_def total_space_def by (intro arg_cong [where f = sum_list] map_cong) (auto simp: rev_image_eqI)
    with True fc show ?thesis by (simp add: used_space_def total_space_def)
  next
    case False
    with Cons fc show ?thesis by (simp add: used_space_def total_space_def)
  qed
qed (simp add: used_space_def total_space_def)

lemma total_space_delete: "total_space (AList.delete name fs) \<le> total_space fs"
  by (induction fs) (auto simp: total_space_def AList.delete_eq)

section \<open>The invariant\<close>

definition fs_ok :: "writeFS \<Rightarrow> bool" where
  "fs_ok w \<longleftrightarrow>
     distinct (map fst (files w)) \<and> distinct (dirs w) \<and>
     (\<forall>f \<in> fst ` set (files w). clean_name f \<and> f \<noteq> ''.'') \<and>
     (\<forall>d \<in> set (dirs w). clean_name d \<and> d \<noteq> ''.'') \<and>
     \<not> deleted w ''.'' \<and> total_space (files w) \<le> maxFilesystemBytes"

lemma root_is_dir: "fs_ok w \<Longrightarrow> map_of (base w) ''.'' = None \<Longrightarrow> stat_is_dir (fs_Stat w ''.'')"
proof -
  assume ok: "fs_ok w" and b: "map_of (base w) ''.'' = None"
  have n: "fsName ''.'' = ''.''" using fsName_clean [of "[]"] by (simp add: rel_name_def)
  have "''.'' \<notin> set (dirs w)" "map_of (files w) ''.'' = None"
    using ok by (auto simp: fs_ok_def map_of_eq_None_iff)
  with ok b n show ?thesis
    by (simp add: stat_is_dir_def fs_Stat_def writeFS_Open_def fs_ok_def base_Open_def ValidPath_def embed_is_dir_def)
qed

text \<open>The embedded tree: distinct clean names other than the root, valid up to every level, no
  file below another.\<close>

definition embed_ok :: "embed \<Rightarrow> bool" where
  "embed_ok b \<longleftrightarrow> distinct (map fst b) \<and>
     (\<forall>f \<in> fst ` set b. clean_name f \<and> f \<noteq> ''.'' \<and> (\<forall>ws. prefix ws (comps f) \<longrightarrow> ValidString (rel_name ws)) \<and>
        (\<forall>g \<in> fst ` set b. \<not> strict_prefix (comps f) (comps g)))"

lemma embed_root: "embed_ok b \<Longrightarrow> map_of b ''.'' = None"
  by (auto simp: embed_ok_def map_of_eq_None_iff)

lemma write_ok:
  assumes "fs_ok w" "embed_ok (base w)" "writeFS_WriteFile w name data app = Inr w'"
  shows "fs_ok w' \<and> base w' = base w"
proof -
  let ?n = "fsName name"
  have notdir: "\<not> stat_is_dir (fs_Stat w ?n)" using assms(3)
    by (auto simp: writeFS_WriteFile_def Let_def split: if_splits option.splits)
  then have "?n \<noteq> ''.''" using root_is_dir [OF assms(1) embed_root [OF assms(2)]] by metis
  moreover obtain d where w': "w' = w\<lparr>deleted := (deleted w)(?n := False), files := AList.update ?n d (files w)\<rparr>"
    and "checkSpace w ?n d = None"
    using assms(3) by (auto simp: writeFS_WriteFile_def Let_def split: if_splits option.splits)
  moreover from this have "used_space (files w) ?n + length d \<le> maxFilesystemBytes"
    by (simp add: checkSpace_def split: if_splits)
  ultimately show ?thesis
    using assms(1) by (auto simp: fs_ok_def distinct_update total_space_update dom_update)
qed

lemma delete_ok:
  assumes "fs_ok w" "name \<noteq> ''.''"
  shows "fs_ok (w\<lparr>files := AList.delete name (files w), deleted := (deleted w)(name := True)\<rparr>)"
proof -
  have "total_space (AList.delete name (files w)) \<le> maxFilesystemBytes"
    using total_space_delete [of name "files w"] assms(1) by (simp add: fs_ok_def)
  moreover have "\<forall>f \<in> fst ` set (AList.delete name (files w)). clean_name f \<and> f \<noteq> ''.''"
  proof
    fix f assume "f \<in> fst ` set (AList.delete name (files w))"
    then have "f \<in> fst ` set (files w)" by (rule subsetD [OF dom_delete_subset])
    with assms(1) show "clean_name f \<and> f \<noteq> ''.''" unfolding fs_ok_def by (metis (no_types))
  qed
  moreover have "distinct (map fst (AList.delete name (files w)))"
    using assms(1) by (intro distinct_delete) (simp add: fs_ok_def)
  ultimately show ?thesis using assms by (simp add: fs_ok_def)
qed

definition fs_inv :: "writeFS \<Rightarrow> bool" where
  "fs_inv w \<longleftrightarrow> fs_ok w \<and> embed_ok (base w)"

lemma fs_inv_write: "fs_inv w \<Longrightarrow> writeFS_WriteFile w name data app = Inr w' \<Longrightarrow> fs_inv w'"
  using write_ok [of w name data app w'] by (simp add: fs_inv_def)

lemma not_root:
  assumes "fs_inv w" "\<not> stat_is_dir (fs_Stat w name)"
  shows "name \<noteq> ''.''"
  using assms root_is_dir [of w] embed_root [of "base w"] by (auto simp: fs_inv_def)

lemma fs_inv_delete:
  assumes "fs_inv w" "name \<noteq> ''.''"
  shows "fs_inv (w\<lparr>files := AList.delete name (files w), deleted := (deleted w)(name := True)\<rparr>)"
  using assms delete_ok [of w name] by (simp add: fs_inv_def)

lemma fs_inv_remove:
  assumes "fs_inv w" "writeFS_Remove w name = Inr w'"
  shows "fs_inv w'"
proof -
  from assms(2) have "\<not> stat_is_dir (fs_Stat w (fsName name))"
    "w' = w\<lparr>files := AList.delete (fsName name) (files w), deleted := (deleted w)(fsName name := True)\<rparr>"
    by (auto simp: writeFS_Remove_def stat_is_dir_def Let_def split: sum.splits if_splits)
  with fs_inv_delete [OF assms(1)] not_root [OF assms(1)] show ?thesis by blast
qed

lemma fs_inv_mkdir: "fs_inv w \<Longrightarrow> writeFS_Mkdir w name = Inr w' \<Longrightarrow> fs_inv w'"
  by (auto simp: fs_inv_def fs_ok_def writeFS_Mkdir_def Let_def split: sum.splits if_splits)

lemma fs_inv_rmdir: "fs_inv w \<Longrightarrow> writeFS_Rmdir w name = Inr w' \<Longrightarrow> fs_inv w'"
  by (auto simp: fs_inv_def fs_ok_def writeFS_Rmdir_def Let_def distinct_removeAll
      split: sum.splits if_splits)

text \<open>The root cannot be read as a file, so it cannot be renamed away.\<close>

lemma root_unreadable:
  assumes "fs_inv w" "fs_ReadFile w (fsName old) = Inr d"
  shows "fsName old \<noteq> ''.''"
proof
  assume n: "fsName old = ''.''"
  have "fsName ''.'' = ''.''" using n by (metis fsName_idem)
  moreover have "''.'' \<notin> set (dirs w)" "map_of (files w) ''.'' = None" "\<not> deleted w ''.''" "map_of (base w) ''.'' = None"
    using assms(1) embed_root [of "base w"] by (auto simp: fs_inv_def fs_ok_def map_of_eq_None_iff)
  ultimately show False
    using assms(2) n by (simp add: fs_ReadFile_def writeFS_Open_def base_Open_def ValidPath_def embed_is_dir_def)
qed

lemma fs_inv_rename:
  assumes "fs_inv w" "writeFS_Rename w old new = Inr w'"
  shows "fs_inv w'"
proof -
  from assms(2) obtain n d w1 where "fs_ReadFile w (fsName old) = Inr d" "writeFS_WriteFile w n d False = Inr w1"
    "w' = w1\<lparr>files := AList.delete (fsName old) (files w1), deleted := (deleted w1)(fsName old := True)\<rparr>"
    by (auto simp: writeFS_Rename_def Let_def split: sum.splits if_splits)
  with fs_inv_delete [OF fs_inv_write [OF assms(1)]] root_unreadable [OF assms(1)] show ?thesis by blast
qed

lemma fs_inv_touch: "fs_inv w \<Longrightarrow> writeFS_Touch w name = Inr w' \<Longrightarrow> fs_inv w'"
  by (auto simp: writeFS_Touch_def Let_def fs_inv_write split: sum.splits if_splits)

lemma fs_inv_new: "embed_ok b \<Longrightarrow> fs_inv (newWriteFS b)"
  by (simp add: fs_inv_def fs_ok_def newWriteFS_def total_space_def)

lemmas fs_inv_ops = fs_inv_write fs_inv_remove fs_inv_mkdir fs_inv_rmdir fs_inv_rename fs_inv_touch

section \<open>Sequences of operations\<close>

datatype fs_op =
    OpWrite string string bool
  | OpRemove string
  | OpMkdir string
  | OpRmdir string
  | OpRename string string
  | OpTouch string

fun fs_apply :: "writeFS \<Rightarrow> fs_op \<Rightarrow> writeFS result" where
  "fs_apply w (OpWrite n d a) = writeFS_WriteFile w n d a"
| "fs_apply w (OpRemove n) = writeFS_Remove w n"
| "fs_apply w (OpMkdir n) = writeFS_Mkdir w n"
| "fs_apply w (OpRmdir n) = writeFS_Rmdir w n"
| "fs_apply w (OpRename n m) = writeFS_Rename w n m"
| "fs_apply w (OpTouch n) = writeFS_Touch w n"

inductive fs_step :: "writeFS \<Rightarrow> fs_op \<Rightarrow> writeFS \<Rightarrow> bool" where
  succeeds: "fs_apply w op = Inr w' \<Longrightarrow> fs_step w op w'"
| fails: "fs_apply w op = Inl err \<Longrightarrow> fs_step w op w"

inductive_simps fs_step_simps: "fs_step w op w'"

lemma fs_inv_step: "fs_inv w \<Longrightarrow> fs_step w op w' \<Longrightarrow> fs_inv w'"
  by (erule fs_step.cases; cases op) (auto intro: fs_inv_ops)

interpretation overlay: invariant_of "\<lambda>w. embed_ok (base w) \<and> w = newWriteFS (base w)" fs_step fs_inv
proof unfold_locales
  fix w assume "embed_ok (base w) \<and> w = newWriteFS (base w)"
  then show "fs_inv w" using fs_inv_new [of "base w"] by metis
qed (rule fs_inv_step)

section \<open>The view of the overlay\<close>

text \<open>What a client can see under a name: nothing, a file with its contents, or a directory.\<close>

datatype node = AFile string | ADir

definition view :: "writeFS \<Rightarrow> string \<Rightarrow> node option" where
  "view w name =
     (if deleted w name then None
      else if name \<in> set (dirs w) then Some ADir
      else
        (case map_of (files w) name of
           Some data \<Rightarrow> Some (AFile data)
         | None \<Rightarrow>
             if \<not> ValidPath name then None
             else
               (case map_of (base w) name of
                  Some data \<Rightarrow> Some (AFile data)
                | None \<Rightarrow> if embed_is_dir (base w) name then Some ADir else None)))"

lemma view_cong:
  "base w' = base w \<Longrightarrow> deleted w' x = deleted w x \<Longrightarrow> x \<in> set (dirs w') \<longleftrightarrow> x \<in> set (dirs w) \<Longrightarrow>
   map_of (files w') x = map_of (files w) x \<Longrightarrow> view w' x = view w x"
  by (simp add: view_def split: option.splits)

lemma view_overlay_file: "\<not> deleted w x \<Longrightarrow> x \<notin> set (dirs w) \<Longrightarrow> map_of (files w) x = Some d \<Longrightarrow> view w x = Some (AFile d)"
  by (simp add: view_def)

lemma view_deleted: "deleted w x \<Longrightarrow> view w x = None"
  by (simp add: view_def)

lemma view_overlay_dir: "\<not> deleted w x \<Longrightarrow> x \<in> set (dirs w) \<Longrightarrow> view w x = Some ADir"
  by (simp add: view_def)

lemma ReadDir_total: "fsName name \<in> set (dirs w) \<Longrightarrow> \<exists>es. writeFS_ReadDir w name = Inr es"
  by (auto simp: writeFS_ReadDir_def Let_def split: sum.splits)

lemma Open_view:
  "view w (fsName name) =
   (case writeFS_Open w name of
      Inl _ \<Rightarrow> None
    | Inr f \<Rightarrow> Some (if fi_dir (file_Stat f) then ADir else AFile (case file_ReadAll f of Inr d \<Rightarrow> d | Inl _ \<Rightarrow> [])))"
  using ReadDir_total [of "fsName name" w]
  by (auto simp: view_def writeFS_Open_def base_Open_def Let_def split: option.splits sum.splits)

lemma Stat_view: "stat_is_dir (fs_Stat w name) \<longleftrightarrow> view w (fsName name) = Some ADir"
  by (auto simp: Open_view stat_is_dir_def fs_Stat_def split: sum.splits)

lemma Stat_exists: "(\<exists>i. fs_Stat w name = Inr i) \<longleftrightarrow> view w (fsName name) \<noteq> None"
  by (auto simp: Open_view fs_Stat_def split: sum.splits)

lemma ReadFile_view:
  "fsName name \<notin> set (dirs w) \<Longrightarrow> fs_ReadFile w name = Inr d \<longleftrightarrow> view w (fsName name) = Some (AFile d)"
  by (auto simp: view_def fs_ReadFile_def writeFS_Open_def base_Open_def Let_def split: option.splits sum.splits)

lemma ReadFile_file: "view w (fsName name) = Some (AFile d) \<Longrightarrow> fs_ReadFile w name = Inr d"
  by (rule ReadFile_view [THEN iffD2]) (auto simp: view_def split: if_splits)

section \<open>The operations on the view\<close>

definition ok :: "'a result \<Rightarrow> 'a option" where
  "ok r = (case r of Inl _ \<Rightarrow> None | Inr x \<Rightarrow> Some x)"

text \<open>
  The specification: a file can be written below an existing directory where there is no
  directory, a directory made where there is nothing; a file or an empty directory can be removed.
\<close>

definition spec_write :: "(string \<Rightarrow> node option) \<Rightarrow> string \<Rightarrow> string \<Rightarrow> (string \<Rightarrow> node option) option" where
  "spec_write v n d =
     (if v (path_Dir n) = Some ADir \<and> v n \<noteq> Some ADir then Some (v(n \<mapsto> AFile d)) else None)"

definition spec_remove :: "(string \<Rightarrow> node option) \<Rightarrow> string \<Rightarrow> (string \<Rightarrow> node option) option" where
  "spec_remove v n = (case v n of Some (AFile d) \<Rightarrow> Some (v(n := None)) | _ \<Rightarrow> None)"

definition spec_mkdir :: "(string \<Rightarrow> node option) \<Rightarrow> string \<Rightarrow> (string \<Rightarrow> node option) option" where
  "spec_mkdir v n = (if v n = None \<and> v (path_Dir n) = Some ADir then Some (v(n \<mapsto> ADir)) else None)"

text \<open>A directory mark under a deletion mark, which only renaming a directory leaves behind.\<close>

definition ghost :: "writeFS \<Rightarrow> string \<Rightarrow> bool" where
  "ghost w n \<longleftrightarrow> n \<in> set (dirs w) \<and> deleted w n"

lemma dir_of_fsName: "\<exists>ws. good_comps ws \<and> path_Dir (fsName name) = rel_name ws"
proof -
  obtain ws where ws: "good_comps ws" "fsName name = rel_name ws"
    using clean_nameE [OF clean_name_fsName] by metis
  show ?thesis
  proof (cases ws rule: rev_cases)
    case Nil
    then show ?thesis using ws path_Dir_dot by (intro exI [of _ "[]"]) (simp add: rel_name_def)
  next
    case (snoc us u)
    then show ?thesis using ws path_Dir_rel_name [of us u] by (intro exI [of _ us]) simp
  qed
qed

lemma fsName_dir [simp]: "fsName (path_Dir (fsName name)) = path_Dir (fsName name)"
  using dir_of_fsName [of name] fsName_clean by metis

lemma fsName_dot [simp]: "fsName ''.'' = ''.''"
  using fsName_clean [of "[]"] by (simp add: rel_name_def)

lemma root_view: "fs_inv w \<Longrightarrow> view w ''.'' = Some ADir"
  using root_is_dir [of w] embed_root [of "base w"] Stat_view [of w "''.''"] by (simp add: fs_inv_def)

lemma write_refines:
  assumes "fs_inv w" "\<not> ghost w (fsName name)" "checkSpace w (fsName name) data = None"
  shows "map_option view (ok (writeFS_WriteFile w name data False)) = spec_write (view w) (fsName name) data"
proof -
  let ?n = "fsName name" and ?dir = "path_Dir (fsName name)"
  have upd: "view (w\<lparr>deleted := (deleted w)(?n := False), files := AList.update ?n data (files w)\<rparr>) = (view w)(?n \<mapsto> AFile data)"
    if "view w ?n \<noteq> Some ADir"
  proof
    have "?n \<notin> set (dirs w)" using that assms(2) view_overlay_dir [of w ?n] by (auto simp: ghost_def)
    then show "view (w\<lparr>deleted := (deleted w)(?n := False), files := AList.update ?n data (files w)\<rparr>) x =
        ((view w)(?n \<mapsto> AFile data)) x" for x
      by (cases "x = ?n") (auto simp: update_conv' intro!: view_overlay_file view_cong)
  qed
  have root: "?dir = ''.'' \<Longrightarrow> view w ?dir = Some ADir" using root_view [OF assms(1)] by simp
  have del: "view w ?dir = Some ADir \<Longrightarrow> \<not> deleted w ?dir" by (auto simp: view_def)
  show ?thesis
    using upd root del assms(3)
    by (auto simp: writeFS_WriteFile_def spec_write_def ok_def Stat_view Let_def split: if_splits)
qed

lemma delete_view:
  "view (w\<lparr>files := AList.delete n (files w), deleted := (deleted w)(n := True)\<rparr>) = (view w)(n := None)"
  by (rule ext) (auto simp: delete_conv' intro!: view_deleted view_cong)

lemma remove_refines: "map_option view (ok (writeFS_Remove w name)) = spec_remove (view w) (fsName name)"
proof -
  let ?n = "fsName name"
  note upd = delete_view [of w ?n]
  show ?thesis
  proof (cases "fs_Stat w ?n")
    case (Inl e)
    then have "view w ?n = None" using Stat_exists [of w ?n] by auto
    with Inl show ?thesis by (simp add: writeFS_Remove_def spec_remove_def ok_def)
  next
    case (Inr i)
    then have "fi_dir i \<longleftrightarrow> view w ?n = Some ADir" "view w ?n \<noteq> None"
      using Stat_view [of w ?n] Stat_exists [of w ?n] by (auto simp: stat_is_dir_def)
    with Inr upd show ?thesis
      by (auto simp: writeFS_Remove_def spec_remove_def ok_def Let_def split: node.splits)
  qed
qed

lemma mkdir_refines:
  assumes "fs_inv w"
  shows "map_option view (ok (writeFS_Mkdir w name)) = spec_mkdir (view w) (fsName name)"
proof -
  let ?n = "fsName name"
  have upd: "view (w\<lparr>deleted := (deleted w)(?n := False), dirs := List.insert ?n (dirs w)\<rparr>) = (view w)(?n \<mapsto> ADir)"
    by (rule ext) (auto intro!: view_overlay_dir view_cong)
  have "(\<exists>i. fs_Stat w ?n = Inr i) \<longleftrightarrow> view w ?n \<noteq> None" using Stat_exists [of w ?n] by simp
  with upd root_view [OF assms] show ?thesis
    by (auto simp: writeFS_Mkdir_def spec_mkdir_def ok_def Stat_view Let_def split: sum.splits)
qed

section \<open>Files as a store\<close>

text \<open>
  The interface the commands of the shell rely on: states with an invariant, names up to a normal
  form, and a lookup that a write or a removal changes at one name. What a write leaves there,
  \<open>node_of\<close>, may depend on the state.
\<close>

locale file_store =
  fixes good :: "'s \<Rightarrow> bool"
    and put :: "'s \<Rightarrow> 'n \<Rightarrow> 'd \<Rightarrow> 's option"
    and del :: "'s \<Rightarrow> 'n \<Rightarrow> 's option"
    and look :: "'s \<Rightarrow> 'n \<Rightarrow> 'x option"
    and node_of :: "'s \<Rightarrow> 'n \<Rightarrow> 'd \<Rightarrow> 'x"
    and key :: "'n \<Rightarrow> 'n"
  assumes put_look: "good s \<Longrightarrow> put s n d = Some s' \<Longrightarrow> look s' = (look s)(key n \<mapsto> node_of s n d)"
    and put_good: "good s \<Longrightarrow> put s n d = Some s' \<Longrightarrow> good s'"
    and del_look: "del s n = Some s' \<Longrightarrow> look s' = (look s)(key n := None)"
    and del_good: "good s \<Longrightarrow> del s n = Some s' \<Longrightarrow> good s'"
begin

lemma look_written: "good s \<Longrightarrow> put s n d = Some s' \<Longrightarrow> look s' (key n) = Some (node_of s n d)"
  by (simp add: put_look)

lemma look_other: "good s \<Longrightarrow> put s n d = Some s' \<Longrightarrow> m \<noteq> key n \<Longrightarrow> look s' m = look s m"
  by (simp add: put_look)

lemma copied:
  assumes "good s" "put s m d = Some s'" "look s (key n) = Some x" "key n = key m \<Longrightarrow> node_of s m d = x"
  shows "look s' (key m) = Some (node_of s m d) \<and> look s' (key n) = Some x"
  using assms by (simp add: put_look)

lemma moved:
  assumes "good s" "put s m d = Some s'" "del s' n = Some s''" "key n \<noteq> key m"
  shows "look s'' (key m) = Some (node_of s m d) \<and> look s'' (key n) = None"
  using assms by (simp add: put_look del_look)

end

lemma ok_Some [simp]: "ok r = Some x \<longleftrightarrow> r = Inr x"
  by (cases r) (simp_all add: ok_def)

lemma WriteFile_space:
  "writeFS_WriteFile w name data False = Inr w' \<Longrightarrow> checkSpace w (fsName name) data = None"
  by (auto simp: writeFS_WriteFile_def Let_def split: if_splits option.splits)

text \<open>
  What a write leaves under its name: the file, or, under the mark of a renamed directory, that
  directory, which the write brings back.
\<close>

definition written_node :: "writeFS \<Rightarrow> string \<Rightarrow> string \<Rightarrow> node" where
  "written_node w name data = (if ghost w (fsName name) then ADir else AFile data)"

lemma write_view:
  assumes "fs_inv w" "writeFS_WriteFile w name data False = Inr w'"
  shows "view w' = (view w)(fsName name \<mapsto> written_node w name data)"
proof -
  let ?n = "fsName name"
  have w': "w' = w\<lparr>deleted := (deleted w)(?n := False), files := AList.update ?n data (files w)\<rparr>"
    and "\<not> stat_is_dir (fs_Stat w ?n)"
    using assms(2) by (auto simp: writeFS_WriteFile_def Let_def split: if_splits option.splits)
  then have "?n \<in> set (dirs w) \<longleftrightarrow> ghost w ?n"
    using view_overlay_dir [of w ?n] by (auto simp: ghost_def Stat_view)
  then show ?thesis
    unfolding w' written_node_def
    by (intro ext) (auto simp: update_conv' intro!: view_overlay_file view_overlay_dir view_cong)
qed

lemma remove_view: "writeFS_Remove w name = Inr w' \<Longrightarrow> view w' = (view w)(fsName name := None)"
  using remove_refines [of w name] by (auto simp: ok_def spec_remove_def split: option.splits node.splits)

interpretation store: file_store fs_inv "\<lambda>w n d. ok (writeFS_WriteFile w n d False)"
    "\<lambda>w n. ok (writeFS_Remove w n)" view written_node fsName
  by unfold_locales (auto simp: write_view remove_view intro: fs_inv_write fs_inv_remove)

text \<open>Reading what a write has left: a directory of the overlay reads as nothing.\<close>

definition node_text :: "node \<Rightarrow> string" where
  "node_text x = (case x of AFile data \<Rightarrow> data | ADir \<Rightarrow> [])"

lemma ReadFile_written:
  assumes "fs_inv w" "writeFS_WriteFile w name data False = Inr w'" "fsName m = fsName name"
  shows "fs_ReadFile w' m = Inr (node_text (written_node w name data))"
proof (cases "ghost w (fsName name)")
  case True
  then have "fsName m \<in> set (dirs w')" "\<not> deleted w' (fsName m)"
    using assms(2,3) by (auto simp: ghost_def writeFS_WriteFile_def Let_def split: if_splits option.splits)
  with True ReadDir_total [of "fsName m" w'] show ?thesis
    by (auto simp: fs_ReadFile_def writeFS_Open_def Let_def written_node_def node_text_def split: sum.splits)
next
  case False
  then have "view w' (fsName m) = Some (AFile data)"
    using write_view [OF assms(1,2)] assms(3) by (simp add: written_node_def)
  with False show ?thesis using ReadFile_file [of w' m data] by (simp add: written_node_def node_text_def)
qed

section \<open>Listing\<close>

lemma entries_of_names: "map de_name (entries_of seen) = sort_Strings (remdups (map fst seen))"
  if "\<forall>(n, e) \<in> set seen. de_name e = n"
proof -
  have "de_name (case map_of seen n of Some e \<Rightarrow> e | None \<Rightarrow> \<lparr>de_name = n, de_size = 0, de_dir = False\<rparr>) = n" for n
    using that by (auto split: option.splits dest!: map_of_SomeD)
  then show ?thesis by (simp add: entries_of_def comp_def)
qed

lemma embed_child_names: "\<forall>(n, e) \<in> set (concat (map (embed_child name) b)). de_name e = n"
  by (auto simp: embed_child_def Let_def split: if_splits)

lemma next_comp: "strict_prefix ws fs \<and> hd (drop (length ws) fs) = c \<longleftrightarrow> prefix (ws @ [c]) fs"
proof
  assume a: "strict_prefix ws fs \<and> hd (drop (length ws) fs) = c"
  then obtain r where "fs = ws @ r" "r \<noteq> []" by (auto simp: strict_prefix_def prefix_def)
  with a show "prefix (ws @ [c]) fs" by (cases r) auto
next
  assume "prefix (ws @ [c]) fs"
  then show "strict_prefix ws fs \<and> hd (drop (length ws) fs) = c" by (auto simp: prefix_def strict_prefix_def)
qed

lemma embed_okD:
  assumes "embed_ok b" "f \<in> fst ` set b"
  shows "clean_name f" "f \<noteq> ''.''" "prefix ws (comps f) \<Longrightarrow> ValidString (rel_name ws)"
    "g \<in> fst ` set b \<Longrightarrow> \<not> strict_prefix (comps f) (comps g)"
  using assms unfolding embed_ok_def by metis+

text \<open>The embedded directory of components \<open>ws\<close> lists exactly the next components of files below it.\<close>

lemma embed_children:
  assumes "embed_ok b" "good_comps ws"
  shows "c \<in> fst ` set (concat (map (embed_child (rel_name ws)) b)) \<longleftrightarrow>
    (\<exists>f \<in> fst ` set b. prefix (ws @ [c]) (comps f))"
proof -
  have "c \<in> fst ` set (embed_child (rel_name ws) p) \<longleftrightarrow> prefix (ws @ [c]) (comps (fst p))" for p
    unfolding embed_child_def comps_rel_name [OF assms(2)] split_beta
    using next_comp [of ws "comps (fst p)" c] by (simp add: Let_def) blast
  then show ?thesis by (simp add: image_UN)
qed

lemma good_prefix:
  assumes "embed_ok b" "f \<in> fst ` set b" "prefix ws (comps f)"
  shows "good_comps ws \<and> ValidPath (rel_name ws)"
proof -
  obtain vs where vs: "good_comps vs" "f = rel_name vs"
    using clean_nameE [OF embed_okD(1) [OF assms(1,2)]] by metis
  then have g: "good_comps ws" using assms(3) by (auto simp: comps_rel_name prefix_def)
  moreover have "ValidString (rel_name ws)" by (rule embed_okD(3) [OF assms])
  moreover have "rel_name ws = ''.'' \<or> list_all good_comp (Split (rel_name ws) slash)"
    using g Split_good [of ws] by (cases "ws = []") (auto simp: rel_name_def list_all_iff)
  ultimately show ?thesis by (simp add: ValidPath_def)
qed

lemma base_view:
  assumes "embed_ok b" "good_comps ws" "ws \<noteq> []"
  shows "(ValidPath (rel_name ws) \<and> (map_of b (rel_name ws) \<noteq> None \<or> embed_is_dir b (rel_name ws))) \<longleftrightarrow>
    (\<exists>f \<in> fst ` set b. prefix ws (comps f))"
proof -
  have nd: "rel_name ws \<noteq> ''.''" using assms(2,3) rel_name_inj [of ws "[]"] by (simp add: rel_name_def)
  have eq: "f = rel_name ws \<longleftrightarrow> comps f = ws" if mem: "f \<in> fst ` set b" for f
  proof -
    obtain vs where "good_comps vs" "f = rel_name vs"
      using clean_nameE [OF embed_okD(1) [OF assms(1) mem]] by metis
    then show ?thesis using assms(2) rel_name_inj [of vs ws] by (simp add: comps_rel_name)
  qed
  have "map_of b (rel_name ws) \<noteq> None \<longleftrightarrow> (\<exists>f \<in> fst ` set b. comps f = ws)"
    using eq by (metis map_of_eq_None_iff)
  moreover have "embed_is_dir b (rel_name ws) \<longleftrightarrow> (\<exists>f \<in> fst ` set b. strict_prefix ws (comps f))"
    using nd by (auto simp: embed_is_dir_def list_ex_iff comps_rel_name [OF assms(2)] Bex_def)
  ultimately show ?thesis using good_prefix [OF assms(1)] by (auto simp: strict_prefix_def)
qed

text \<open>An overlay name below a directory is the directory's name and one more component.\<close>

lemma child_name:
  assumes "clean_name d" "d \<noteq> ''.''" "good_comps ws" "good_comp c"
  shows "path_Dir d = rel_name ws \<and> path_Base d = c \<longleftrightarrow> d = rel_name (ws @ [c])"
proof -
  obtain vs where vs: "good_comps vs" "d = rel_name vs" using clean_nameE [OF assms(1)] by metis
  with assms(2) obtain us u where "vs = us @ [u]" by (cases vs rule: rev_cases) (auto simp: rel_name_def)
  with vs assms(3,4) show ?thesis
    using rel_name_inj [of us ws] rel_name_inj [of "us @ [u]" "ws @ [c]"] by (auto simp: path_simps)
qed

lemma child_comp:
  assumes "clean_name d" "d \<noteq> ''.''"
  shows "good_comp (path_Base d)"
proof -
  obtain vs where vs: "good_comps vs" "d = rel_name vs" using clean_nameE [OF assms(1)] by metis
  with assms(2) obtain us u where "vs = us @ [u]" by (cases vs rule: rev_cases) (auto simp: rel_name_def)
  with vs show ?thesis by (simp add: path_simps)
qed

lemma base_entries:
  assumes "embed_ok (base w)" "good_comps ws" "good_comp c"
  shows "(\<exists>es. base_ReadDir (base w) (rel_name ws) = Inr es \<and> c \<in> de_name ` set es) \<longleftrightarrow>
    (\<exists>f \<in> fst ` set (base w). prefix (ws @ [c]) (comps f))"
proof -
  let ?b = "base w" and ?n = "rel_name ws"
  have names: "de_name ` set (entries_of (concat (map (embed_child ?n) ?b))) = fst ` set (concat (map (embed_child ?n) ?b))"
    using arg_cong [OF entries_of_names [OF embed_child_names [of ?n ?b]], of set] by simp
  have dir: "\<exists>es. base_ReadDir ?b ?n = Inr es" if f: "f \<in> fst ` set ?b" "prefix (ws @ [c]) (comps f)" for f
  proof -
    have s: "strict_prefix ws (comps f)" using f(2) next_comp [of ws "comps f" c] by simp
    then have "ValidPath ?n" using good_prefix [OF assms(1) f(1), of ws] by (simp add: strict_prefix_def)
    moreover have "map_of ?b ?n = None"
    proof (rule ccontr)
      assume "map_of ?b ?n \<noteq> None"
      then have "?n \<in> fst ` set ?b" by (simp add: map_of_eq_None_iff)
      from embed_okD(4) [OF assms(1) this f(1)] s show False by (simp add: comps_rel_name [OF assms(2)])
    qed
    moreover have "embed_is_dir ?b ?n"
      using f(1) s by (auto simp: embed_is_dir_def list_ex_iff comps_rel_name [OF assms(2)] Bex_def)
    ultimately show ?thesis by (simp add: base_ReadDir_def)
  qed
  have es: "es = entries_of (concat (map (embed_child ?n) ?b))" if "base_ReadDir ?b ?n = Inr es" for es
    using that by (auto simp: base_ReadDir_def split: if_splits)
  have c: "c \<in> de_name ` set es \<longleftrightarrow> (\<exists>f \<in> fst ` set ?b. prefix (ws @ [c]) (comps f))" if "base_ReadDir ?b ?n = Inr es" for es
    unfolding es [OF that] names by (rule embed_children [OF assms(1,2)])
  show ?thesis
  proof
    assume "\<exists>es. base_ReadDir ?b ?n = Inr es \<and> c \<in> de_name ` set es"
    then obtain es where "base_ReadDir ?b ?n = Inr es" "c \<in> de_name ` set es" by blast
    with c [of es] show "\<exists>f \<in> fst ` set ?b. prefix (ws @ [c]) (comps f)" by simp
  next
    assume r: "\<exists>f \<in> fst ` set ?b. prefix (ws @ [c]) (comps f)"
    then obtain es where "base_ReadDir ?b ?n = Inr es" using dir by blast
    with c [of es] r show "\<exists>es. base_ReadDir ?b ?n = Inr es \<and> c \<in> de_name ` set es" by simp
  qed
qed

lemma ReadDir_entries:
  assumes "writeFS_ReadDir w name = Inr es"
  shows "\<exists>bes. es = entries_of (ReadDir_seen w (fsName name) bes) \<and>
    (\<forall>c. c \<in> de_name ` set bes \<longleftrightarrow> (\<exists>es0. base_ReadDir (base w) (fsName name) = Inr es0 \<and> c \<in> de_name ` set es0))"
  using assms by (fastforce simp: writeFS_ReadDir_def Let_def split: sum.splits if_splits)

lemma seen_names: "\<forall>(n, e) \<in> set (ReadDir_seen w name bes). de_name e = n"
  by (auto simp: ReadDir_seen_def dir_entry_def file_entry_def)

lemma view_child:
  assumes "fs_inv w" "good_comps ws" "good_comp c"
  shows "view w (rel_name (ws @ [c])) \<noteq> None \<longleftrightarrow> \<not> deleted w (rel_name (ws @ [c])) \<and>
    (rel_name (ws @ [c]) \<in> set (dirs w) \<or> rel_name (ws @ [c]) \<in> fst ` set (files w) \<or>
     (\<exists>f \<in> fst ` set (base w). prefix (ws @ [c]) (comps f)))"
proof -
  have "(\<exists>f \<in> fst ` set (base w). prefix (ws @ [c]) (comps f)) \<longleftrightarrow>
      ValidPath (rel_name (ws @ [c])) \<and>
      (map_of (base w) (rel_name (ws @ [c])) \<noteq> None \<or> embed_is_dir (base w) (rel_name (ws @ [c])))"
    using base_view [of "base w" "ws @ [c]"] assms by (auto simp: fs_inv_def)
  moreover have "rel_name (ws @ [c]) \<in> fst ` set (files w) \<longleftrightarrow> map_of (files w) (rel_name (ws @ [c])) \<noteq> None"
    by (simp add: map_of_eq_None_iff)
  ultimately show ?thesis by (simp add: view_def split: option.splits)
qed

lemma seen_child:
  assumes "fs_inv w" "good_comps ws" "good_comp c"
    and "\<And>c. c \<in> de_name ` set bes \<longleftrightarrow> (\<exists>es. base_ReadDir (base w) (rel_name ws) = Inr es \<and> c \<in> de_name ` set es)"
  shows "c \<in> fst ` set (ReadDir_seen w (rel_name ws) bes) \<longleftrightarrow> view w (rel_name (ws @ [c])) \<noteq> None"
proof -
  let ?n = "rel_name ws" and ?x = "rel_name (ws @ [c])"
  have clean: "clean_name d" "d \<noteq> ''.''" if "d \<in> set (dirs w) \<or> d \<in> fst ` set (files w)" for d
    using that assms(1) unfolding fs_inv_def fs_ok_def by metis+
  have ne: "?x \<noteq> ?n" using assms(2,3) rel_name_inj [of "ws @ [c]" ws] by auto
  have ds: "c \<in> fst ` set (map dir_entry (filter (\<lambda>d. d \<noteq> ?n \<and> path_Dir d = ?n \<and> \<not> deleted w d) (dirs w)))
      \<longleftrightarrow> ?x \<in> set (dirs w) \<and> \<not> deleted w ?x" (is "?l \<longleftrightarrow> _")
  proof -
    have k: "path_Dir d = ?n \<and> path_Base d = c \<longleftrightarrow> d = ?x" if "d \<in> set (dirs w)" for d
      using clean [of d] that child_name [OF _ _ assms(2,3), of d] by simp
    have "?l \<longleftrightarrow> (\<exists>d \<in> set (dirs w). d \<noteq> ?n \<and> path_Dir d = ?n \<and> \<not> deleted w d \<and> path_Base d = c)"
      by (force simp: dir_entry_def)
    also have "\<dots> \<longleftrightarrow> ?x \<in> set (dirs w) \<and> \<not> deleted w ?x" using k ne by metis
    finally show ?thesis .
  qed
  have fs: "c \<in> fst ` set (map file_entry (filter (\<lambda>(f, _). path_Dir f = ?n \<and> \<not> deleted w f) (files w)))
      \<longleftrightarrow> ?x \<in> fst ` set (files w) \<and> \<not> deleted w ?x" (is "?l \<longleftrightarrow> _")
  proof -
    have k: "path_Dir f = ?n \<and> path_Base f = c \<longleftrightarrow> f = ?x" if "f \<in> fst ` set (files w)" for f
      using clean [of f] that child_name [OF _ _ assms(2,3), of f] by simp
    have "?l \<longleftrightarrow> (\<exists>f \<in> fst ` set (files w). path_Dir f = ?n \<and> \<not> deleted w f \<and> path_Base f = c)"
      by (force simp: file_entry_def)
    also have "\<dots> \<longleftrightarrow> ?x \<in> fst ` set (files w) \<and> \<not> deleted w ?x" using k by metis
    finally show ?thesis .
  qed
  have bs: "c \<in> fst ` set (map (\<lambda>e. (de_name e, e)) (filter (\<lambda>e. \<not> deleted w (path_Join [?n, de_name e])) bes))
      \<longleftrightarrow> c \<in> de_name ` set bes \<and> \<not> deleted w ?x"
    using path_Join_rel_name [OF assms(2,3)] by (auto simp: image_iff)
  have "c \<in> de_name ` set bes \<longleftrightarrow> (\<exists>f \<in> fst ` set (base w). prefix (ws @ [c]) (comps f))"
    using assms(4) [of c] base_entries [OF _ assms(2,3), of w] assms(1) by (simp add: fs_inv_def)
  then show ?thesis
    unfolding ReadDir_seen_def set_append image_Un Un_iff ds fs bs view_child [OF assms(1-3)] by blast
qed

text \<open>A directory's entries have proper names, and they are what the view holds one level below.\<close>

lemma seen_good:
  assumes "fs_inv w" "good_comps ws" "c \<in> fst ` set (ReadDir_seen w (rel_name ws) bes)"
    and "\<And>c. c \<in> de_name ` set bes \<longleftrightarrow> (\<exists>es. base_ReadDir (base w) (rel_name ws) = Inr es \<and> c \<in> de_name ` set es)"
  shows "good_comp c"
proof -
  let ?b = "base w" and ?n = "rel_name ws"
  have "good_comp (path_Base d)" if "d \<in> set (dirs w) \<or> d \<in> fst ` set (files w)" for d
    using that assms(1) child_comp [of d] unfolding fs_inv_def fs_ok_def by metis
  moreover have "good_comp c" if "c \<in> de_name ` set bes"
  proof -
    from that assms(4) obtain es where es: "base_ReadDir ?b ?n = Inr es" "c \<in> de_name ` set es" by blast
    then have "es = entries_of (concat (map (embed_child ?n) ?b))"
      by (auto simp: base_ReadDir_def split: if_splits)
    with es(2) have "c \<in> fst ` set (concat (map (embed_child ?n) ?b))"
      using arg_cong [OF entries_of_names [OF embed_child_names [of ?n ?b]], of set] by simp
    then obtain f where "f \<in> fst ` set ?b" "prefix (ws @ [c]) (comps f)"
      using embed_children [of ?b ws c] assms(1,2) by (auto simp: fs_inv_def)
    then have "good_comps (ws @ [c])" using good_prefix [of ?b f "ws @ [c]"] assms(1) by (simp add: fs_inv_def)
    then show ?thesis by simp
  qed
  ultimately show ?thesis
    using assms(3) by (fastforce simp: ReadDir_seen_def dir_entry_def file_entry_def)
qed

lemma ReadDir_names:
  assumes "fs_inv w" "writeFS_ReadDir w name = Inr es"
  shows "sorted (map de_name es) \<and> distinct (map de_name es) \<and>
    de_name ` set es = {c. good_comp c \<and> view w (path_Join [fsName name, c]) \<noteq> None}"
proof -
  obtain ws where ws: "good_comps ws" "fsName name = rel_name ws"
    using clean_nameE [OF clean_name_fsName] by metis
  from ReadDir_entries [OF assms(2)] obtain bes where
    es: "es = entries_of (ReadDir_seen w (rel_name ws) bes)" and
    bes: "\<And>c. c \<in> de_name ` set bes \<longleftrightarrow> (\<exists>es0. base_ReadDir (base w) (rel_name ws) = Inr es0 \<and> c \<in> de_name ` set es0)"
    unfolding ws(2) by blast
  have names: "map de_name es = sort_Strings (remdups (map fst (ReadDir_seen w (rel_name ws) bes)))"
    unfolding es by (rule entries_of_names [OF seen_names])
  then have "de_name ` set es = fst ` set (ReadDir_seen w (rel_name ws) bes)"
    by (metis list.set_map set_remdups sort_Strings_set)
  moreover have "fst ` set (ReadDir_seen w (rel_name ws) bes) =
      {c. good_comp c \<and> view w (path_Join [fsName name, c]) \<noteq> None}"
    using seen_good [OF assms(1) ws(1) _ bes] seen_child [OF assms(1) ws(1) _ bes]
      path_Join_rel_name [OF ws(1)] ws(2) unfolding set_eq_iff mem_Collect_eq by metis
  ultimately show ?thesis
    using names by (simp add: sort_Strings_sorted) (simp add: sort_Strings_def)
qed

text \<open>Removing a directory, and the tree that the view is.\<close>

definition spec_rmdir :: "(string \<Rightarrow> node option) \<Rightarrow> string \<Rightarrow> (string \<Rightarrow> node option) option" where
  "spec_rmdir v n =
     (if n \<noteq> ''.'' \<and> v n = Some ADir \<and> \<not> (\<exists>c. good_comp c \<and> v (path_Join [n, c]) \<noteq> None)
      then Some (v(n := None)) else None)"

lemma rmdir_view: "view (w\<lparr>dirs := removeAll n (dirs w), deleted := (deleted w)(n := True)\<rparr>) = (view w)(n := None)"
  by (rule ext) (auto intro!: view_deleted view_cong)

lemma dir_lists: "view w (fsName name) = Some ADir \<Longrightarrow> \<exists>es. writeFS_ReadDir w name = Inr es"
  by (auto simp: view_def writeFS_ReadDir_def base_ReadDir_def Let_def split: if_splits option.splits sum.splits)

lemma rmdir_refines:
  assumes "fs_inv w"
  shows "map_option view (ok (writeFS_Rmdir w name)) = spec_rmdir (view w) (fsName name)"
proof (cases "fsName name \<noteq> ''.'' \<and> view w (fsName name) = Some ADir")
  case True
  then obtain es where es: "writeFS_ReadDir w (fsName name) = Inr es" using dir_lists [of w "fsName name"] by auto
  obtain i where i: "fs_Stat w (fsName name) = Inr i" "fi_dir i"
    using True Stat_view [of w "fsName name"] by (auto simp: stat_is_dir_def split: sum.splits)
  have "es = [] \<longleftrightarrow> \<not> (\<exists>c. good_comp c \<and> view w (path_Join [fsName name, c]) \<noteq> None)"
    using arg_cong [OF conjunct2 [OF conjunct2 [OF ReadDir_names [OF assms es]]], of "\<lambda>A. A = {}"]
    by simp
  with True es i show ?thesis by (simp add: writeFS_Rmdir_def spec_rmdir_def ok_def Let_def rmdir_view)
next
  case False
  with Stat_view [of w "fsName name"] show ?thesis
    by (auto simp: writeFS_Rmdir_def spec_rmdir_def ok_def stat_is_dir_def Let_def split: sum.splits)
qed

section \<open>The view is a tree\<close>

definition tree :: "(string \<Rightarrow> node option) \<Rightarrow> bool" where
  "tree v \<longleftrightarrow> (\<forall>ws c. good_comps ws \<and> good_comp c \<and> v (rel_name (ws @ [c])) \<noteq> None \<longrightarrow> v (rel_name ws) = Some ADir)"

lemma treeD: "tree v \<Longrightarrow> good_comps ws \<Longrightarrow> good_comp c \<Longrightarrow> v (rel_name (ws @ [c])) \<noteq> None \<Longrightarrow> v (rel_name ws) = Some ADir"
  unfolding tree_def by blast

lemma rel_name_extend: "good_comps ws \<Longrightarrow> good_comp c \<Longrightarrow> rel_name (ws @ [c]) \<noteq> rel_name ws"
  using rel_name_inj [of "ws @ [c]" ws] by auto

text \<open>Adding a node below a directory keeps the tree, unless it is a file in a directory's place;
  so does taking away a node with nothing below it.\<close>

lemma tree_add:
  assumes "tree v" "v (path_Dir n) = Some ADir" "v n \<noteq> Some ADir \<or> x = ADir"
  shows "tree (v(n \<mapsto> x))"
  unfolding tree_def
proof (intro allI impI)
  fix ws c assume a: "good_comps ws \<and> good_comp c \<and> (v(n \<mapsto> x)) (rel_name (ws @ [c])) \<noteq> None"
  have "v (rel_name ws) = Some ADir"
  proof (cases "rel_name (ws @ [c]) = n")
    case True
    then have "path_Dir n = rel_name ws" using a path_Dir_rel_name [of ws c] by auto
    with assms(2) show ?thesis by simp
  next
    case False
    with a show ?thesis using treeD [OF assms(1), of ws c] by auto
  qed
  then show "(v(n \<mapsto> x)) (rel_name ws) = Some ADir" using assms(3) by auto
qed

lemma tree_del:
  assumes "tree v" "\<And>ws c. good_comps ws \<Longrightarrow> good_comp c \<Longrightarrow> n = rel_name ws \<Longrightarrow> v (rel_name (ws @ [c])) = None"
  shows "tree (v(n := None))"
  unfolding tree_def
proof (intro allI impI)
  fix ws c assume "good_comps ws \<and> good_comp c \<and> (v(n := None)) (rel_name (ws @ [c])) \<noteq> None"
  then show "(v(n := None)) (rel_name ws) = Some ADir"
    using treeD [OF assms(1), of ws c] assms(2) [of ws c] by (auto split: if_splits)
qed

lemma tree_del_file: "tree v \<Longrightarrow> v n \<noteq> Some ADir \<Longrightarrow> tree (v(n := None))"
  using tree_del [of v n] treeD [of v] by blast

lemma tree_specs:
  "tree v \<Longrightarrow> spec_write v n d = Some v' \<Longrightarrow> tree v'"
  "tree v \<Longrightarrow> spec_remove v n = Some v' \<Longrightarrow> tree v'"
  "tree v \<Longrightarrow> spec_mkdir v n = Some v' \<Longrightarrow> tree v'"
  "tree v \<Longrightarrow> spec_rmdir v n = Some v' \<Longrightarrow> tree v'"
proof -
  show "tree v'" if "tree v" "spec_rmdir v n = Some v'"
  proof -
    from that(2) have v': "v' = v(n := None)" and empty: "\<And>c. good_comp c \<Longrightarrow> v (path_Join [n, c]) = None"
      by (auto simp: spec_rmdir_def split: if_splits)
    have "v (rel_name (ws @ [c])) = None" if "good_comps ws" "good_comp c" "n = rel_name ws" for ws c
      using empty [OF that(2)] path_Join_rel_name [OF that(1,2)] that(3) by simp
    with that(1) v' show ?thesis by (simp add: tree_del)
  qed
qed (auto simp: spec_write_def spec_remove_def spec_mkdir_def intro: tree_add tree_del_file
    split: if_splits option.splits node.splits)

text \<open>The embedded tree is one, and so is a fresh overlay.\<close>

lemma view_new: "view (newWriteFS b) n =
    (if \<not> ValidPath n then None
     else (case map_of b n of Some data \<Rightarrow> Some (AFile data) | None \<Rightarrow> if embed_is_dir b n then Some ADir else None))"
  by (simp add: view_def newWriteFS_def)

lemma tree_new:
  assumes "embed_ok b"
  shows "tree (view (newWriteFS b))"
  unfolding tree_def
proof (intro allI impI)
  fix ws c assume a: "good_comps ws \<and> good_comp c \<and> view (newWriteFS b) (rel_name (ws @ [c])) \<noteq> None"
  with view_child [OF fs_inv_new [OF assms], of ws c] obtain f where
    f: "f \<in> fst ` set b" "prefix (ws @ [c]) (comps f)" by (auto simp: newWriteFS_def)
  then have s: "strict_prefix ws (comps f)" using next_comp [of ws "comps f" c] by simp
  then have "ValidPath (rel_name ws)" using good_prefix [OF assms f(1), of ws] by (simp add: strict_prefix_def)
  moreover have "map_of b (rel_name ws) = None"
  proof (rule ccontr)
    assume "map_of b (rel_name ws) \<noteq> None"
    then have "rel_name ws \<in> fst ` set b" by (simp add: map_of_eq_None_iff)
    from embed_okD(4) [OF assms this f(1)] s a show False by (simp add: comps_rel_name)
  qed
  moreover have "embed_is_dir b (rel_name ws)"
    using f(1) s a by (auto simp: embed_is_dir_def list_ex_iff comps_rel_name Bex_def)
  ultimately show "view (newWriteFS b) (rel_name ws) = Some ADir" by (simp add: view_new)
qed

end
