(* ===== verification/FSTheorems.thy ===== *)
theory FSTheorems
  imports FSProperties
begin

text \<open>
  The properties of the writable file system: names never leave the root, the space limit and the
  shape of the overlay hold after any sequence of operations, the operations implement a map of
  names to nodes, and a directory lists exactly the names that can be opened in it. The witnesses
  use a part of the tree that the shell embeds.
\<close>

section \<open>Renaming files only\<close>

definition moves_files :: "writeFS \<Rightarrow> fs_op \<Rightarrow> bool" where
  "moves_files w op \<longleftrightarrow> (case op of OpRename old new \<Rightarrow> view w (fsName old) \<noteq> Some ADir | _ \<Rightarrow> True)"

definition fs_tree :: "writeFS \<Rightarrow> bool" where
  "fs_tree w \<longleftrightarrow> fs_inv w \<and> (\<forall>n. \<not> ghost w n) \<and> tree (view w)"

lemma fs_treeD: "fs_tree w \<Longrightarrow> fs_inv w" "fs_tree w \<Longrightarrow> \<not> ghost w n" "fs_tree w \<Longrightarrow> tree (view w)"
  by (simp_all add: fs_tree_def)

lemma append_as_write:
  "writeFS_WriteFile w name data app =
   writeFS_WriteFile w name (if app then append_base w (fsName name) @ data else data) False"
  by (simp add: writeFS_WriteFile_def Let_def)

lemma write_spec:
  assumes "fs_inv w" "\<not> ghost w (fsName name)" "writeFS_WriteFile w name data app = Inr w'"
  shows "\<exists>d. spec_write (view w) (fsName name) d = Some (view w')"
proof -
  obtain d where d: "writeFS_WriteFile w name d False = Inr w'" using assms(3) append_as_write [of w name data app] by metis
  from write_refines [OF assms(1,2) WriteFile_space [OF d]] d show ?thesis
    by (intro exI [of _ d]) (simp add: ok_def)
qed

lemma file_not_dir: "view w n = Some (AFile d) \<Longrightarrow> n \<notin> set (dirs w)"
  by (auto simp: view_def split: if_splits)

lemma fs_tree_write:
  assumes "fs_tree w" "writeFS_WriteFile w name data app = Inr w'"
  shows "fs_tree w'"
proof -
  have "ghost w' n \<Longrightarrow> ghost w n" for n
    using assms(2) by (auto simp: ghost_def writeFS_WriteFile_def Let_def split: if_splits option.splits)
  moreover obtain d where "spec_write (view w) (fsName name) d = Some (view w')"
    using write_spec [OF fs_treeD(1,2) [OF assms(1)] assms(2)] by blast
  ultimately show ?thesis
    using assms fs_inv_write tree_specs(1) unfolding fs_tree_def by blast
qed

lemma fs_tree_remove:
  assumes "fs_tree w" "writeFS_Remove w name = Inr w'"
  shows "fs_tree w'"
proof -
  have spec: "spec_remove (view w) (fsName name) = Some (view w')"
    using remove_refines [of w name] assms(2) by (simp add: ok_def)
  then obtain d where "view w (fsName name) = Some (AFile d)"
    by (auto simp: spec_remove_def split: option.splits node.splits)
  then have "fsName name \<notin> set (dirs w)" by (rule file_not_dir)
  then have "ghost w' n \<Longrightarrow> ghost w n" for n
    using assms(2) by (auto simp: ghost_def writeFS_Remove_def Let_def split: if_splits sum.splits)
  with spec show ?thesis using assms fs_inv_remove tree_specs(2) unfolding fs_tree_def by blast
qed

lemma fs_tree_mkdir:
  assumes "fs_tree w" "writeFS_Mkdir w name = Inr w'"
  shows "fs_tree w'"
proof -
  have "ghost w' n \<Longrightarrow> ghost w n" for n
    using assms(2) by (auto simp: ghost_def writeFS_Mkdir_def Let_def split: if_splits sum.splits)
  moreover have "spec_mkdir (view w) (fsName name) = Some (view w')"
    using mkdir_refines [OF fs_treeD(1) [OF assms(1)], of name] assms(2) by (simp add: ok_def)
  ultimately show ?thesis using assms fs_inv_mkdir tree_specs(3) unfolding fs_tree_def by blast
qed

lemma fs_tree_rmdir:
  assumes "fs_tree w" "writeFS_Rmdir w name = Inr w'"
  shows "fs_tree w'"
proof -
  have "ghost w' n \<Longrightarrow> ghost w n" for n
    using assms(2) by (auto simp: ghost_def writeFS_Rmdir_def Let_def split: if_splits sum.splits)
  moreover have "spec_rmdir (view w) (fsName name) = Some (view w')"
    using rmdir_refines [OF fs_treeD(1) [OF assms(1)], of name] assms(2) by (simp add: ok_def)
  ultimately show ?thesis using assms fs_inv_rmdir tree_specs(4) unfolding fs_tree_def by blast
qed

lemma fs_tree_touch: "fs_tree w \<Longrightarrow> writeFS_Touch w name = Inr w' \<Longrightarrow> fs_tree w'"
  by (auto simp: writeFS_Touch_def Let_def fs_tree_write split: sum.splits if_splits)

lemma fs_tree_delete:
  assumes "fs_tree w" "view w n \<noteq> Some ADir" "n \<noteq> ''.''"
  shows "fs_tree (w\<lparr>files := AList.delete n (files w), deleted := (deleted w)(n := True)\<rparr>)"
proof -
  have "n \<notin> set (dirs w)" using assms(1,2) view_overlay_dir [of w n] by (auto simp: fs_tree_def ghost_def)
  with assms show ?thesis
    using fs_inv_delete [of w n] tree_del_file [of "view w" n] by (auto simp: fs_tree_def ghost_def delete_view)
qed

lemma fs_tree_rename:
  assumes "fs_tree w" "view w (fsName old) \<noteq> Some ADir" "writeFS_Rename w old new = Inr w'"
  shows "fs_tree w'"
proof -
  from assms(3) obtain n d w1 where r: "fs_ReadFile w (fsName old) = Inr d" "writeFS_WriteFile w n d False = Inr w1"
    "w' = w1\<lparr>files := AList.delete (fsName old) (files w1), deleted := (deleted w1)(fsName old := True)\<rparr>"
    by (auto simp: writeFS_Rename_def Let_def split: sum.splits if_splits)
  have "view w1 (fsName old) \<noteq> Some ADir"
    using write_view [OF fs_treeD(1) [OF assms(1)] r(2)] assms(2) fs_treeD(2) [OF assms(1)]
    by (simp add: written_node_def)
  then show ?thesis
    unfolding r(3) using fs_tree_delete [OF fs_tree_write [OF assms(1) r(2)]]
      root_unreadable [OF fs_treeD(1) [OF assms(1)] r(1)] by blast
qed

lemmas fs_tree_ops = fs_tree_write fs_tree_remove fs_tree_mkdir fs_tree_rmdir fs_tree_touch

lemma fs_tree_step: "fs_tree w \<Longrightarrow> fs_step w op w' \<and> moves_files w op \<Longrightarrow> fs_tree w'"
  by (cases op) (auto simp: fs_step_simps moves_files_def intro: fs_tree_ops fs_tree_rename)

interpretation tree_fs: invariant_of "\<lambda>w. embed_ok (base w) \<and> w = newWriteFS (base w)"
    "\<lambda>w op w'. fs_step w op w' \<and> moves_files w op" fs_tree
proof unfold_locales
  fix w assume a: "embed_ok (base w) \<and> w = newWriteFS (base w)"
  have "\<not> ghost (newWriteFS (base w)) n" for n by (simp add: ghost_def newWriteFS_def)
  then show "fs_tree w"
    using a fs_inv_new [of "base w"] tree_new [of "base w"] unfolding fs_tree_def by metis
qed (rule fs_tree_step)

section \<open>A concrete tree\<close>

definition demo_tree :: embed where
  "demo_tree = [(''etc/hostname'', ''node-7''), (''home/guest/notes.txt'', ''todo'')]"

definition demo_fs :: writeFS where "demo_fs = newWriteFS demo_tree"

definition demo_written :: writeFS where
  "demo_written = the (ok (writeFS_WriteFile demo_fs ''/home/guest/new'' ''text'' False))"

definition demo_emptied :: writeFS where
  "demo_emptied = the (ok (writeFS_WriteFile demo_fs ''/etc/hostname'' [] False))"

lemma ok_the: "ok r \<noteq> None \<Longrightarrow> r = Inr (the (ok r))"
  by (cases r) (simp_all add: ok_def)

lemma okE: "ok r \<noteq> None \<Longrightarrow> (\<And>x. r = Inr x \<Longrightarrow> thesis) \<Longrightarrow> thesis"
  by (cases r) (simp_all add: ok_def)

lemma embed_ok_code:
  "embed_ok b \<longleftrightarrow> distinct (map fst b) \<and>
     list_all (\<lambda>(f, _). fsName f = f \<and> f \<noteq> ''.'' \<and> list_all (\<lambda>ws. ValidString (rel_name ws)) (prefixes (comps f)) \<and>
       list_all (\<lambda>(g, _). \<not> strict_prefix (comps f) (comps g)) b) b"
  by (fastforce simp: embed_ok_def clean_name_def list_all_iff)

lemma demo_embed: "embed_ok demo_tree"
  unfolding embed_ok_code demo_tree_def by code_simp

lemma demo_inv: "fs_inv demo_fs"
  unfolding demo_fs_def by (rule fs_inv_new [OF demo_embed])

lemma demo_write: "writeFS_WriteFile demo_fs ''/home/guest/new'' ''text'' False = Inr demo_written"
  unfolding demo_written_def by (rule ok_the) code_simp

lemma demo_empty: "writeFS_WriteFile demo_fs ''/etc/hostname'' [] False = Inr demo_emptied"
  unfolding demo_emptied_def by (rule ok_the) code_simp

lemma demo_no_ghost: "\<not> ghost demo_fs n"
  by (simp add: ghost_def demo_fs_def newWriteFS_def)

section \<open>Properties\<close>

text \<open>
  Names never leave the root. Whatever path a script uses, the file system works on \<open>"."\<close> or on
  a relative path whose components are proper names: none is empty, \<open>"."\<close> or \<open>".."\<close>, and cleaning a
  name again changes nothing.
\<close>

lemma fsName_confined:
  "fsName (fsName name) = fsName name \<and>
   (\<exists>ws. fsName name = rel_name ws \<and> comps (fsName name) = ws \<and> list_all good_comp ws)"
  using clean_elems_good [of name] comps_rel_name [OF clean_elems_good, of name]
  by (auto simp: fsName_rel_name list_all_iff path_simps)

text \<open>
  C22: the invariant of the overlay. After any sequence of operations, succeeding or failing, the
  files written take at most 64 KiB together, every name in the overlay is clean, no name is
  recorded twice, and the root is neither a file nor deleted.
\<close>

theorem overlay_invariant:
  assumes "embed_ok b" and "run fs_step (newWriteFS b) ops w"
  shows "sum_list (map (\<lambda>(f, content). length content) (files w)) \<le> 65536 \<and>
    distinct (map fst (files w)) \<and> distinct (dirs w) \<and> \<not> deleted w ''.'' \<and>
    (\<forall>n \<in> fst ` set (files w) \<union> set (dirs w). fsName n = n \<and> n \<noteq> ''.'')"
proof -
  have "base (newWriteFS b) = b" by (simp add: newWriteFS_def)
  then have "fs_inv w" using overlay.run_good [OF _ assms(2)] assms(1) by simp
  then show ?thesis
    by (auto simp: fs_inv_def fs_ok_def clean_name_def total_space_def maxFilesystemBytes_def)
qed

theorem overlay_invariant_witness:
  "run fs_step (newWriteFS demo_tree) [OpWrite ''/home/guest/new'' ''text'' False] demo_written \<and>
   sum_list (map (\<lambda>(f, content). length content) (files demo_written)) \<le> 65536 \<and> \<not> deleted demo_written ''.''"
proof -
  have r: "run fs_step (newWriteFS demo_tree) [OpWrite ''/home/guest/new'' ''text'' False] demo_written"
    using demo_write by (simp add: run_cons_simp fs_step_simps demo_fs_def)
  then show ?thesis using overlay_invariant [OF demo_embed r] by blast
qed

text \<open>
  C23: the file system stays a tree. As long as only files are renamed, every name that can be opened
  lies in a directory that can be opened, and no directory mark is left under a deletion mark.
\<close>

theorem overlay_is_a_tree:
  assumes "embed_ok b" and "run (\<lambda>w op w'. fs_step w op w' \<and> moves_files w op) (newWriteFS b) ops w"
    and "list_all good_comp (ws @ [c])" and "view w (rel_name (ws @ [c])) \<noteq> None"
  shows "view w (rel_name ws) = Some ADir \<and> (\<forall>n. \<not> ghost w n)"
proof -
  have "base (newWriteFS b) = b" by (simp add: newWriteFS_def)
  then have "fs_tree w" using tree_fs.run_good [OF _ assms(2)] assms(1) by simp
  then show ?thesis using assms(3,4) treeD [of "view w" ws c] by (auto simp: fs_tree_def list_all_iff)
qed

theorem overlay_is_a_tree_witness:
  "view demo_written (rel_name [''home'', ''guest'', ''new'']) \<noteq> None \<and>
   view demo_written (rel_name [''home'', ''guest'']) = Some ADir \<and> (\<forall>n. \<not> ghost demo_written n)"
proof -
  have r: "run (\<lambda>w op w'. fs_step w op w' \<and> moves_files w op) (newWriteFS demo_tree)
      [OpWrite ''/home/guest/new'' ''text'' False] demo_written"
    using demo_write by (simp add: run_cons_simp fs_step_simps demo_fs_def moves_files_def)
  have g: "list_all good_comp ([''home'', ''guest''] @ [''new''])" by code_simp
  have v: "view demo_written (rel_name ([''home'', ''guest''] @ [''new''])) \<noteq> None"
    unfolding demo_written_def by code_simp
  show ?thesis using overlay_is_a_tree [OF demo_embed r g v] v by simp
qed

text \<open>
  C4: the operations implement a plain map of names to files and directories. Seen through
  \<open>Open\<close>, writing a file that fits, removing a file, making a directory and removing an empty one
  succeed exactly when the map's operation does, and then change the map at that one name; writing
  is excepted where a renamed directory has left its mark.
\<close>

theorem overlay_refines_map:
  assumes "fs_inv w"
  shows "(\<not> ghost w (fsName name) \<and> checkSpace w (fsName name) data = None \<longrightarrow>
      map_option view (ok (writeFS_WriteFile w name data False)) = spec_write (view w) (fsName name) data) \<and>
    map_option view (ok (writeFS_Remove w name)) = spec_remove (view w) (fsName name) \<and>
    map_option view (ok (writeFS_Mkdir w name)) = spec_mkdir (view w) (fsName name) \<and>
    map_option view (ok (writeFS_Rmdir w name)) = spec_rmdir (view w) (fsName name)"
  using write_refines [OF assms] remove_refines mkdir_refines [OF assms] rmdir_refines [OF assms] by blast

theorem overlay_refines_map_witness:
  "fs_inv demo_fs \<and>
   map_option view (ok (writeFS_WriteFile demo_fs ''/home/guest/new'' ''text'' False)) =
     spec_write (view demo_fs) (fsName ''/home/guest/new'') ''text'' \<and>
   ok (writeFS_WriteFile demo_fs ''/home/guest/new'' ''text'' False) \<noteq> None"
proof -
  have "checkSpace demo_fs (fsName ''/home/guest/new'') ''text'' = None" by code_simp
  then show ?thesis
    using overlay_refines_map [OF demo_inv, of "''/home/guest/new''" "''text''"] demo_inv demo_no_ghost demo_write
    by (simp add: ok_def)
qed

text \<open>
  C35: what was written is read back, and nothing else changes. After a successful write (not an
  append) every spelling of the name reads the new contents, and every other name reads as before.
  The exception is a name that still carries the mark of a directory renamed away (\<open>ghost\<close>; only
  renaming a directory leaves one): there the write succeeds, but the directory comes back and the
  name reads as empty.
\<close>

theorem write_then_read:
  assumes "fs_inv w" and "writeFS_WriteFile w name data False = Inr w'"
  shows "(\<forall>m. fsName m = fsName name \<longrightarrow> fs_ReadFile w' m = Inr (if ghost w (fsName name) then [] else data)) \<and>
    (\<forall>m. fsName m \<noteq> fsName name \<longrightarrow> view w' (fsName m) = view w (fsName m))"
  using ReadFile_written [OF assms] store.look_other [of w name data w'] assms
  by (auto simp: written_node_def node_text_def split: if_splits)

theorem write_then_read_witness:
  "fs_ReadFile demo_written ''home/./guest/new'' = Inr ''text'' \<and>
   view demo_written ''etc/hostname'' = view demo_fs ''etc/hostname''"
proof -
  have n: "fsName ''home/./guest/new'' = fsName ''/home/guest/new''" "fsName ''etc/hostname'' = ''etc/hostname''"
    "fsName ''etc/hostname'' \<noteq> fsName ''/home/guest/new''" by code_simp+
  have "(\<forall>m. fsName m = fsName ''/home/guest/new'' \<longrightarrow> fs_ReadFile demo_written m = Inr ''text'') \<and>
    (\<forall>m. fsName m \<noteq> fsName ''/home/guest/new'' \<longrightarrow> view demo_written (fsName m) = view demo_fs (fsName m))"
    using write_then_read [OF demo_inv demo_write] by (simp add: demo_no_ghost)
  with n show ?thesis by metis
qed

text \<open>
  C24: a directory lists exactly what can be opened in it. The names come out in strictly increasing
  order, each once, and they are the proper names for which the path of the directory and that name
  can be opened.
\<close>

theorem listing_exact:
  assumes "fs_inv w" and "writeFS_ReadDir w name = Inr es"
  shows "sorted (map de_name es) \<and> distinct (map de_name es) \<and>
    de_name ` set es = {c. good_comp c \<and> view w (path_Join [fsName name, c]) \<noteq> None}"
  using assms by (rule ReadDir_names)

theorem listing_exact_witness:
  "\<exists>es. writeFS_ReadDir demo_written ''/home/guest'' = Inr es \<and> map de_name es = [''new'', ''notes.txt''] \<and>
     de_name ` set es = {c. good_comp c \<and> view demo_written (path_Join [fsName ''/home/guest'', c]) \<noteq> None}"
proof -
  have inv: "fs_inv demo_written" by (rule fs_inv_write [OF demo_inv demo_write])
  have "ok (writeFS_ReadDir demo_written ''/home/guest'') \<noteq> None" unfolding demo_written_def by code_simp
  then obtain es where es: "writeFS_ReadDir demo_written ''/home/guest'' = Inr es" by (rule okE)
  have "map_option (map de_name) (ok (writeFS_ReadDir demo_written ''/home/guest'')) = Some [''new'', ''notes.txt'']"
    unfolding demo_written_def by code_simp
  with es show ?thesis using listing_exact [OF inv es] by (simp add: ok_def)
qed

text \<open>
  C36: what renaming a file does. After a successful rename of a file its contents are under the
  target, which is the new name or, if that is a directory, the file's name inside it; then the old
  name is removed; no other name changes. Two consequences are not what a move should do: if the
  target is the file itself, the file is gone; and if the target still carries the mark of a
  directory renamed away (\<open>ghost\<close>), that directory comes back there and the contents are lost.
\<close>

theorem rename_moves_file:
  assumes "fs_inv w" and "view w (fsName old) = Some (AFile d)" and "writeFS_Rename w old new = Inr w'"
    and "target = (if view w (fsName new) = Some ADir then path_Join [fsName new, path_Base (fsName old)] else fsName new)"
  shows "view w' = (view w)(fsName target \<mapsto> (if ghost w (fsName target) then ADir else AFile d), fsName old := None)"
proof -
  have "fs_ReadFile w (fsName old) = Inr d" using ReadFile_file [of w "fsName old"] assms(2) by simp
  with assms(3,4) obtain w1 where w1: "writeFS_WriteFile w target d False = Inr w1"
    "w' = w1\<lparr>files := AList.delete (fsName old) (files w1), deleted := (deleted w1)(fsName old := True)\<rparr>"
    by (auto simp: writeFS_Rename_def Let_def Stat_view split: sum.splits)
  from write_view [OF assms(1) w1(1)] show ?thesis by (simp add: w1(2) delete_view written_node_def)
qed

theorem rename_moves_file_witness:
  "\<exists>w'. writeFS_Rename demo_fs ''/home/guest/notes.txt'' ''/etc'' = Inr w' \<and>
     view w' ''etc/notes.txt'' = Some (AFile ''todo'') \<and> view w' ''home/guest/notes.txt'' = None"
proof -
  let ?r = "writeFS_Rename demo_fs ''/home/guest/notes.txt'' ''/etc''"
  have "ok ?r \<noteq> None" by code_simp
  then obtain w' where w': "?r = Inr w'" by (rule okE)
  have v: "view demo_fs (fsName ''/home/guest/notes.txt'') = Some (AFile ''todo'')" by code_simp
  have t: "''etc/notes.txt'' = (if view demo_fs (fsName ''/etc'') = Some ADir
      then path_Join [fsName ''/etc'', path_Base (fsName ''/home/guest/notes.txt'')] else fsName ''/etc'')"
    by code_simp
  have n: "fsName ''etc/notes.txt'' = ''etc/notes.txt''" "fsName ''/home/guest/notes.txt'' = ''home/guest/notes.txt''"
    by code_simp+
  show ?thesis using rename_moves_file [OF demo_inv v w' t] w' demo_no_ghost unfolding n by simp
qed

text \<open>
  C39: appending to an emptied file brings the embedded contents back. If the overlay holds an empty
  file over an embedded one, appending writes the embedded contents followed by the new data.
\<close>

theorem append_to_emptied_file:
  assumes "map_of (files w) (fsName name) = Some []" and "\<not> deleted w (fsName name)"
    and "base_ReadFile (base w) (fsName name) = Inr old" and "writeFS_WriteFile w name data True = Inr w'"
  shows "map_of (files w') (fsName name) = Some (old @ data)"
  using assms
  by (auto simp: writeFS_WriteFile_def append_base_def Let_def update_conv' split: if_splits option.splits)

theorem append_to_emptied_file_witness:
  "\<exists>w'. writeFS_WriteFile demo_emptied ''/etc/hostname'' ''more'' True = Inr w' \<and>
     map_of (files w') ''etc/hostname'' = Some ''node-7more''"
proof -
  let ?r = "writeFS_WriteFile demo_emptied ''/etc/hostname'' ''more'' True"
  have "ok ?r \<noteq> None" unfolding demo_emptied_def by code_simp
  then obtain w' where w': "?r = Inr w'" by (rule okE)
  have n: "fsName ''/etc/hostname'' = ''etc/hostname''" by code_simp
  have f: "map_of (files demo_emptied) (fsName ''/etc/hostname'') = Some []"
    and d: "\<not> deleted demo_emptied (fsName ''/etc/hostname'')"
    and b: "base_ReadFile (base demo_emptied) (fsName ''/etc/hostname'') = Inr ''node-7''"
    unfolding demo_emptied_def by code_simp+
  show ?thesis using append_to_emptied_file [OF f d b w'] w' n by simp
qed

end
