(* ===== verification/Shell.thy ===== *)
theory Shell
  imports FSProperties GoErrors
begin

text \<open>
  The demonstration shell (\<open>support/hello-world-shell/shell.go\<close>, \<open>cmd.go\<close>, \<open>main.go\<close>): the syntax
  tree its parser delivers, the evaluation of statements and words, the built-in commands and the
  interactive loop. The parser (\<open>mvdan.cc/sh\<close>) is a parameter. Every function returns the state it
  leaves, also when it fails; what was written to the output before an error stays written.
\<close>

section \<open>Syntax\<close>

datatype redirect_op = RdrOut | ClbOut | AppOut | RdrIn | OtherOp string

text \<open>Word parts and commands the shell does not support carry the name of their Go type.\<close>

datatype word_part =
    Lit string
  | SglQuoted string
  | DblQuoted "word_part list"
  | ParamExp "string option"
  | CmdSubst "stmt list"
  | OtherPart string
and stmt = Stmt bool command "redirect list"
and command =
    CallExpr "assign list" "word list"
  | OtherCmd string
and assign = Assign string "word option"
and redirect = Redirect redirect_op word
and word = Word "word_part list"

section \<open>State\<close>

text \<open>
  The shell's fields. \<open>sh_in\<close> is what is left to read of the input; \<open>sh_out\<close> and \<open>sh_err\<close> what has
  been written. A child shell shares the file system, the variables and the input.
\<close>

record shell =
  sh_fs :: writeFS
  sh_cwd :: string
  sh_env :: "string \<rightharpoonup> string"
  sh_in :: string
  sh_out :: string
  sh_err :: string

definition newShell :: "writeFS \<Rightarrow> string \<Rightarrow> shell" where
  "newShell fsys input =
     \<lparr>sh_fs = fsys, sh_cwd = ''/home/guest'',
      sh_env = [''HOME'' \<mapsto> ''/home/guest'', ''PWD'' \<mapsto> ''/home/guest''],
      sh_in = input, sh_out = [], sh_err = []\<rparr>"

definition getenv_sh :: "shell \<Rightarrow> string \<Rightarrow> string" where
  "getenv_sh s k = (case sh_env s k of None \<Rightarrow> [] | Some v \<Rightarrow> v)"

abbreviation newline :: string where
  "newline \<equiv> [CHR 0x0A]"

definition clean :: "shell \<Rightarrow> string \<Rightarrow> string" where
  "clean s name =
     (if path_IsAbs name then path_Clean name else path_Clean (path_Join [sh_cwd s, name]))"

definition readFile :: "shell \<Rightarrow> string \<Rightarrow> string result" where
  "readFile s name =
     (let cl = clean s name in
      case fs_ReadFile (sh_fs s) (fsName cl) of
        Inr data \<Rightarrow> Inr data
      | Inl err \<Rightarrow>
          if stat_is_dir (fs_Stat (sh_fs s) (fsName cl))
          then Inl (Errorf [T ''cat: '', T cl, T '': is a directory''])
          else Inl (Errorf [T ''cat: '', T cl, T '': no such file'']))"

text \<open>The result of an operation that changes the file system.\<close>

definition set_fs :: "shell \<Rightarrow> writeFS result \<Rightarrow> shell \<times> error option" where
  "set_fs s r = (case r of Inl err \<Rightarrow> (s, Some err) | Inr w \<Rightarrow> (s\<lparr>sh_fs := w\<rparr>, None))"

definition writeFile :: "shell \<Rightarrow> string \<Rightarrow> string \<Rightarrow> bool \<Rightarrow> shell \<times> error option" where
  "writeFile s name data appendData = set_fs s (writeFS_WriteFile (sh_fs s) (clean s name) data appendData)"

section \<open>Built-in commands\<close>

text \<open>
  A command's input is the shell's own or a text from a redirection; its output is returned as a
  text, complete up to the point of an error.
\<close>

datatype input = Own | Text string

type_synonym result_out = "shell \<times> string \<times> error option"

definition usage :: "shell \<Rightarrow> string \<Rightarrow> result_out" where
  "usage s msg = (s, [], Some (Errorf [T msg]))"

definition sh_pwd :: "shell \<Rightarrow> string list \<Rightarrow> result_out" where
  "sh_pwd s args =
     (if length args \<noteq> 0 then usage s ''pwd takes no arguments'' else (s, sh_cwd s @ newline, None))"

definition entry_line :: "DirEntry \<Rightarrow> string" where
  "entry_line e = de_name e @ (if de_dir e then ''/'' else []) @ newline"

definition sh_ls :: "shell \<Rightarrow> string list \<Rightarrow> result_out" where
  "sh_ls s args =
     (if 1 < length args then usage s ''ls takes at most one path''
      else
        (let target = (if length args = 1 then clean s (args ! 0) else sh_cwd s) in
         case writeFS_ReadDir (sh_fs s) (fsName target) of
           Inl err \<Rightarrow>
             if errors_Is err ErrInvalid \<or> errors_Is err ErrNotExist
             then (s, [], Some (Errorf [T ''ls: '', T target, T '': no such directory'']))
             else
               (case fs_ReadFile (sh_fs s) (fsName target) of
                  Inr data \<Rightarrow> (s, path_Base target @ newline, None)
                | Inl _ \<Rightarrow> (s, [], Some err))
         | Inr entries \<Rightarrow> (s, concat (map entry_line (sort_key de_name entries)), None)))"

fun cat_files :: "shell \<Rightarrow> string list \<Rightarrow> string \<Rightarrow> result_out" where
  "cat_files s [] out = (s, out, None)"
| "cat_files s (arg # args) out =
     (case readFile s arg of
        Inl err \<Rightarrow> (s, out, Some err)
      | Inr content \<Rightarrow>
          cat_files s args (out @ content @ (if \<not> HasSuffix content newline then newline else [])))"

definition read_input :: "shell \<Rightarrow> input \<Rightarrow> shell \<times> string" where
  "read_input s i = (case i of Own \<Rightarrow> (s\<lparr>sh_in := []\<rparr>, sh_in s) | Text t \<Rightarrow> (s, t))"

definition sh_cat :: "shell \<Rightarrow> string list \<Rightarrow> input \<Rightarrow> result_out" where
  "sh_cat s args i =
     (if length args = 0 then (case read_input s i of (s', t) \<Rightarrow> (s', t, None))
      else cat_files s args [])"

definition sh_echo :: "shell \<Rightarrow> string list \<Rightarrow> result_out" where
  "sh_echo s args = (s, Join args '' '' @ newline, None)"

definition sh_whoami :: "shell \<Rightarrow> string list \<Rightarrow> result_out" where
  "sh_whoami s args =
     (if length args \<noteq> 0 then usage s ''whoami takes no arguments'' else (s, ''guest'' @ newline, None))"

definition sh_clear :: "shell \<Rightarrow> string list \<Rightarrow> result_out" where
  "sh_clear s args =
     (if length args \<noteq> 0 then usage s ''clear takes no arguments''
      else (s, CHR 0x1B # ''[H'' @ CHR 0x1B # ''[2J'', None))"

definition grepReader :: "string \<Rightarrow> string \<Rightarrow> string" where
  "grepReader pattern data =
     concat (map (\<lambda>line. line @ newline) (filter (\<lambda>line. Contains line pattern) (Split data (CHR 0x0A))))"

fun grep_files :: "shell \<Rightarrow> string \<Rightarrow> string list \<Rightarrow> string \<Rightarrow> result_out" where
  "grep_files s pattern [] out = (s, out, None)"
| "grep_files s pattern (arg # args) out =
     (case readFile s arg of
        Inl err \<Rightarrow> (s, out, Some err)
      | Inr content \<Rightarrow> grep_files s pattern args (out @ grepReader pattern content))"

definition sh_grep :: "shell \<Rightarrow> string list \<Rightarrow> input \<Rightarrow> result_out" where
  "sh_grep s args i =
     (case args of
        [] \<Rightarrow> usage s ''grep requires a pattern''
      | [pattern] \<Rightarrow> (case read_input s i of (s', t) \<Rightarrow> (s', grepReader pattern t, None))
      | pattern # paths \<Rightarrow> grep_files s pattern paths [])"

text \<open>The loops of \<open>mkdir\<close>, \<open>rmdir\<close>, \<open>touch\<close> and \<open>rm\<close>: one operation per argument, up to an error.\<close>

fun each_path :: "string \<Rightarrow> (writeFS \<Rightarrow> string \<Rightarrow> writeFS result) \<Rightarrow> shell \<Rightarrow> string list \<Rightarrow> shell \<times> error option" where
  "each_path cmd op s [] = (s, None)"
| "each_path cmd op s (arg # args) =
     (case op (sh_fs s) (clean s arg) of
        Inl err \<Rightarrow> (s, Some (Wrapf [T cmd, T '': ''] err))
      | Inr w \<Rightarrow> each_path cmd op (s\<lparr>sh_fs := w\<rparr>) args)"

definition silent :: "shell \<times> error option \<Rightarrow> result_out" where
  "silent r = (fst r, [], snd r)"

definition sh_mkdir :: "shell \<Rightarrow> string list \<Rightarrow> result_out" where
  "sh_mkdir s args =
     (if length args = 0 then usage s ''mkdir requires at least one path''
      else silent (each_path ''mkdir'' writeFS_Mkdir s args))"

definition sh_rmdir :: "shell \<Rightarrow> string list \<Rightarrow> result_out" where
  "sh_rmdir s args =
     (if length args = 0 then usage s ''rmdir requires at least one path''
      else silent (each_path ''rmdir'' writeFS_Rmdir s args))"

definition sh_touch :: "shell \<Rightarrow> string list \<Rightarrow> result_out" where
  "sh_touch s args =
     (if length args = 0 then usage s ''touch requires at least one path''
      else silent (each_path ''touch'' writeFS_Touch s args))"

definition sh_rm :: "shell \<Rightarrow> string list \<Rightarrow> result_out" where
  "sh_rm s args =
     (if length args = 0 then usage s ''rm requires at least one path''
      else silent (each_path ''rm'' writeFS_Remove s args))"

definition sh_cp :: "shell \<Rightarrow> string list \<Rightarrow> result_out" where
  "sh_cp s args =
     (case args of
        [src, dst0] \<Rightarrow>
          (case readFile s src of
             Inl err \<Rightarrow> (s, [], Some (Wrapf [T ''cp: ''] err))
           | Inr content \<Rightarrow>
               (let dst1 = clean s dst0;
                    dst = (if stat_is_dir (fs_Stat (sh_fs s) (fsName dst1))
                           then path_Join [dst1, path_Base (clean s src)] else dst1)
                in silent (writeFile s dst content False)))
      | _ \<Rightarrow> usage s ''cp requires source and destination'')"

definition sh_mv :: "shell \<Rightarrow> string list \<Rightarrow> result_out" where
  "sh_mv s args =
     (case args of
        [src, dst] \<Rightarrow>
          (case writeFS_Rename (sh_fs s) (clean s src) (clean s dst) of
             Inl err \<Rightarrow> (s, [], Some (Wrapf [T ''mv: ''] err))
           | Inr w \<Rightarrow> (s\<lparr>sh_fs := w\<rparr>, [], None))
      | _ \<Rightarrow> usage s ''mv requires source and destination'')"

definition sh_cd :: "shell \<Rightarrow> string list \<Rightarrow> result_out" where
  "sh_cd s args =
     (if 1 < length args then usage s ''cd takes at most one path''
      else
        (let target = (if length args = 1 then clean s (args ! 0) else getenv_sh s ''HOME'') in
         if \<not> stat_is_dir (fs_Stat (sh_fs s) (fsName target))
         then (s, [], Some (Errorf [T ''cd: '', T target, T '': not a directory'']))
         else (s\<lparr>sh_cwd := target, sh_env := (sh_env s)(''PWD'' \<mapsto> target)\<rparr>, [], None)))"

definition sh_help :: "shell \<Rightarrow> string list \<Rightarrow> result_out" where
  "sh_help s args =
     (if length args \<noteq> 0 then usage s ''help takes no arguments''
      else (s, ''builtins: cat cd clear cp echo exit grep help ls mkdir mv pwd rm rmdir touch whoami'' @ newline, None))"

definition runArgs :: "shell \<Rightarrow> string list \<Rightarrow> input \<Rightarrow> result_out" where
  "runArgs s args i =
     (let cmd = hd args; rest = tl args in
      if cmd = ''cat'' then sh_cat s rest i
      else if cmd = ''cd'' then sh_cd s rest
      else if cmd = ''clear'' then sh_clear s rest
      else if cmd = ''cp'' then sh_cp s rest
      else if cmd = ''echo'' then sh_echo s rest
      else if cmd = ''exit'' then (s, [], None)
      else if cmd = ''grep'' then sh_grep s rest i
      else if cmd = ''help'' then sh_help s rest
      else if cmd = ''ls'' then sh_ls s rest
      else if cmd = ''mkdir'' then sh_mkdir s rest
      else if cmd = ''mv'' then sh_mv s rest
      else if cmd = ''pwd'' then sh_pwd s rest
      else if cmd = ''rm'' then sh_rm s rest
      else if cmd = ''rmdir'' then sh_rmdir s rest
      else if cmd = ''touch'' then sh_touch s rest
      else if cmd = ''whoami'' then sh_whoami s rest
      else (s, [], Some (Errorf [T ''unknown command '', Q cmd])))"

section \<open>Evaluation\<close>

text \<open>
  \<open>runFile\<close> (statements up to an error), \<open>runStmt\<close>, the assignments before a command, its words, its
  redirections, and \<open>word\<close> and \<open>wordPart\<close>. A redirection's target is written when the command has
  succeeded, with the working directory of that moment; of several, the last one counts.
\<close>

function (sequential) runFile :: "shell \<Rightarrow> stmt list \<Rightarrow> shell \<times> error option"
  and runStmt :: "shell \<Rightarrow> stmt \<Rightarrow> shell \<times> error option"
  and run_assigns :: "shell \<Rightarrow> (string \<rightharpoonup> string) \<Rightarrow> assign list \<Rightarrow> shell \<times> (string \<rightharpoonup> string) result"
  and run_words :: "shell \<Rightarrow> (string \<rightharpoonup> string) \<Rightarrow> word list \<Rightarrow> shell \<times> string list result"
  and run_redirs :: "shell \<Rightarrow> (string \<rightharpoonup> string) \<Rightarrow> redirect list \<Rightarrow> input \<Rightarrow> (string \<times> bool) option \<Rightarrow>
    shell \<times> (input \<times> (string \<times> bool) option) result"
  and word_parts :: "shell \<Rightarrow> (string \<rightharpoonup> string) \<Rightarrow> word_part list \<Rightarrow> shell \<times> string result"
  and wordPart :: "shell \<Rightarrow> (string \<rightharpoonup> string) \<Rightarrow> word_part \<Rightarrow> shell \<times> string result" where
  "runFile s [] = (s, None)"
| "runFile s (stmt # stmts) =
     (case runStmt s stmt of
        (s1, Some err) \<Rightarrow> (s1, Some err)
      | (s1, None) \<Rightarrow> runFile s1 stmts)"
| "runStmt s (Stmt True cmd redirs) =
     (s, Some (Errorf [T ''operators, background jobs, and coprocesses are not supported'']))"
| "runStmt s (Stmt False (OtherCmd ty) redirs) = (s, Some (Errorf [T ''unsupported command '', T ty]))"
| "runStmt s (Stmt False (CallExpr assigns args) redirs) =
     (case run_assigns s Map.empty assigns of
        (s1, Inl err) \<Rightarrow> (s1, Some err)
      | (s1, Inr local) \<Rightarrow>
          if args = [] then (s1\<lparr>sh_env := sh_env s1 ++ local\<rparr>, None)
          else
            (case run_words s1 local args of
               (s2, Inl err) \<Rightarrow> (s2, Some err)
             | (s2, Inr argv) \<Rightarrow>
                 (case run_redirs s2 local redirs Own None of
                    (s3, Inl err) \<Rightarrow> (s3, Some err)
                  | (s3, Inr (inp, target)) \<Rightarrow>
                      (case runArgs s3 argv inp of
                         (s4, out, err) \<Rightarrow>
                           (case target of
                              None \<Rightarrow> (s4\<lparr>sh_out := sh_out s4 @ out\<rparr>, err)
                            | Some (name, app) \<Rightarrow>
                                if err \<noteq> None then (s4, err) else writeFile s4 name out app)))))"
| "run_assigns s local [] = (s, Inr local)"
| "run_assigns s local (Assign name None # assigns) = run_assigns s (local(name \<mapsto> [])) assigns"
| "run_assigns s local (Assign name (Some (Word ps)) # assigns) =
     (case word_parts s local ps of
        (s1, Inl err) \<Rightarrow> (s1, Inl err)
      | (s1, Inr value) \<Rightarrow> run_assigns s1 (local(name \<mapsto> value)) assigns)"
| "run_words s local [] = (s, Inr [])"
| "run_words s local (Word ps # words) =
     (case word_parts s local ps of
        (s1, Inl err) \<Rightarrow> (s1, Inl err)
      | (s1, Inr arg) \<Rightarrow>
          (case run_words s1 local words of
             (s2, Inl err) \<Rightarrow> (s2, Inl err)
           | (s2, Inr args) \<Rightarrow> (s2, Inr (arg # args))))"
| "run_redirs s local [] inp target = (s, Inr (inp, target))"
| "run_redirs s local (Redirect op (Word ps) # redirs) inp target =
     (case word_parts s local ps of
        (s1, Inl err) \<Rightarrow> (s1, Inl err)
      | (s1, Inr name) \<Rightarrow>
          (case op of
             RdrOut \<Rightarrow> run_redirs s1 local redirs inp (Some (name, False))
           | ClbOut \<Rightarrow> run_redirs s1 local redirs inp (Some (name, False))
           | AppOut \<Rightarrow> run_redirs s1 local redirs inp (Some (name, True))
           | RdrIn \<Rightarrow>
               (case readFile s1 name of
                  Inl err \<Rightarrow> (s1, Inl err)
                | Inr data \<Rightarrow> run_redirs s1 local redirs (Text data) target)
           | OtherOp opname \<Rightarrow> (s1, Inl (Errorf [T ''unsupported redirect '', T opname]))))"
| "word_parts s local [] = (s, Inr [])"
| "word_parts s local (part # parts) =
     (case wordPart s local part of
        (s1, Inl err) \<Rightarrow> (s1, Inl err)
      | (s1, Inr value) \<Rightarrow>
          (case word_parts s1 local parts of
             (s2, Inl err) \<Rightarrow> (s2, Inl err)
           | (s2, Inr rest) \<Rightarrow> (s2, Inr (value @ rest))))"
| "wordPart s local (Lit value) = (s, Inr value)"
| "wordPart s local (SglQuoted value) = (s, Inr value)"
| "wordPart s local (DblQuoted parts) = word_parts s local parts"
| "wordPart s local (ParamExp None) = (s, Inl (Errorf [T ''unsupported parameter expansion'']))"
| "wordPart s local (ParamExp (Some name)) =
     (s, Inr (case local name of Some value \<Rightarrow> value | None \<Rightarrow> getenv_sh s name))"
| "wordPart s local (CmdSubst stmts) =
     (case runFile (s\<lparr>sh_out := []\<rparr>) stmts of
        (c, Some err) \<Rightarrow> (c\<lparr>sh_out := sh_out s, sh_cwd := sh_cwd s\<rparr>, Inl err)
      | (c, None) \<Rightarrow> (c\<lparr>sh_out := sh_out s, sh_cwd := sh_cwd s\<rparr>, Inr (TrimRight (sh_out c) (CHR 0x0A))))"
| "wordPart s local (OtherPart ty) = (s, Inl (Errorf [T ''unsupported expansion or quoting '', T ty]))"
  by pat_completeness auto

termination
  by (relation "measure (case_sum
      (case_sum (size_list size \<circ> snd) (case_sum (size \<circ> snd) (size_list size \<circ> snd \<circ> snd)))
      (case_sum (case_sum (size_list size \<circ> snd \<circ> snd) (size_list size \<circ> fst \<circ> snd \<circ> snd))
        (case_sum (size_list size \<circ> snd \<circ> snd) (size \<circ> snd \<circ> snd))))")
    simp_all

section \<open>Running\<close>

definition shell_run :: "(string \<Rightarrow> stmt list result) \<Rightarrow> shell \<Rightarrow> string \<Rightarrow> shell \<times> error option" where
  "shell_run parse s src =
     (case parse src of Inl err \<Rightarrow> (s, Some err) | Inr stmts \<Rightarrow> runFile s stmts)"

definition printPrompt :: "shell \<Rightarrow> shell" where
  "printPrompt s = s\<lparr>sh_out := sh_out s @ sh_cwd s @ '' $ ''\<rparr>"

text \<open>\<open>fmt.Fprintln(sh.err, err)\<close>\<close>

definition print_error :: "(string \<Rightarrow> string) \<Rightarrow> shell \<Rightarrow> error option \<Rightarrow> shell" where
  "print_error quote s r =
     (case r of None \<Rightarrow> s | Some err \<Rightarrow> s\<lparr>sh_err := sh_err s @ error_text quote err @ newline\<rparr>)"

text \<open>
  The loop of \<open>runInteractive\<close> and the goroutine beside it: a line the scanner delivers is run, and
  its error printed; an interrupt starts a new line with a prompt. An interrupt that arrives while
  a line is run is taken at its end, although the program may print in between.
\<close>

datatype interactive_event = ScanLine string | Interrupt

fun interactive_loop ::
    "(string \<Rightarrow> string) \<Rightarrow> (string \<Rightarrow> stmt list result) \<Rightarrow> shell \<Rightarrow> interactive_event list \<Rightarrow> shell" where
  "interactive_loop quote parse s [] = s"
| "interactive_loop quote parse s (ScanLine line # events) =
     (case shell_run parse s line of
        (s1, r) \<Rightarrow> interactive_loop quote parse (printPrompt (print_error quote s1 r)) events)"
| "interactive_loop quote parse s (Interrupt # events) =
     interactive_loop quote parse (printPrompt (s\<lparr>sh_out := sh_out s @ newline\<rparr>)) events"

text \<open>
  \<open>scanErr\<close> is the scanner's error. How its buffer and a \<open>cat\<close> without arguments share the standard
  input is left open: the lines and the input are given apart.
\<close>

definition runInteractive ::
    "(string \<Rightarrow> string) \<Rightarrow> (string \<Rightarrow> stmt list result) \<Rightarrow> shell \<Rightarrow> interactive_event list \<Rightarrow> error option \<Rightarrow> shell \<times> error option" where
  "runInteractive quote parse s events scanErr =
     (let s1 = interactive_loop quote parse (printPrompt s) events
      in (s1\<lparr>sh_out := sh_out s1 @ newline\<rparr>, scanErr))"

record shell_cli =
  cli_Command :: string
  cli_Interactive :: bool

text \<open>\<open>main\<close>: the final state and the exit status; \<open>fatalf\<close> prints the error and exits with 1.\<close>

definition shell_main ::
    "(string \<Rightarrow> string) \<Rightarrow> (string \<Rightarrow> stmt list result) \<Rightarrow> embed \<Rightarrow> shell_cli \<Rightarrow> string \<Rightarrow> interactive_event list \<Rightarrow> error option \<Rightarrow> shell \<times> int" where
  "shell_main quote parse embedded cli input events scanErr =
     (let s0 = newShell (newWriteFS embedded) input;
          (s1, r1) = (if cli_Command cli \<noteq> [] then shell_run parse s0 (cli_Command cli) else (s0, None))
      in
      if r1 \<noteq> None then (print_error quote s1 r1, 1)
      else if cli_Interactive cli \<or> cli_Command cli = [] then
        (case runInteractive quote parse s1 events scanErr of
           (s2, r2) \<Rightarrow> if r2 \<noteq> None then (print_error quote s2 r2, 1) else (s2, 0))
      else (s1, 0))"

end
