(* ===== verification/ShellProperties.thy ===== *)
theory ShellProperties
  imports Shell FSTheorems
begin

text \<open>
  Properties of the demonstration shell: what no script can do to the file system, what the
  evaluation of words leaves alone, and that files written by one command are what the next reads.
\<close>

section \<open>Steps of the file system\<close>

text \<open>The file system after a step: its invariant is kept and the embedded tree untouched.\<close>

definition fs_after :: "writeFS \<Rightarrow> writeFS \<Rightarrow> bool" where
  "fs_after w w' \<longleftrightarrow> (fs_inv w \<longrightarrow> fs_inv w') \<and> base w' = base w"

lemma fs_after_refl [simp]: "fs_after w w"
  by (simp add: fs_after_def)

lemma fs_after_trans: "fs_after u v \<Longrightarrow> fs_after v w \<Longrightarrow> fs_after u w"
  by (simp add: fs_after_def)

lemma base_WriteFile: "writeFS_WriteFile w n d a = Inr w' \<Longrightarrow> base w' = base w"
  by (auto simp: writeFS_WriteFile_def Let_def split: if_splits option.splits)

lemma base_ops:
  "writeFS_Remove w n = Inr w' \<Longrightarrow> base w' = base w"
  "writeFS_Mkdir w n = Inr w' \<Longrightarrow> base w' = base w"
  "writeFS_Rmdir w n = Inr w' \<Longrightarrow> base w' = base w"
  "writeFS_Rename w n m = Inr w' \<Longrightarrow> base w' = base w"
  "writeFS_Touch w n = Inr w' \<Longrightarrow> base w' = base w"
      apply (auto simp: writeFS_Remove_def Let_def split: sum.splits if_splits)[1]
     apply (auto simp: writeFS_Mkdir_def Let_def split: sum.splits if_splits)[1]
    apply (auto simp: writeFS_Rmdir_def Let_def split: sum.splits if_splits)[1]
   apply (auto simp: writeFS_Rename_def Let_def dest!: base_WriteFile split: sum.splits)[1]
  apply (auto simp: writeFS_Touch_def Let_def dest!: base_WriteFile split: sum.splits if_splits)[1]
  done

lemma fs_after_ops:
  "writeFS_WriteFile w n d a = Inr w' \<Longrightarrow> fs_after w w'"
  "writeFS_Remove w n = Inr w' \<Longrightarrow> fs_after w w'"
  "writeFS_Mkdir w n = Inr w' \<Longrightarrow> fs_after w w'"
  "writeFS_Rmdir w n = Inr w' \<Longrightarrow> fs_after w w'"
  "writeFS_Rename w n m = Inr w' \<Longrightarrow> fs_after w w'"
  "writeFS_Touch w n = Inr w' \<Longrightarrow> fs_after w w'"
  unfolding fs_after_def by (simp_all add: base_WriteFile base_ops) (blast intro: fs_inv_ops)+

section \<open>What a command may change\<close>

text \<open>A built-in command changes the file system by its operations, and leaves the output to its caller.\<close>

definition cmd_after :: "shell \<Rightarrow> shell \<Rightarrow> bool" where
  "cmd_after s s' \<longleftrightarrow> fs_after (sh_fs s) (sh_fs s') \<and> sh_out s' = sh_out s \<and> sh_err s' = sh_err s"

lemma cmd_after_refl [simp]: "cmd_after s s"
  by (simp add: cmd_after_def)

lemma cmd_after_fs [simp]: "cmd_after s (s\<lparr>sh_fs := w\<rparr>) \<longleftrightarrow> fs_after (sh_fs s) w"
  by (simp add: cmd_after_def)

lemma cmd_after_simps [simp]:
  "cmd_after s (s\<lparr>sh_in := i\<rparr>)" "cmd_after s (s\<lparr>sh_cwd := c, sh_env := e\<rparr>)"
  by (simp_all add: cmd_after_def)

lemma each_path_after:
  assumes "\<And>w n w'. op w n = Inr w' \<Longrightarrow> fs_after w w'"
  shows "cmd_after s (fst (each_path cmd op s args))"
proof (induction args arbitrary: s)
  case (Cons arg args)
  show ?case
  proof (cases "op (sh_fs s) (clean s arg)")
    case (Inr w)
    with Cons [of "s\<lparr>sh_fs := w\<rparr>"] assms [OF Inr] show ?thesis
      by (auto simp: cmd_after_def intro: fs_after_trans)
  qed simp
qed simp

lemma cat_files_after: "fst (cat_files s args out) = s"
  by (induction args arbitrary: out) (auto split: sum.splits)

lemma grep_files_after: "fst (grep_files s pat args out) = s"
  by (induction args arbitrary: out) (auto split: sum.splits)

lemma writeFile_after: "cmd_after s (fst (writeFile s n d a))"
  by (auto simp: writeFile_def set_fs_def intro: fs_after_ops split: sum.splits)

lemmas each_path_ops =
  each_path_after [of writeFS_Mkdir, OF fs_after_ops(3)] each_path_after [of writeFS_Rmdir, OF fs_after_ops(4)]
  each_path_after [of writeFS_Touch, OF fs_after_ops(6)] each_path_after [of writeFS_Remove, OF fs_after_ops(2)]

lemma builtins_after:
  "cmd_after s (fst (sh_pwd s args))" "cmd_after s (fst (sh_ls s args))" "cmd_after s (fst (sh_cat s args i))"
  "cmd_after s (fst (sh_echo s args))" "cmd_after s (fst (sh_whoami s args))" "cmd_after s (fst (sh_clear s args))"
  "cmd_after s (fst (sh_grep s args i))" "cmd_after s (fst (sh_mkdir s args))" "cmd_after s (fst (sh_rmdir s args))"
  "cmd_after s (fst (sh_touch s args))" "cmd_after s (fst (sh_rm s args))" "cmd_after s (fst (sh_cp s args))"
  "cmd_after s (fst (sh_mv s args))" "cmd_after s (fst (sh_cd s args))" "cmd_after s (fst (sh_help s args))"
  using cat_files_after grep_files_after writeFile_after
  by (auto simp: sh_pwd_def sh_ls_def sh_cat_def sh_echo_def sh_whoami_def sh_clear_def sh_grep_def
      sh_mkdir_def sh_rmdir_def sh_touch_def sh_rm_def sh_cp_def sh_mv_def sh_cd_def sh_help_def
      usage_def silent_def read_input_def each_path_ops Let_def intro: fs_after_ops
      split: sum.splits list.splits input.splits)

lemma runArgs_after: "cmd_after s (fst (runArgs s args i))"
  by (simp add: runArgs_def Let_def builtins_after)

section \<open>What a script may change\<close>

definition stmt_after :: "shell \<Rightarrow> shell \<Rightarrow> bool" where
  "stmt_after s s' \<longleftrightarrow> fs_after (sh_fs s) (sh_fs s') \<and> prefix (sh_out s) (sh_out s') \<and> sh_err s' = sh_err s"

definition word_after :: "shell \<Rightarrow> shell \<Rightarrow> bool" where
  "word_after s s' \<longleftrightarrow> fs_after (sh_fs s) (sh_fs s') \<and> sh_out s' = sh_out s \<and> sh_cwd s' = sh_cwd s \<and> sh_err s' = sh_err s"

lemma after_refl [simp]: "stmt_after s s" "word_after s s"
  by (simp_all add: stmt_after_def word_after_def)

lemma stmt_after_trans: "stmt_after s t \<Longrightarrow> stmt_after t u \<Longrightarrow> stmt_after s u"
  unfolding stmt_after_def by (metis fs_after_trans prefix_order.trans)

lemma word_after_trans: "word_after s t \<Longrightarrow> word_after t u \<Longrightarrow> word_after s u"
  unfolding word_after_def by (metis fs_after_trans)

lemma word_stmt: "word_after s t \<Longrightarrow> stmt_after s t"
  by (simp add: word_after_def stmt_after_def)

lemma cmd_stmt: "cmd_after s t \<Longrightarrow> stmt_after s t"
  by (simp add: cmd_after_def stmt_after_def)

text \<open>The call of a command with its words and redirections evaluated.\<close>

lemma call_after:
  assumes "word_after s s3"
  shows "stmt_after s (fst (case runArgs s3 argv inp of
     (s4, out, err) \<Rightarrow>
       (case target of
          None \<Rightarrow> (s4\<lparr>sh_out := sh_out s4 @ out\<rparr>, err)
        | Some (name, app) \<Rightarrow> if err \<noteq> None then (s4, err) else writeFile s4 name out app)))"
proof -
  obtain s4 out err where r: "runArgs s3 argv inp = (s4, out, err)" by (metis prod_cases3)
  then have c: "stmt_after s s4"
    using runArgs_after [of s3 argv inp] assms by (auto intro: stmt_after_trans word_stmt cmd_stmt)
  have "stmt_after s4 (s4\<lparr>sh_out := sh_out s4 @ out\<rparr>)" by (simp add: stmt_after_def)
  with c r show ?thesis
    using cmd_stmt [OF writeFile_after] by (auto intro: stmt_after_trans split: option.splits)
qed

lemma script_after:
  shows "stmt_after s (fst (runFile s stmts))"
    and "stmt_after s (fst (runStmt s stmt))"
    and "word_after s (fst (run_assigns s local assigns))"
    and "word_after s (fst (run_words s local words))"
    and "word_after s (fst (run_redirs s local redirs inp target))"
    and "word_after s (fst (word_parts s local parts))"
    and "word_after s (fst (wordPart s local part))"
proof (induction s stmts and s stmt and s local assigns and s local words and s local redirs inp target
    and s local parts and s local part
    rule: runFile_runStmt_run_assigns_run_words_run_redirs_word_parts_wordPart.induct)
  case (5 s assigns args redirs)
  obtain s1 r1 where r1: "run_assigns s Map.empty assigns = (s1, r1)" by fastforce
  with 5(1) have w1: "word_after s s1" by simp
  show ?case
  proof (cases r1)
    case (Inl err)
    with r1 w1 show ?thesis by (simp add: word_stmt)
  next
    case loc: (Inr local)
    show ?thesis
    proof (cases "args = []")
      case True
      have "stmt_after s1 (s1\<lparr>sh_env := sh_env s1 ++ local\<rparr>)" by (simp add: stmt_after_def)
      with True r1 loc w1 show ?thesis by (auto intro: stmt_after_trans word_stmt)
    next
      case args: False
      obtain s2 r2 where r2: "run_words s1 local args = (s2, r2)" by fastforce
      with 5(2) [OF r1 [symmetric] loc args] w1 have w2: "word_after s s2" by (auto intro: word_after_trans)
      show ?thesis
      proof (cases r2)
        case (Inl err)
        with r1 loc args r2 w2 show ?thesis by (simp add: word_stmt)
      next
        case argv: (Inr argv)
        obtain s3 r3 where r3: "run_redirs s2 local redirs Own None = (s3, r3)" by fastforce
        with 5(3) [OF r1 [symmetric] loc args r2 [symmetric] argv] w2 have w3: "word_after s s3"
          by (auto intro: word_after_trans)
        with r1 loc args r2 argv r3 show ?thesis
          using call_after [OF w3] by (cases r3) (auto simp: word_stmt)
      qed
    qed
  qed
next
  case (2 s stmt stmts)
  then show ?case by (auto intro: stmt_after_trans split: prod.splits option.splits)
next
  case (20 s local stmts)
  then show ?case by (auto simp: stmt_after_def word_after_def split: prod.splits option.splits)
qed (auto simp: fun_upd_def intro: word_after_trans split: prod.splits sum.splits redirect_op.splits)

section \<open>Sessions\<close>

definition session_after :: "shell \<Rightarrow> shell \<Rightarrow> bool" where
  "session_after s s' \<longleftrightarrow> fs_after (sh_fs s) (sh_fs s') \<and> prefix (sh_out s) (sh_out s') \<and> prefix (sh_err s) (sh_err s')"

lemma session_after_refl [simp]: "session_after s s"
  by (simp add: session_after_def)

lemma session_after_trans: "session_after s t \<Longrightarrow> session_after t u \<Longrightarrow> session_after s u"
  unfolding session_after_def by (metis fs_after_trans prefix_order.trans)

lemma stmt_session: "stmt_after s t \<Longrightarrow> session_after s t"
  by (simp add: stmt_after_def session_after_def)

lemma session_prints [simp]:
  "session_after s (printPrompt s)" "session_after s (print_error quote s r)" "session_after s (s\<lparr>sh_out := sh_out s @ t\<rparr>)"
  by (auto simp: session_after_def printPrompt_def print_error_def split: option.splits)

lemma shell_run_after: "session_after s (fst (shell_run parse s src))"
  by (auto simp: shell_run_def intro: stmt_session script_after(1) split: sum.splits)

lemma interactive_after: "session_after s (interactive_loop quote parse s events)"
proof (induction events arbitrary: s)
  case (Cons event events)
  show ?case
  proof (cases event)
    case (ScanLine line)
    obtain s1 r where r: "shell_run parse s line = (s1, r)" by fastforce
    then have "session_after s s1" using shell_run_after [of s parse line] by simp
    then have "session_after s (printPrompt (print_error quote s1 r))"
      by (blast intro: session_after_trans session_prints)
    with Cons ScanLine r show ?thesis by (auto intro: session_after_trans)
  next
    case Interrupt
    have "session_after s (printPrompt (s\<lparr>sh_out := sh_out s @ newline\<rparr>))"
      by (blast intro: session_after_trans session_prints)
    with Cons Interrupt show ?thesis by (auto intro: session_after_trans)
  qed
qed simp

lemma runInteractive_after: "session_after s (fst (runInteractive quote parse s events scanErr))"
  unfolding runInteractive_def Let_def fst_conv
  by (blast intro: session_after_trans session_prints interactive_after)

lemma shell_main_after:
  "session_after (newShell (newWriteFS b) input) (fst (shell_main quote parse b cli input events scanErr))"
proof -
  define s0 where "s0 = newShell (newWriteFS b) input"
  obtain s1 r1 where r1: "(if cli_Command cli \<noteq> [] then shell_run parse s0 (cli_Command cli) else (s0, None)) = (s1, r1)"
    by fastforce
  then have a: "session_after s0 s1"
    using shell_run_after [of s0 parse "cli_Command cli"] by (auto split: if_splits)
  obtain s2 r2 where r2: "runInteractive quote parse s1 events scanErr = (s2, r2)" by fastforce
  then have b: "session_after s0 s2"
    using runInteractive_after [of s1 quote parse events scanErr] a by (auto intro: session_after_trans)
  have "fst (shell_main quote parse b cli input events scanErr) \<in>
      {s1, print_error quote s1 r1, s2, print_error quote s2 r2}"
    using r1 r2 by (auto simp: shell_main_def s0_def [symmetric] Let_def)
  with a b show ?thesis unfolding s0_def [symmetric] by (auto intro: session_after_trans)
qed

lemma runFile_append:
  "runFile s (xs @ ys) = (case runFile s xs of (s1, Some err) \<Rightarrow> (s1, Some err) | (s1, None) \<Rightarrow> runFile s1 ys)"
  by (induction xs arbitrary: s) (auto split: prod.splits option.splits)

lemma clean_fs [simp]: "clean (s\<lparr>sh_fs := w\<rparr>) name = clean s name"
  by (simp add: clean_def)

lemma readFile_view: "view (sh_fs s) (fsName (clean s name)) = Some (AFile d) \<Longrightarrow> readFile s name = Inr d"
  using ReadFile_file [of "sh_fs s" "fsName (clean s name)" d] by (simp add: readFile_def)

section \<open>Properties\<close>

definition demo_shell :: shell where "demo_shell = newShell demo_fs []"

text \<open>
  C10: no session escapes its sandbox. Whatever the parser delivers, whatever the user types and
  whenever the session is interrupted, the embedded tree is unchanged at the end, the written files
  take at most 64 KiB, all their names are clean relative names, and the exit status is 0 or 1.
\<close>

theorem shell_session_contained:
  assumes "embed_ok b" and "shell_main quote parse b cli input events scanErr = (s, status)"
  shows "base (sh_fs s) = b \<and> sum_list (map (\<lambda>(f, content). length content) (files (sh_fs s))) \<le> 65536 \<and>
    (\<forall>n \<in> fst ` set (files (sh_fs s)) \<union> set (dirs (sh_fs s)). fsName n = n \<and> n \<noteq> ''.'') \<and> status \<in> {0, 1}"
proof -
  have "fs_after (newWriteFS b) (sh_fs s)"
    using shell_main_after [of b input quote parse cli events scanErr] assms(2)
    by (simp add: session_after_def newShell_def)
  then have "fs_inv (sh_fs s)" "base (sh_fs s) = b"
    using fs_inv_new [OF assms(1)] by (auto simp: fs_after_def newWriteFS_def)
  moreover have "status \<in> {0, 1}"
    using assms(2) by (auto simp: shell_main_def Let_def split: if_splits prod.splits)
  ultimately show ?thesis
    by (auto simp: fs_inv_def fs_ok_def clean_name_def total_space_def maxFilesystemBytes_def)
qed

theorem shell_session_contained_witness:
  "base (sh_fs (fst (shell_main id (\<lambda>_. Inr [Stmt False (CallExpr [] [Word [Lit ''rm''], Word [Lit ''notes.txt'']]) []])
     demo_tree \<lparr>cli_Command = ''rm notes.txt'', cli_Interactive = False\<rparr> [] [] None))) = demo_tree"
  using shell_session_contained [OF demo_embed prod.collapse [symmetric]] by blast

text \<open>
  A script stops at its first error. Running two scripts one after the other is running their
  statements in sequence, and after an error nothing more is executed; what was done before stays.
\<close>

lemma first_error_stops:
  "runFile s (xs @ stmt # ys) =
   (case runFile s xs of
      (s1, Some err) \<Rightarrow> (s1, Some err)
    | (s1, None) \<Rightarrow>
        (case runStmt s1 stmt of
           (s2, Some err) \<Rightarrow> (s2, Some err)
         | (s2, None) \<Rightarrow> runFile s2 ys)) \<and>
   prefix (sh_out s) (sh_out (fst (runFile s (xs @ stmt # ys))))"
  using script_after(1) [of s "xs @ stmt # ys"]
  by (auto simp: runFile_append stmt_after_def split: prod.splits option.splits)

text \<open>
  Words are evaluated without a trace in the session. Evaluating a word, command substitutions
  included, prints nothing, reports nothing and does not change the working directory.
\<close>

lemma words_leave_session:
  "sh_out (fst (word_parts s local parts)) = sh_out s \<and> sh_err (fst (word_parts s local parts)) = sh_err s \<and>
   sh_cwd (fst (word_parts s local parts)) = sh_cwd s"
  using script_after(6) [of s local parts] by (simp add: word_after_def)

text \<open>
  C37: what \<open>echo\<close> writes to a file, \<open>cat\<close> prints. When \<open>echo text > file\<close> has succeeded, \<open>cat file\<close>
  succeeds, prints the text and a newline, and changes nothing else; except that under a name that
  still carries the mark of a directory renamed away (\<open>ghost\<close>) the text is lost and \<open>cat\<close> prints the
  newline alone.
\<close>

theorem echo_cat_round_trip:
  assumes "fs_inv (sh_fs s)"
    and "runStmt s (Stmt False (CallExpr [] [Word [Lit ''echo''], Word [Lit text]])
          [Redirect RdrOut (Word [Lit name])]) = (s1, None)"
  shows "runStmt s1 (Stmt False (CallExpr [] [Word [Lit ''cat''], Word [Lit name]]) []) =
    (s1\<lparr>sh_out := sh_out s @ (if ghost (sh_fs s) (fsName (clean s name)) then [] else text) @ [CHR 0x0A]\<rparr>, None)"
proof -
  let ?d = "text @ [CHR 0x0A]" and ?g = "ghost (sh_fs s) (fsName (clean s name))"
  from assms(2) have w: "writeFile s name ?d False = (s1, None)"
    by (simp add: runArgs_def sh_echo_def Join.simps)
  then obtain w where w': "writeFS_WriteFile (sh_fs s) (clean s name) ?d False = Inr w" "s1 = s\<lparr>sh_fs := w\<rparr>"
    by (auto simp: writeFile_def set_fs_def split: sum.splits)
  have "fs_ReadFile w (fsName (clean s name)) = Inr (if ?g then [] else ?d)"
    using ReadFile_written [OF assms(1) w'(1), of "fsName (clean s name)"]
    by (auto simp: written_node_def node_text_def)
  then have "readFile s1 name = Inr (if ?g then [] else ?d)"
    using w'(2) by (simp add: readFile_def)
  then show ?thesis using w'(2) by (simp add: runArgs_def sh_cat_def HasSuffix_def)
qed

theorem echo_cat_round_trip_witness:
  "\<exists>s1. runStmt demo_shell (Stmt False (CallExpr [] [Word [Lit ''echo''], Word [Lit ''hi'']])
        [Redirect RdrOut (Word [Lit ''new''])]) = (s1, None) \<and>
     runStmt s1 (Stmt False (CallExpr [] [Word [Lit ''cat''], Word [Lit ''new'']]) []) =
       (s1\<lparr>sh_out := ''hi'' @ [CHR 0x0A]\<rparr>, None)"
proof -
  let ?r = "runStmt demo_shell (Stmt False (CallExpr [] [Word [Lit ''echo''], Word [Lit ''hi'']])
        [Redirect RdrOut (Word [Lit ''new''])])"
  have "snd ?r = None" unfolding demo_shell_def by code_simp
  then have r: "?r = (fst ?r, None)" by (metis prod.collapse)
  have inv: "fs_inv (sh_fs demo_shell)" "\<not> ghost (sh_fs demo_shell) n" "sh_out demo_shell = []" for n
    using demo_inv demo_no_ghost by (simp_all add: demo_shell_def newShell_def)
  note c = echo_cat_round_trip [OF inv(1) r, unfolded inv(3) if_not_P [OF inv(2)] append_Nil]
  with r show ?thesis by blast
qed

text \<open>
  C38: \<open>cp\<close> copies. A successful copy of a file leaves its contents under the destination (inside it,
  when it is a directory) and under the source; except that if the destination still carries the
  mark of a directory renamed away (\<open>ghost\<close>), that directory comes back there instead.
\<close>

theorem cp_copies:
  assumes "fs_inv (sh_fs s)" and "view (sh_fs s) (fsName (clean s src)) = Some (AFile d)"
    and "sh_cp s [src, dst] = (s', out, None)"
    and "target = (if view (sh_fs s) (fsName (clean s dst)) = Some ADir
           then path_Join [clean s dst, path_Base (clean s src)] else clean s dst)"
  shows "view (sh_fs s') (fsName (clean s target)) =
      Some (if ghost (sh_fs s) (fsName (clean s target)) then ADir else AFile d) \<and>
    view (sh_fs s') (fsName (clean s src)) = Some (AFile d) \<and> out = []"
proof -
  from assms(3,4) readFile_view [OF assms(2)] have "writeFile s target d False = (s', None)" "out = []"
    by (auto simp: sh_cp_def Let_def silent_def Stat_view prod_eq_iff)
  then obtain w where w: "writeFS_WriteFile (sh_fs s) (clean s target) d False = Inr w" "s' = s\<lparr>sh_fs := w\<rparr>"
    by (auto simp: writeFile_def set_fs_def split: sum.splits)
  have "\<not> ghost (sh_fs s) (fsName (clean s src))" using assms(2) by (auto simp: ghost_def view_deleted)
  then have "fsName (clean s src) = fsName (clean s target) \<Longrightarrow> written_node (sh_fs s) (clean s target) d = AFile d"
    by (simp add: written_node_def)
  with store.copied [of "sh_fs s" "clean s target" d w, OF assms(1) _ assms(2)] w
  have "view w (fsName (clean s target)) = Some (written_node (sh_fs s) (clean s target) d) \<and>
    view w (fsName (clean s src)) = Some (AFile d)" by simp
  with w(2) \<open>out = []\<close> show ?thesis by (simp add: written_node_def)
qed

theorem cp_copies_witness:
  "\<exists>s'. sh_cp demo_shell [''notes.txt'', ''/etc''] = (s', [], None) \<and>
     view (sh_fs s') ''etc/notes.txt'' = Some (AFile ''todo'') \<and>
     view (sh_fs s') ''home/guest/notes.txt'' = Some (AFile ''todo'')"
proof -
  have inv: "fs_inv (sh_fs demo_shell)" "\<not> ghost (sh_fs demo_shell) n" "sh_fs demo_shell = demo_fs" for n
    using demo_inv demo_no_ghost by (simp_all add: demo_shell_def newShell_def)
  have c: "clean demo_shell ''notes.txt'' = ''/home/guest/notes.txt''" "clean demo_shell ''/etc'' = ''/etc''"
    "clean demo_shell ''/etc/notes.txt'' = ''/etc/notes.txt''"
    unfolding demo_shell_def by code_simp+
  have n: "fsName ''/etc/notes.txt'' = ''etc/notes.txt''" "fsName ''/home/guest/notes.txt'' = ''home/guest/notes.txt''"
    "path_Join [''/etc'', path_Base ''/home/guest/notes.txt''] = ''/etc/notes.txt''" by code_simp+
  have v: "view (sh_fs demo_shell) (fsName (clean demo_shell ''notes.txt'')) = Some (AFile ''todo'')"
    and d: "view demo_fs (fsName ''/etc'') = Some ADir"
    unfolding c inv(3) by code_simp+
  then have t: "''/etc/notes.txt'' = (if view (sh_fs demo_shell) (fsName (clean demo_shell ''/etc'')) = Some ADir
           then path_Join [clean demo_shell ''/etc'', path_Base (clean demo_shell ''notes.txt'')]
           else clean demo_shell ''/etc'')"
    unfolding c n inv(3) by simp
  have "ok (writeFS_WriteFile demo_fs ''/etc/notes.txt'' ''todo'' False) \<noteq> None" by code_simp
  then obtain w where w: "writeFS_WriteFile demo_fs ''/etc/notes.txt'' ''todo'' False = Inr w" by (rule okE)
  then have r: "sh_cp demo_shell [''notes.txt'', ''/etc''] = (demo_shell\<lparr>sh_fs := w\<rparr>, [], None)"
    using readFile_view [OF v] d
    by (simp add: sh_cp_def c n(3) inv(3) Stat_view writeFile_def set_fs_def silent_def Let_def)
  show ?thesis using cp_copies [OF inv(1) v r t] r inv(2) unfolding c n by simp
qed

text \<open>
  The scope of assignments. An assignment on its own sets the shell's variable; one before a
  command is visible to the words of that command only.
\<close>

lemma assignment_scope:
  "runStmt s (Stmt False (CallExpr [Assign k (Some (Word [Lit v]))] []) redirs) = (s\<lparr>sh_env := (sh_env s)(k \<mapsto> v)\<rparr>, None) \<and>
   runStmt s (Stmt False (CallExpr [Assign k (Some (Word [Lit v]))] [Word [Lit ''echo''], Word [ParamExp (Some k)]]) []) =
     (s\<lparr>sh_out := sh_out s @ v @ [CHR 0x0A]\<rparr>, None)"
  by (simp add: runArgs_def sh_echo_def Join.simps)

end
