(* ===== verification/Spec2Isabelle.thy ===== *)
theory Spec2Isabelle
  imports Access Handlers Settings Guest CloudSessions ServerRun FSTheorems ShellProperties
begin

text \<open>
  \<^bold>\<open>sshmux\<close> is an SSH server that sends each session to a route: a local command, another SSH server,
  or a cloud instance made for the user. A configuration lists the credentials with their roles
  and the routes with the usernames they match and the role they need. Beside the server the
  repository has the guest that runs in a cloud instance and a demonstration shell.

  \<^bold>\<open>The parts, and the theories that model them.\<close>

  \<^item> \<open>internal/config\<close>: username patterns (\<open>Pattern\<close>; \<open>pattern.go\<close>, \<open>stringslice.go\<close>), keys,
    durations, the configuration and its validation (\<open>Config\<close>; \<open>sshkey.go\<close>, \<open>duration.go\<close>,
    \<open>config.go\<close>).
  \<^item> \<open>internal/server\<close>: the connection context and route selection (\<open>Router\<close>; \<open>role.go\<close>,
    \<open>router.go\<close>), the authentication callbacks (\<open>Auth\<close>; \<open>auth.go\<close>), and the session handler
    with local commands, terminals and proxying (\<open>Session\<close>; \<open>router.go\<close>, \<open>cmd.go\<close>, \<open>pty.go\<close>,
    \<open>proxy.go\<close>, \<open>ExitCode\<close> and the session request callback of \<open>server.go\<close>). Start and shutdown
    (\<open>server.go\<close>, \<open>cmd/sshmux/main.go\<close>) are in \<open>ServerRun\<close>.
  \<^item> \<open>internal/cloud\<close>: providers, instance names and keys, creation, limit and the dial loop
    (\<open>Unikraft\<close>; \<open>provider.go\<close>, \<open>unikraft.go\<close>), and \<open>getOrCreate\<close> of concurrent sessions, cut at its
    calls to the platform (\<open>CloudSessions\<close>).
  \<^item> \<open>support/guest\<close>: the idle timer (\<open>Guest_Idle\<close>; the package variables of \<open>main.go\<close>) and the
    configuration and session handling (\<open>Guest\<close>; \<open>config.go\<close>, \<open>main.go\<close>).
  \<^item> \<open>support/hello-world-shell\<close>: the writable file system (\<open>WriteFS\<close>; \<open>fs.go\<close>) and the shell with
    its commands (\<open>Shell\<close>; \<open>shell.go\<close>, \<open>cmd.go\<close>, \<open>main.go\<close>).
  \<^item> Go's library as far as the sources use it: strings, paths, \<open>path.Match\<close> and UTF-8, durations,
    error texts, SHA-256 and HMAC (\<open>GoStrings\<close>, \<open>GoPath\<close>, \<open>GoGlob\<close>, \<open>GoDuration\<close>, \<open>GoErrors\<close>,
    \<open>GoCrypto\<close>). \<open>Prelude\<close> has errors and their wrapping, runs of labelled step relations, and
    the interface \<open>invariant_of\<close> that every step relation of the development is shown to satisfy.

  \<^bold>\<open>How the code is rendered.\<close> Structs are records under their Go names, with a prefix on the fields
  where two structs share one; enumerations are datatypes. A Go function is a definition of the
  same name; the body of a loop that is proved about by itself is a definition \<open>f_loop\<close> or
  \<open>f_from\<close>. An error is a value of \<^typ>\<open>error\<close> that keeps its text and what it wraps, so that
  \<open>errors.As\<close> is a function of it, and a function that may fail returns \<^typ>\<open>'a result\<close>. Handlers
  that act on the world return the list of their effects in order together with their error. The
  concurrent parts are step relations: the idle timer of the guest, with \<open>time.AfterFunc\<close>
  callbacks that may be launched and overtaken, \<open>Run\<close>, with its signal and serving goroutines, and
  the sessions that ask the provider for instances.
  The cloud platform, the network and the clock are an abstract world that calls take and return.
  Go's \<open>int\<close> is a 64 bit word where a counter could wrap (the idle timer), an integer elsewhere;
  window sizes are truncated to 16 bits as in the code.

  \<^bold>\<open>What is proved.\<close>

  \<^item> \<open>Access\<close>: who gets in. A protected route is reached only with a credential that an entry with
    its role accepts, even after other credentials were offered on the same connection; when no
    credential is needed; that an accepted one always leads to a route; and that a password
    that is not offered would not have helped.
  \<^item> \<open>Settings\<close>: patterns mean what the documentation says, the glob matcher agrees with a direct
    definition, validation accepts exactly the valid configurations, keys and durations.
  \<^item> \<open>Handlers\<close>: the environment of a command, when a terminal is used, exit statuses, pinned host
    keys, what a proxied session forwards and that it closes what it opened.
  \<^item> \<open>Cloud\<close>: the guest and the server agree on keys and timeouts, instance names, the instance
    limit, and that dialling ends. The \<open>select\<close> picks any channel that is ready; the back-off lasts
    500 ms and can end a round only if the deadline, 30 s after the start, had not passed when the
    \<open>select\<close> was reached. So 61 rounds of fuel are enough for every run, and the result does not
    depend on the fuel. The time between starting the back-off's timer and polling is taken as none.
  \<^item> \<open>CloudSessions\<close>: with at most \<open>k\<close> sessions in \<open>getOrCreate\<close> at a time the instance limit is
    exceeded by at most \<open>k - 1\<close>, and it can be exceeded; a session whose steps are not
    interrupted is \<open>getOrCreate\<close> (\<open>alone_is_getOrCreate\<close>).
  \<^item> \<open>Guest_Idle\<close>, \<open>Guest\<close>: the guest stops only when it has been idle for the whole timeout, and
    never fails to be able to; the bound of \<open>2 ^ 62\<close> events keeps the 64 bit counters from wrapping.
  \<^item> \<open>ServerRun\<close>: start-up and the shutdown protocol in every interleaving.
  \<^item> \<open>FSProperties\<close>, \<open>FSTheorems\<close>: the overlay keeps its invariant and its 64 KiB limit, stays a
    tree, implements a map of names to nodes, and lists what can be opened. Renaming a directory leaves a
    mark (\<open>ghost\<close>) under which a later write does not show; the properties say so. \<open>file_store\<close> is
    the interface through which the shell's commands rely on the file system.
  \<^item> \<open>ShellProperties\<close>: no session of the shell changes the embedded tree or exceeds the limit, and
    files pass between commands. The shell's evaluator is total, so no fuel is needed.

  \<open>Demo\<close> holds a configuration and an environment for the witnesses.

  \<^bold>\<open>What is not modelled.\<close> Logging; the YAML decoder and reading of files, the regular expression
  engine, key parsing and fingerprints of \<open>x/crypto/ssh\<close>, ed25519, the password file formats, the
  platform's API, TLS and the SSH protocol itself, the shell's parser: these are parameters, with
  hypotheses where a theorem relies on them. The copying of bytes between a session and a process
  or backend, command line parsing by \<open>kong\<close>, failing writes to the standard output, modes and
  times of files, and the quoting of \<open>%q\<close> (a parameter of error texts) are left out. An interrupt of
  the interactive shell is taken between two lines.
\<close>

end
